theory Spec2Isabelle
  imports Complex_Main "HOL-Library.AList"
begin

section \<open>Python values\<close>

text \<open>
  The tracer of \<^verbatim>\<open>langfuse_integration.py\<close> receives dictionaries whose values are
  arbitrary Python objects (\<^verbatim>\<open>Dict\<close>, \<^verbatim>\<open>List[Dict]\<close>). The values it can
  tell apart are modelled by \<open>pyval\<close>. A Python \<^verbatim>\<open>float\<close> is modelled by a real number:
  rounding, infinities and NaN are outside the model, while the \<^verbatim>\<open>OverflowError\<close> of
  converting an int beyond the range of a double is part of it. A dictionary is an
  association list in insertion order, with string keys.
\<close>

datatype pyval =
    PNone
  | PBool bool
  | PInt int
  | PFloat real
  | PStr string
  | PList "pyval list"
  | PDict "(string \<times> pyval) list"

type_synonym dict = "(string \<times> pyval) list"

text \<open>
  An exception is either an instance of \<^verbatim>\<open>Exception\<close>, which \<^verbatim>\<open>except Exception\<close>
  catches, or of another subclass of \<^verbatim>\<open>BaseException\<close> (\<^verbatim>\<open>KeyboardInterrupt\<close>,
  \<^verbatim>\<open>SystemExit\<close>), which it does not. The string is \<^verbatim>\<open>str(e)\<close>.
\<close>

datatype py_exn = Exception string | BaseException string

text \<open>\<^verbatim>\<open>d.get(k, default)\<close> and \<^verbatim>\<open>k in d\<close>.\<close>

definition dict_get :: "dict \<Rightarrow> string \<Rightarrow> pyval \<Rightarrow> pyval" where
  "dict_get d k dflt = (case map_of d k of None \<Rightarrow> dflt | Some v \<Rightarrow> v)"

definition dict_contains :: "dict \<Rightarrow> string \<Rightarrow> bool" where
  "dict_contains d k = (map_of d k \<noteq> None)"

text \<open>
  A dictionary display \<^verbatim>\<open>{k1: v1, ..., **m}\<close> inserts its items from left to right; a key
  that is already present keeps its position and takes the later value.
\<close>

definition dict_display :: "(string \<times> pyval) list \<Rightarrow> dict" where
  "dict_display items = fold (\<lambda>(k, v). AList.update k v) items []"

text \<open>\<^verbatim>\<open>metadata or {}\<close> for an optional dictionary.\<close>

definition or_empty :: "dict option \<Rightarrow> dict" where
  "or_empty metadata = (case metadata of None \<Rightarrow> [] | Some m \<Rightarrow> m)"

text \<open>Truth value of an object, as \<^verbatim>\<open>if\<close> and the conditional expression test it.\<close>

fun truthy :: "pyval \<Rightarrow> bool" where
  "truthy PNone = False"
| "truthy (PBool b) = b"
| "truthy (PInt i) = (i \<noteq> 0)"
| "truthy (PFloat x) = (x \<noteq> 0)"
| "truthy (PStr s) = (s \<noteq> [])"
| "truthy (PList xs) = (xs \<noteq> [])"
| "truthy (PDict d) = (d \<noteq> [])"

fun type_name :: "pyval \<Rightarrow> string" where
  "type_name PNone = ''NoneType''"
| "type_name (PBool b) = ''bool''"
| "type_name (PInt i) = ''int''"
| "type_name (PFloat x) = ''float''"
| "type_name (PStr s) = ''str''"
| "type_name (PList xs) = ''list''"
| "type_name (PDict d) = ''dict''"

text \<open>
  \<^verbatim>\<open>isinstance(score, (int, float))\<close>: \<^verbatim>\<open>bool\<close> is a subclass of \<^verbatim>\<open>int\<close>, so a
  boolean passes the test.
\<close>

fun isinstance_int_float :: "pyval \<Rightarrow> bool" where
  "isinstance_int_float (PBool b) = True"
| "isinstance_int_float (PInt i) = True"
| "isinstance_int_float (PFloat x) = True"
| "isinstance_int_float v = False"

text \<open>
  The real number that a bool, an int or a float denotes (0 for any other value, which
  denotes none).
\<close>

fun number_value :: "pyval \<Rightarrow> real" where
  "number_value (PBool b) = (if b then 1 else 0)"
| "number_value (PInt i) = real_of_int i"
| "number_value (PFloat x) = x"
| "number_value v = 0"

text \<open>
  An int converts to a float when the nearest double is finite: it raises
  \<^verbatim>\<open>OverflowError\<close> from \<open>2 ^ 1024 - 2 ^ 970\<close> on, in absolute value (the midpoint
  between the largest double and \<open>2 ^ 1024\<close>, which rounds up).
\<close>

definition float_overflow :: "int \<Rightarrow> bool" where
  "float_overflow i = (\<bar>i\<bar> \<ge> 2 ^ 1024 - 2 ^ 970)"

fun float_ok :: "pyval \<Rightarrow> bool" where
  "float_ok (PInt i) = (\<not> float_overflow i)"
| "float_ok v = True"

text \<open>
  The conversion to float of an instance of \<^verbatim>\<open>int\<close> or \<^verbatim>\<open>float\<close>, as
  \<^verbatim>\<open>float(score)\<close> and the division \<^verbatim>\<open>v / 10.0\<close> apply it: the value, or the
  \<^verbatim>\<open>OverflowError\<close> of an int that is too large. \<open>None\<close> for a value that is not an
  instance of \<^verbatim>\<open>int\<close> or \<^verbatim>\<open>float\<close>.
\<close>

fun to_float :: "pyval \<Rightarrow> (py_exn + real) option" where
  "to_float (PBool b) = Some (Inr (if b then 1 else 0))"
| "to_float (PInt i) =
     Some (if float_overflow i then Inl (Exception ''int too large to convert to float'')
           else Inr (real_of_int i))"
| "to_float (PFloat x) = Some (Inr x)"
| "to_float v = None"

text \<open>
  \<^verbatim>\<open>v / 10.0\<close>: the float of \<open>v\<close> divided by 10 for a number, the
  \<^verbatim>\<open>OverflowError\<close> of its conversion, or a \<^verbatim>\<open>TypeError\<close> for anything else.
\<close>

definition div_10 :: "pyval \<Rightarrow> py_exn + real" where
  "div_10 v =
     (case to_float v of
        Some (Inr x) \<Rightarrow> Inr (x / 10)
      | Some (Inl e) \<Rightarrow> Inl e
      | None \<Rightarrow>
          Inl (Exception (''unsupported operand type(s) for /: '' @ [CHR 0x27] @ type_name v
                          @ [CHR 0x27] @ '' and '' @ [CHR 0x27] @ ''float'' @ [CHR 0x27])))"

text \<open>\<^verbatim>\<open>judgment.get('overall_quality', 0)\<close>: only a dictionary has \<^verbatim>\<open>get\<close>.\<close>

definition judgment_get :: "pyval \<Rightarrow> py_exn + pyval" where
  "judgment_get judgment =
     (case judgment of
        PDict d \<Rightarrow> Inr (dict_get d ''overall_quality'' (PInt 0))
      | _ \<Rightarrow> Inl (Exception ([CHR 0x27] @ type_name judgment @ [CHR 0x27]
                              @ '' object has no attribute '' @ [CHR 0x27] @ ''get'' @ [CHR 0x27])))"

text \<open>
  \<^verbatim>\<open>prediction.get('fraud_flag', False) == test_case.expected_fraud_flag\<close>, the right-hand
  side being a boolean: \<^verbatim>\<open>True == 1 == 1.0\<close> and \<^verbatim>\<open>False == 0 == 0.0\<close> in Python, and
  no other object equals a boolean.
\<close>

fun py_eq_bool :: "pyval \<Rightarrow> bool \<Rightarrow> bool" where
  "py_eq_bool (PBool p) b = (p = b)"
| "py_eq_bool (PInt i) b = (i = (if b then 1 else 0))"
| "py_eq_bool (PFloat x) b = (x = (if b then 1 else 0))"
| "py_eq_bool v b = False"

text \<open>\<^verbatim>\<open>str(n)\<close> for a natural number, as the f-strings \<^verbatim>\<open>{i+1}\<close> print it.\<close>

definition digit_char :: "nat \<Rightarrow> char" where
  "digit_char d = ''0123456789'' ! d"

fun str_of_nat :: "nat \<Rightarrow> string" where
  "str_of_nat n = (if n < 10 then [digit_char n] else str_of_nat (n div 10) @ [digit_char (n mod 10)])"

declare str_of_nat.simps [simp del]

section \<open>The evaluation types\<close>

text \<open>
  Modelled from the spec: the classes \<^verbatim>\<open>EvaluationResult\<close> and \<^verbatim>\<open>TestCase\<close> of
  \<^verbatim>\<open>evaluation_types.py\<close>, with the fields the tracer reads. The four metrics are floats,
  \<^verbatim>\<open>detailed_results\<close> is a sequence of mappings, \<^verbatim>\<open>ragas_scores\<close> an optional mapping,
  a test case has a title and an expected boolean flag.
\<close>

record EvaluationResult =
  accuracy :: real
  precision :: real
  recall :: real
  f1_score :: real
  timestamp :: pyval
  detailed_results :: "dict list"
  ragas_scores :: "dict option"

record TestCase =
  title :: string
  expected_fraud_flag :: bool

section \<open>The backend client and the state\<close>

text \<open>
  The calls the tracer makes on the Langfuse client, on the span it opens and on the
  context manager of the span (\<open>SpanExit\<close>: leaving the \<^verbatim>\<open>with\<close> block).
\<close>

datatype call =
    CreateTraceId
  | StartAsCurrentSpan string
  | SpanExit
  | UpdateCurrentTrace string dict
  | CreateScore string string real string
  | SpanUpdate dict
  | Flush
  | Shutdown

text \<open>
  The client is a capability of the environment. \<open>raises\<close> says, from the calls made so far
  and the call being made, whether the call raises and what; \<open>trace_ids\<close> is the identifier
  that \<^verbatim>\<open>create_trace_id\<close> returns.
\<close>

record langfuse_client =
  raises :: "call list \<Rightarrow> call \<Rightarrow> py_exn option"
  trace_ids :: "call list \<Rightarrow> string"

text \<open>
  The attributes of a \<^verbatim>\<open>LangfuseTracer\<close> that the methods read. \<open>client = None\<close> is an
  instance without the attribute (\<^verbatim>\<open>hasattr(self, 'client')\<close> is false).
\<close>

record LangfuseTracer =
  enabled :: bool
  client :: "langfuse_client option"

datatype log_level = INFO | WARNING | ERROR

text \<open>
  The state: the tracer object, every call made on the backend so far (a call that raised
  is recorded too: it reached the client), and the records of the module's logger.
\<close>

record world =
  self :: LangfuseTracer
  calls :: "call list"
  logs :: "(log_level \<times> string) list"

type_synonym 'a action = "world \<Rightarrow> (py_exn + 'a) \<times> world"

definition ret :: "'a \<Rightarrow> 'a action" where
  "ret x w = (Inr x, w)"

text \<open>Sequencing: an exception of the first statement skips the rest.\<close>

definition andthen :: "'a action \<Rightarrow> ('a \<Rightarrow> 'b action) \<Rightarrow> 'b action" where
  "andthen m f w = (case m w of (Inl e, w') \<Rightarrow> (Inl e, w') | (Inr x, w') \<Rightarrow> f x w')"

text \<open>
  \<^verbatim>\<open>try: m except Exception as e: h(str(e))\<close>. An exception that is not an instance of
  \<^verbatim>\<open>Exception\<close> passes through.
\<close>

definition try_except :: "'a action \<Rightarrow> (string \<Rightarrow> 'a action) \<Rightarrow> 'a action" where
  "try_except m h w =
     (case m w of
        (Inl (Exception msg), w') \<Rightarrow> h msg w'
      | (Inl (BaseException msg), w') \<Rightarrow> (Inl (BaseException msg), w')
      | (Inr x, w') \<Rightarrow> (Inr x, w'))"

definition raise :: "py_exn \<Rightarrow> 'a action" where
  "raise e w = (Inl e, w)"

definition logger_info :: "string \<Rightarrow> unit action" where
  "logger_info msg w = (Inr (), w\<lparr>logs := logs w @ [(INFO, msg)]\<rparr>)"

definition logger_error :: "string \<Rightarrow> unit action" where
  "logger_error msg w = (Inr (), w\<lparr>logs := logs w @ [(ERROR, msg)]\<rparr>)"

text \<open>
  A call on \<^verbatim>\<open>self.client\<close> (or on the span it returned). Reading the attribute of an
  instance that has none raises \<^verbatim>\<open>AttributeError\<close>.
\<close>

definition client_call :: "call \<Rightarrow> unit action" where
  "client_call c w =
     (case client (self w) of
        None \<Rightarrow> (Inl (Exception ([CHR 0x27] @ ''LangfuseTracer'' @ [CHR 0x27]
                   @ '' object has no attribute '' @ [CHR 0x27] @ ''client'' @ [CHR 0x27])), w)
      | Some cl \<Rightarrow>
          (case raises cl (calls w) c of
             Some e \<Rightarrow> (Inl e, w\<lparr>calls := calls w @ [c]\<rparr>)
           | None \<Rightarrow> (Inr (), w\<lparr>calls := calls w @ [c]\<rparr>)))"

definition create_trace_id :: "string action" where
  "create_trace_id w =
     (case client_call CreateTraceId w of
        (Inl e, w') \<Rightarrow> (Inl e, w')
      | (Inr u, w') \<Rightarrow> (Inr (case client (self w) of None \<Rightarrow> [] | Some cl \<Rightarrow> trace_ids cl (calls w)), w'))"

text \<open>
  \<^verbatim>\<open>with self.client.start_as_current_span(name=...) as span: body\<close>. The context manager
  is left on both paths; it can raise when it is left, and it does not suppress an
  exception of the body.
\<close>

definition with_span :: "string \<Rightarrow> 'a action \<Rightarrow> 'a action" where
  "with_span name body w =
     (case client_call (StartAsCurrentSpan name) w of
        (Inl e, w1) \<Rightarrow> (Inl e, w1)
      | (Inr u, w1) \<Rightarrow>
          (case body w1 of
             (r, w2) \<Rightarrow>
               (case client_call SpanExit w2 of
                  (Inl e, w3) \<Rightarrow> (Inl e, w3)
                | (Inr u, w3) \<Rightarrow> (r, w3))))"

section \<open>The methods of \<open>LangfuseTracer\<close>\<close>

definition create_score :: "string \<Rightarrow> string \<Rightarrow> real \<Rightarrow> string \<Rightarrow> unit action" where
  "create_score trace_id name val comment = client_call (CreateScore trace_id name val comment)"

text \<open>
  \<^verbatim>\<open>_push_overall_scores\<close>: the four metrics and their mean. The \<^verbatim>\<open>try\<close> block
  first, then the method.
\<close>

definition push_overall_scores_try :: "string \<Rightarrow> EvaluationResult \<Rightarrow> string \<Rightarrow> unit action" where
  "push_overall_scores_try trace_id evaluation_result model_name =
     andthen (create_score trace_id ''fraud_detection_accuracy'' (accuracy evaluation_result)
                (''Overall fraud detection accuracy for '' @ model_name)) (\<lambda>_.
     andthen (create_score trace_id ''fraud_detection_precision'' (precision evaluation_result)
                (''Fraud detection precision for '' @ model_name)) (\<lambda>_.
     andthen (create_score trace_id ''fraud_detection_recall'' (recall evaluation_result)
                (''Fraud detection recall for '' @ model_name)) (\<lambda>_.
     andthen (create_score trace_id ''fraud_detection_f1'' (f1_score evaluation_result)
                (''Fraud detection F1 score for '' @ model_name)) (\<lambda>_.
     (let overall_quality = (accuracy evaluation_result + precision evaluation_result
                             + recall evaluation_result + f1_score evaluation_result) / 4
      in create_score trace_id ''fraud_detection_overall_quality'' overall_quality
           (''Overall quality score for '' @ model_name))))))"

definition push_overall_scores :: "string \<Rightarrow> EvaluationResult \<Rightarrow> string \<Rightarrow> unit action" where
  "push_overall_scores trace_id evaluation_result model_name w =
     (if \<not> enabled (self w) then (Inr (), w)
      else try_except (push_overall_scores_try trace_id evaluation_result model_name)
             (\<lambda>e. logger_error (''Failed to push overall scores: '' @ e)) w)"

text \<open>
  One iteration of the loop of \<^verbatim>\<open>_push_case_scores\<close>, for the index \<open>i\<close> that
  \<^verbatim>\<open>enumerate\<close> gives.
\<close>

definition push_case :: "string \<Rightarrow> nat \<Rightarrow> dict \<Rightarrow> TestCase \<Rightarrow> unit action" where
  "push_case trace_id i result test_case =
     (let case_correct = dict_get result ''overall_correct'' (PBool False) in
      andthen (create_score trace_id (''case_'' @ str_of_nat (i + 1) @ ''_accuracy'')
                 (if truthy case_correct then 1 else 0)
                 (''Case '' @ str_of_nat (i + 1) @ '': '' @ title test_case)) (\<lambda>_.
      if dict_contains result ''llm_judgment'' then
        (let judgment = dict_get result ''llm_judgment'' PNone in
         case judgment_get judgment of
           Inl e \<Rightarrow> raise e
         | Inr q \<Rightarrow>
             (case div_10 q of
                Inl e \<Rightarrow> raise e
              | Inr v \<Rightarrow>
                  create_score trace_id (''case_'' @ str_of_nat (i + 1) @ ''_llm_judge_quality'') v
                    (''LLM judge quality for case '' @ str_of_nat (i + 1) @ '': '' @ title test_case)))
      else ret ()))"

text \<open>
  The loop \<^verbatim>\<open>for i, (result, test_case) in enumerate(zip(...))\<close>, from index \<open>i\<close> on.
\<close>

fun case_loop :: "string \<Rightarrow> nat \<Rightarrow> (dict \<times> TestCase) list \<Rightarrow> unit action" where
  "case_loop trace_id i [] = ret ()"
| "case_loop trace_id i ((result, test_case) # rest) =
     andthen (push_case trace_id i result test_case) (\<lambda>_. case_loop trace_id (i + 1) rest)"

definition push_case_scores :: "string \<Rightarrow> EvaluationResult \<Rightarrow> TestCase list \<Rightarrow> unit action" where
  "push_case_scores trace_id evaluation_result test_cases w =
     (if \<not> enabled (self w) then (Inr (), w)
      else try_except
        (case_loop trace_id 0 (zip (detailed_results evaluation_result) test_cases))
        (\<lambda>e. logger_error (''Failed to push case scores: '' @ e)) w)"

text \<open>
  The loop of \<^verbatim>\<open>_push_ragas_scores\<close> over \<^verbatim>\<open>ragas_scores.items()\<close>. The value
  \<^verbatim>\<open>float(score)\<close> is computed before \<^verbatim>\<open>create_score\<close> is called, so a conversion
  that raises makes no call.
\<close>

fun ragas_loop :: "string \<Rightarrow> (string \<times> pyval) list \<Rightarrow> unit action" where
  "ragas_loop trace_id [] = ret ()"
| "ragas_loop trace_id ((metric_name, score) # rest) =
     andthen (if isinstance_int_float score
              then (case to_float score of
                      Some (Inr v) \<Rightarrow>
                        create_score trace_id (''ragas_'' @ metric_name) v
                          (''RAGAS '' @ metric_name @ '' score'')
                    | Some (Inl e) \<Rightarrow> raise e
                    | None \<Rightarrow> ret ())
              else ret ()) (\<lambda>_. ragas_loop trace_id rest)"

definition push_ragas_scores :: "string \<Rightarrow> dict \<Rightarrow> unit action" where
  "push_ragas_scores trace_id scores w =
     (if \<not> enabled (self w) then (Inr (), w)
      else try_except (ragas_loop trace_id scores)
             (\<lambda>e. logger_error (''Failed to push RAGAS scores: '' @ e)) w)"

text \<open>The metadata of the trace of a full run.\<close>

definition trace_metadata :: "EvaluationResult \<Rightarrow> string \<Rightarrow> string \<Rightarrow> TestCase list \<Rightarrow> dict option \<Rightarrow> dict" where
  "trace_metadata evaluation_result model_name model_provider test_cases metadata =
     dict_display
       ([(''model_name'', PStr model_name),
         (''model_provider'', PStr model_provider),
         (''evaluation_timestamp'', timestamp evaluation_result),
         (''test_cases_count'', PInt (int (length test_cases))),
         (''evaluation_type'', PStr ''fraud_detection'')]
        @ or_empty metadata)"

text \<open>The \<^verbatim>\<open>try\<close> block of \<^verbatim>\<open>trace_evaluation_run\<close>.\<close>

definition trace_evaluation_run_try ::
  "EvaluationResult \<Rightarrow> string \<Rightarrow> string \<Rightarrow> TestCase list \<Rightarrow> dict option \<Rightarrow> string option action" where
  "trace_evaluation_run_try evaluation_result model_name model_provider test_cases metadata =
     andthen create_trace_id (\<lambda>trace_id.
     andthen (with_span (''fraud_detection_evaluation_'' @ model_name)
       (andthen (client_call (UpdateCurrentTrace (''fraud_detection_evaluation_'' @ model_name)
                   (trace_metadata evaluation_result model_name model_provider test_cases metadata))) (\<lambda>_.
        andthen (push_overall_scores trace_id evaluation_result model_name) (\<lambda>_.
        andthen (push_case_scores trace_id evaluation_result test_cases) (\<lambda>_.
        andthen (if truthy (PDict (or_empty (ragas_scores evaluation_result)))
                 then push_ragas_scores trace_id (or_empty (ragas_scores evaluation_result))
                 else ret ()) (\<lambda>_.
        client_call (SpanUpdate
          [(''accuracy'', PFloat (accuracy evaluation_result)),
           (''precision'', PFloat (precision evaluation_result)),
           (''recall'', PFloat (recall evaluation_result)),
           (''f1_score'', PFloat (f1_score evaluation_result)),
           (''total_cases'', PInt (int (length test_cases)))]))))))) (\<lambda>_.
     andthen (client_call Flush) (\<lambda>_.
     andthen (logger_info (''Evaluation trace created with ID: '' @ trace_id)) (\<lambda>_.
     ret (Some trace_id)))))"

definition trace_evaluation_run ::
  "EvaluationResult \<Rightarrow> string \<Rightarrow> string \<Rightarrow> TestCase list \<Rightarrow> dict option \<Rightarrow> string option action" where
  "trace_evaluation_run evaluation_result model_name model_provider test_cases metadata w =
     (if \<not> enabled (self w) then (Inr None, w)
      else try_except
        (trace_evaluation_run_try evaluation_result model_name model_provider test_cases metadata)
        (\<lambda>e. andthen (logger_error (''Failed to create evaluation trace: '' @ e)) (\<lambda>_. ret None)) w)"

text \<open>The \<^verbatim>\<open>try\<close> block of \<^verbatim>\<open>trace_single_case_evaluation\<close>.\<close>

definition trace_single_case_evaluation_try ::
  "TestCase \<Rightarrow> dict \<Rightarrow> string \<Rightarrow> dict option \<Rightarrow> string option action" where
  "trace_single_case_evaluation_try test_case prediction model_name metadata =
     andthen create_trace_id (\<lambda>trace_id.
     andthen (with_span (''single_case_evaluation_'' @ model_name)
       (andthen (client_call (UpdateCurrentTrace (''single_case_evaluation_'' @ model_name)
                   (dict_display
                      ([(''model_name'', PStr model_name),
                        (''test_case_title'', PStr (title test_case)),
                        (''expected_fraud'', PBool (expected_fraud_flag test_case)),
                        (''predicted_fraud'', dict_get prediction ''fraud_flag'' (PBool False))]
                       @ or_empty metadata)))) (\<lambda>_.
        (let is_correct = py_eq_bool (dict_get prediction ''fraud_flag'' (PBool False))
                            (expected_fraud_flag test_case) in
         andthen (create_score trace_id ''case_accuracy'' (if is_correct then 1 else 0)
                    (''Case accuracy: '' @ title test_case)) (\<lambda>_.
         client_call (SpanUpdate
           [(''correct'', PBool is_correct),
            (''expected'', PBool (expected_fraud_flag test_case)),
            (''predicted'', dict_get prediction ''fraud_flag'' (PBool False))])))))) (\<lambda>_.
     andthen (client_call Flush) (\<lambda>_.
     ret (Some trace_id))))"

definition trace_single_case_evaluation ::
  "TestCase \<Rightarrow> dict \<Rightarrow> string \<Rightarrow> dict option \<Rightarrow> string option action" where
  "trace_single_case_evaluation test_case prediction model_name metadata w =
     (if \<not> enabled (self w) then (Inr None, w)
      else try_except
        (trace_single_case_evaluation_try test_case prediction model_name metadata)
        (\<lambda>e. andthen (logger_error (''Failed to create single case trace: '' @ e)) (\<lambda>_. ret None)) w)"

definition close :: "unit action" where
  "close w =
     (if enabled (self w) \<and> client (self w) \<noteq> None then
        try_except
          (andthen (client_call Shutdown) (\<lambda>_. logger_info ''Langfuse client shut down successfully''))
          (\<lambda>e. logger_error (''Error shutting down Langfuse client: '' @ e)) w
      else (Inr (), w))"

text \<open>
  The module function \<^verbatim>\<open>trace_evaluation\<close>, for the tracer that the module holds: it
  calls \<^verbatim>\<open>trace_evaluation_run\<close> only on an enabled tracer.
\<close>

definition trace_evaluation ::
  "EvaluationResult \<Rightarrow> string \<Rightarrow> string \<Rightarrow> TestCase list \<Rightarrow> dict option \<Rightarrow> string option action" where
  "trace_evaluation evaluation_result model_name model_provider test_cases metadata w =
     (if enabled (self w)
      then trace_evaluation_run evaluation_result model_name model_provider test_cases metadata w
      else (Inr None, w))"

section \<open>Sequences of operations\<close>

text \<open>
  The methods of a tracer, the private ones included, as operations that a program can
  perform on it in any order; \<open>perform\<close> gives the state after one of them.
\<close>

datatype operation =
    TraceEvaluationRun EvaluationResult string string "TestCase list" "dict option"
  | TraceSingleCaseEvaluation TestCase dict string "dict option"
  | Close
  | PushOverallScores string EvaluationResult string
  | PushCaseScores string EvaluationResult "TestCase list"
  | PushRagasScores string dict
  | TraceEvaluation EvaluationResult string string "TestCase list" "dict option"

fun perform :: "operation \<Rightarrow> world \<Rightarrow> world" where
  "perform (TraceEvaluationRun er mn mp tcs md) w = snd (trace_evaluation_run er mn mp tcs md w)"
| "perform (TraceSingleCaseEvaluation tc prediction mn md) w =
     snd (trace_single_case_evaluation tc prediction mn md w)"
| "perform Close w = snd (close w)"
| "perform (PushOverallScores tid er mn) w = snd (push_overall_scores tid er mn w)"
| "perform (PushCaseScores tid er tcs) w = snd (push_case_scores tid er tcs w)"
| "perform (PushRagasScores tid scores) w = snd (push_ragas_scores tid scores w)"
| "perform (TraceEvaluation er mn mp tcs md) w = snd (trace_evaluation er mn mp tcs md w)"


section \<open>Observations on a run\<close>

text \<open>
  A client that raises on no call, whatever was called before; and a state in which the
  tracer is enabled and holds such a client.
\<close>

definition never_raises :: "langfuse_client \<Rightarrow> bool" where
  "never_raises cl = (\<forall>h c. raises cl h c = None)"

definition ready :: "world \<Rightarrow> bool" where
  "ready w = (enabled (self w) \<and> (\<exists>cl. client (self w) = Some cl \<and> never_raises cl))"

text \<open>The state after more calls on the backend and more records in the log.\<close>

definition emit :: "call list \<Rightarrow> (log_level \<times> string) list \<Rightarrow> world \<Rightarrow> world" where
  "emit cs ls w = w\<lparr>calls := calls w @ cs, logs := logs w @ ls\<rparr>"

text \<open>
  The calls that \<^verbatim>\<open>_push_overall_scores\<close> makes when none of them raises, and those
  that \<^verbatim>\<open>_push_ragas_scores\<close> makes when no call and no conversion to float raises.
\<close>

definition overall_calls :: "string \<Rightarrow> EvaluationResult \<Rightarrow> string \<Rightarrow> call list" where
  "overall_calls trace_id evaluation_result model_name =
     [CreateScore trace_id ''fraud_detection_accuracy'' (accuracy evaluation_result)
        (''Overall fraud detection accuracy for '' @ model_name),
      CreateScore trace_id ''fraud_detection_precision'' (precision evaluation_result)
        (''Fraud detection precision for '' @ model_name),
      CreateScore trace_id ''fraud_detection_recall'' (recall evaluation_result)
        (''Fraud detection recall for '' @ model_name),
      CreateScore trace_id ''fraud_detection_f1'' (f1_score evaluation_result)
        (''Fraud detection F1 score for '' @ model_name),
      CreateScore trace_id ''fraud_detection_overall_quality''
        ((accuracy evaluation_result + precision evaluation_result
          + recall evaluation_result + f1_score evaluation_result) / 4)
        (''Overall quality score for '' @ model_name)]"

definition ragas_calls :: "string \<Rightarrow> dict \<Rightarrow> call list" where
  "ragas_calls trace_id scores =
     map (\<lambda>(metric_name, score). CreateScore trace_id (''ragas_'' @ metric_name) (number_value score)
            (''RAGAS '' @ metric_name @ '' score''))
       (filter (\<lambda>(metric_name, score). isinstance_int_float score) scores)"

text \<open>
  The calls made between two states, and the name and value of every score among a list
  of calls, in order.
\<close>

definition emitted :: "world \<Rightarrow> world \<Rightarrow> call list" where
  "emitted w w' = drop (length (calls w)) (calls w')"

fun scores_of :: "call list \<Rightarrow> (string \<times> real) list" where
  "scores_of [] = []"
| "scores_of (CreateScore t n v c # cs) = (n, v) # scores_of cs"
| "scores_of (x # cs) = scores_of cs"

text \<open>
  The scores are told apart by their names: \<^verbatim>\<open>case_{i}_accuracy\<close>,
  \<^verbatim>\<open>case_{i}_llm_judge_quality\<close>, \<^verbatim>\<open>ragas_{metric}\<close>; the aggregate scores are
  named \<^verbatim>\<open>fraud_detection_...\<close>.
\<close>

fun is_case_score :: "call \<Rightarrow> bool" where
  "is_case_score (CreateScore t n v c) = (take 5 n = ''case_'')"
| "is_case_score x = False"

definition is_case_accuracy :: "string \<Rightarrow> bool" where
  "is_case_accuracy n = (take 5 n = ''case_'' \<and> take 9 (rev n) = rev ''_accuracy'')"

fun is_case_accuracy_call :: "call \<Rightarrow> bool" where
  "is_case_accuracy_call (CreateScore t n v c) = is_case_accuracy n"
| "is_case_accuracy_call x = False"


definition is_llm_judge_quality :: "string \<Rightarrow> bool" where
  "is_llm_judge_quality n = (take 5 n = ''case_'' \<and> take 18 (rev n) = rev ''_llm_judge_quality'')"


fun is_ragas_score :: "call \<Rightarrow> bool" where
  "is_ragas_score (CreateScore t n v c) = (take 6 n = ''ragas_'')"
| "is_ragas_score x = False"

text \<open>The records that a run added to the log.\<close>

definition logged :: "world \<Rightarrow> world \<Rightarrow> (log_level \<times> string) list" where
  "logged w w' = drop (length (logs w)) (logs w')"

text \<open>
  A detailed result as the evaluator produces it: its \<^verbatim>\<open>llm_judgment\<close>, when it has one,
  is a mapping whose \<^verbatim>\<open>overall_quality\<close> (0 when absent) is a number, and not an int
  beyond the range of a double. On any other
  result the expression \<^verbatim>\<open>judgment.get('overall_quality', 0) / 10.0\<close> raises and the
  loop of \<^verbatim>\<open>_push_case_scores\<close> stops there.
\<close>

fun numeric_judgment :: "pyval \<Rightarrow> bool" where
  "numeric_judgment (PDict j) =
     (isinstance_int_float (dict_get j ''overall_quality'' (PInt 0))
      \<and> float_ok (dict_get j ''overall_quality'' (PInt 0)))"
| "numeric_judgment v = False"

definition wf_result :: "dict \<Rightarrow> bool" where
  "wf_result r = (dict_contains r ''llm_judgment'' \<longrightarrow> numeric_judgment (dict_get r ''llm_judgment'' PNone))"

text \<open>
  The calls that the loop of \<^verbatim>\<open>_push_case_scores\<close> makes on such results, from the
  index \<open>i\<close> on, and all the calls of a full run around the calls \<open>cs\<close> of that loop
  and the calls \<open>rs\<close> of the loop of \<^verbatim>\<open>_push_ragas_scores\<close>, when no call raises.
\<close>

fun judge_quality :: "pyval \<Rightarrow> real" where
  "judge_quality (PDict j) = number_value (dict_get j ''overall_quality'' (PInt 0)) / 10"
| "judge_quality v = 0"

fun case_calls :: "string \<Rightarrow> nat \<Rightarrow> (dict \<times> TestCase) list \<Rightarrow> call list" where
  "case_calls trace_id i [] = []"
| "case_calls trace_id i ((result, test_case) # rest) =
     CreateScore trace_id (''case_'' @ str_of_nat (i + 1) @ ''_accuracy'')
       (if truthy (dict_get result ''overall_correct'' (PBool False)) then 1 else 0)
       (''Case '' @ str_of_nat (i + 1) @ '': '' @ title test_case)
     # (if dict_contains result ''llm_judgment''
        then [CreateScore trace_id (''case_'' @ str_of_nat (i + 1) @ ''_llm_judge_quality'')
                (judge_quality (dict_get result ''llm_judgment'' PNone))
                (''LLM judge quality for case '' @ str_of_nat (i + 1) @ '': '' @ title test_case)]
        else [])
     @ case_calls trace_id (i + 1) rest"

definition run_calls ::
  "string \<Rightarrow> EvaluationResult \<Rightarrow> string \<Rightarrow> string \<Rightarrow> TestCase list \<Rightarrow> dict option
     \<Rightarrow> call list \<Rightarrow> call list \<Rightarrow> call list" where
  "run_calls trace_id evaluation_result model_name model_provider test_cases metadata cs rs =
     [CreateTraceId,
      StartAsCurrentSpan (''fraud_detection_evaluation_'' @ model_name),
      UpdateCurrentTrace (''fraud_detection_evaluation_'' @ model_name)
        (trace_metadata evaluation_result model_name model_provider test_cases metadata)]
     @ overall_calls trace_id evaluation_result model_name
     @ cs
     @ rs
     @ [SpanUpdate
          [(''accuracy'', PFloat (accuracy evaluation_result)),
           (''precision'', PFloat (precision evaluation_result)),
           (''recall'', PFloat (recall evaluation_result)),
           (''f1_score'', PFloat (f1_score evaluation_result)),
           (''total_cases'', PInt (int (length test_cases)))],
        SpanExit, Flush]"

text \<open>
  The calls of a list that raised, with what they raised, for a client and the calls made
  before the list.
\<close>

fun failures :: "langfuse_client \<Rightarrow> call list \<Rightarrow> call list \<Rightarrow> (call \<times> py_exn) list" where
  "failures cl h [] = []"
| "failures cl h (c # cs) =
     (case raises cl h c of None \<Rightarrow> [] | Some e \<Rightarrow> [(c, e)]) @ failures cl (h @ [c]) cs"

fun is_score_call :: "call \<Rightarrow> bool" where
  "is_score_call (CreateScore t n v c) = True"
| "is_score_call x = False"

text \<open>
  The failures that leave a block: those of the calls in \<open>P\<close>, which the block makes
  outside any handler, and every failure that is not an instance of \<^verbatim>\<open>Exception\<close>,
  which no handler catches.
\<close>

fun is_base :: "py_exn \<Rightarrow> bool" where
  "is_base (BaseException msg) = True"
| "is_base (Exception msg) = False"

definition propagated ::
  "(call \<Rightarrow> bool) \<Rightarrow> langfuse_client \<Rightarrow> call list \<Rightarrow> call list \<Rightarrow> (call \<times> py_exn) list" where
  "propagated P cl h cs = filter (\<lambda>(c, e). P c \<or> is_base e) (failures cl h cs)"

text \<open>
  The start of the record that the handler around a score logs: that of
  \<^verbatim>\<open>_push_case_scores\<close>, \<^verbatim>\<open>_push_ragas_scores\<close> or \<^verbatim>\<open>_push_overall_scores\<close>,
  which the name of the score tells.
\<close>

fun handler_prefix :: "call \<Rightarrow> string" where
  "handler_prefix (CreateScore t n v c) =
     (if take 5 n = ''case_'' then ''Failed to push case scores: ''
      else if take 6 n = ''ragas_'' then ''Failed to push RAGAS scores: ''
      else ''Failed to push overall scores: '')"
| "handler_prefix x = []"

text \<open>
  \<open>strict A m\<close>: a block without a handler, as the \<^verbatim>\<open>try\<close> blocks of the three
  helpers. In every state it only adds calls, all of them in \<open>A\<close>; it stops at the first
  call that raises, with what the call raised, and otherwise raises only instances of
  \<^verbatim>\<open>Exception\<close> (the errors of its expressions).
\<close>

definition strict :: "(call \<Rightarrow> bool) \<Rightarrow> 'a action \<Rightarrow> bool" where
  "strict A m =
     (\<forall>w. \<exists>cs r. m w = (r, emit cs [] w) \<and> list_all A cs
        \<and> (\<forall>cl. client (self w) = Some cl \<longrightarrow>
              (case r of
                 Inr x \<Rightarrow> failures cl (calls w) cs = []
               | Inl e \<Rightarrow> failures cl (calls w) cs = [] \<and> \<not> is_base e
                          \<or> (\<exists>c. failures cl (calls w) cs = [(c, e)]))))"

text \<open>
  \<open>flow P Q m\<close>: in every state the block \<open>m\<close> only adds calls and log records. It
  returns a value, which satisfies \<open>Q\<close>, exactly when no failure left it, and otherwise
  raises what the last failure that left it raised. Every \<^verbatim>\<open>Exception\<close> raised by one
  of its other calls (the scores of the helpers) is in the log, behind the prefix of the
  helper.
\<close>

definition flow :: "(call \<Rightarrow> bool) \<Rightarrow> ('a \<Rightarrow> bool) \<Rightarrow> 'a action \<Rightarrow> bool" where
  "flow P Q m =
     (\<forall>w. \<exists>cs ls r. m w = (r, emit cs ls w) \<and> (\<forall>x. r = Inr x \<longrightarrow> Q x)
        \<and> (\<forall>cl. client (self w) = Some cl \<longrightarrow>
              (case r of
                 Inr x \<Rightarrow> propagated P cl (calls w) cs = []
               | Inl e \<Rightarrow> propagated P cl (calls w) cs \<noteq> []
                          \<and> snd (last (propagated P cl (calls w) cs)) = e)
              \<and> (\<forall>c msg. (c, Exception msg) \<in> set (failures cl (calls w) cs) \<and> \<not> P c
                    \<longrightarrow> (ERROR, handler_prefix c @ msg) \<in> set ls)))"

text \<open>
  The exceptions of input access. In one iteration of the loop of \<^verbatim>\<open>_push_case_scores\<close>
  the expression \<^verbatim>\<open>judgment.get('overall_quality', 0) / 10.0\<close> can raise, and in the loop
  of \<^verbatim>\<open>_push_ragas_scores\<close> the conversion \<^verbatim>\<open>float(score)\<close>; the loop stops at the
  first of them. \<open>helper_record\<close> is the record that the handler of the helper logs for it.
\<close>

definition judgment_error :: "dict \<Rightarrow> py_exn option" where
  "judgment_error result =
     (if dict_contains result ''llm_judgment'' then
        (case judgment_get (dict_get result ''llm_judgment'' PNone) of
           Inl e \<Rightarrow> Some e
         | Inr q \<Rightarrow> (case div_10 q of Inl e \<Rightarrow> Some e | Inr v \<Rightarrow> None))
      else None)"

fun first_judgment_error :: "dict list \<Rightarrow> py_exn option" where
  "first_judgment_error [] = None"
| "first_judgment_error (result # rest) =
     (case judgment_error result of Some e \<Rightarrow> Some e | None \<Rightarrow> first_judgment_error rest)"

fun first_conversion_error :: "(string \<times> pyval) list \<Rightarrow> py_exn option" where
  "first_conversion_error [] = None"
| "first_conversion_error ((metric_name, score) # rest) =
     (case (if isinstance_int_float score then to_float score else None) of
        Some (Inl e) \<Rightarrow> Some e
      | _ \<Rightarrow> first_conversion_error rest)"

fun helper_record :: "string \<Rightarrow> py_exn option \<Rightarrow> (log_level \<times> string) list" where
  "helper_record prefix (Some (Exception msg)) = [(ERROR, prefix @ msg)]"
| "helper_record prefix x = []"

section \<open>Sample inputs\<close>

text \<open>
  The example of the specification: accuracy 0.8, precision 0.75, recall 0.9, F1 0.82, three
  detailed results for five test cases, judgments of 7 and of 25, and auxiliary scores with
  one number and one string.
\<close>

definition reliable_client :: langfuse_client where
  "reliable_client = \<lparr>raises = (\<lambda>h c. None), trace_ids = (\<lambda>h. ''trace-1'')\<rparr>"

definition enabled_world :: world where
  "enabled_world = \<lparr>self = \<lparr>enabled = True, client = Some reliable_client\<rparr>, calls = [], logs = []\<rparr>"

definition sample_result :: EvaluationResult where
  "sample_result =
     \<lparr>accuracy = 0.8, precision = 0.75, recall = 0.9, f1_score = 0.82,
      timestamp = PStr ''2024-01-01T00:00:00'',
      detailed_results =
        [[(''overall_correct'', PBool True), (''llm_judgment'', PDict [(''overall_quality'', PInt 7)])],
         [(''overall_correct'', PBool False)],
         [(''overall_correct'', PBool True), (''llm_judgment'', PDict [(''overall_quality'', PInt 25)])]],
      ragas_scores = Some [(''faithfulness'', PFloat 0.9), (''note'', PStr ''n/a'')]\<rparr>"

definition sample_cases :: "TestCase list" where
  "sample_cases =
     [\<lparr>title = ''A'', expected_fraud_flag = True\<rparr>, \<lparr>title = ''B'', expected_fraud_flag = False\<rparr>,
      \<lparr>title = ''C'', expected_fraud_flag = True\<rparr>, \<lparr>title = ''D'', expected_fraud_flag = False\<rparr>,
      \<lparr>title = ''E'', expected_fraud_flag = True\<rparr>]"

definition disabled_world :: world where
  "disabled_world = \<lparr>self = \<lparr>enabled = False, client = None\<rparr>, calls = [], logs = []\<rparr>"

text \<open>
  Clients that fail: on the first aggregate score, on \<^verbatim>\<open>flush\<close>, and on \<^verbatim>\<open>flush\<close>
  with a \<^verbatim>\<open>KeyboardInterrupt\<close>.
\<close>

definition score_fails_client :: langfuse_client where
  "score_fails_client =
     \<lparr>raises = (\<lambda>h c. case c of
                 CreateScore t n v m \<Rightarrow>
                   if n = ''fraud_detection_accuracy'' then Some (Exception ''boom'') else None
               | _ \<Rightarrow> None),
      trace_ids = (\<lambda>h. ''trace-1'')\<rparr>"

definition flush_fails_client :: langfuse_client where
  "flush_fails_client =
     \<lparr>raises = (\<lambda>h c. if c = Flush then Some (Exception ''timeout'') else None),
      trace_ids = (\<lambda>h. ''trace-1'')\<rparr>"

definition interrupted_client :: langfuse_client where
  "interrupted_client =
     \<lparr>raises = (\<lambda>h c. if c = Flush then Some (BaseException ''KeyboardInterrupt'') else None),
      trace_ids = (\<lambda>h. ''trace-1'')\<rparr>"

definition world_of :: "langfuse_client \<Rightarrow> world" where
  "world_of cl = \<lparr>self = \<lparr>enabled = True, client = Some cl\<rparr>, calls = [], logs = []\<rparr>"

definition small_result :: EvaluationResult where
  "small_result =
     \<lparr>accuracy = 0.8, precision = 0.75, recall = 0.9, f1_score = 0.82,
      timestamp = PStr ''2024-01-01T00:00:00'', detailed_results = [], ragas_scores = None\<rparr>"

text \<open>
  A result with an int beyond the range of a double as the judgment of its first case and
  as its second auxiliary score.
\<close>

definition overflowing_result :: EvaluationResult where
  "overflowing_result =
     \<lparr>accuracy = 0.8, precision = 0.75, recall = 0.9, f1_score = 0.82,
      timestamp = PStr ''2024-01-01T00:00:00'',
      detailed_results =
        [[(''overall_correct'', PBool True), (''llm_judgment'', PDict [(''overall_quality'', PInt (10 ^ 309))])],
         [(''overall_correct'', PBool False)]],
      ragas_scores = Some [(''ok'', PInt 1), (''big'', PInt (10 ^ 309)), (''after'', PFloat 0.5)]\<rparr>"

section \<open>Runs on a backend that never raises\<close>

lemma ready_emit [simp]: "ready (emit cs ls w) = ready w"
  by (simp add: emit_def ready_def)

lemma emit_emit [simp]: "emit cs ls (emit bs ks w) = emit (bs @ cs) (ks @ ls) w"
  by (simp add: emit_def)

lemma emit_Nil [simp]: "emit [] [] w = w"
  by (simp add: emit_def)

lemma self_emit [simp]: "self (emit cs ls w) = self w"
  by (simp add: emit_def)

lemma calls_emit [simp]: "calls (emit cs ls w) = calls w @ cs"
  by (simp add: emit_def)

lemma logs_emit [simp]: "logs (emit cs ls w) = logs w @ ls"
  by (simp add: emit_def)

lemma emitted_emit [simp]: "emitted w (emit cs ls w) = cs"
  by (simp add: emitted_def)

lemma logger_info_emit: "logger_info m w = (Inr (), emit [] [(INFO, m)] w)"
  by (simp add: logger_info_def emit_def)

lemma logger_error_emit: "logger_error m w = (Inr (), emit [] [(ERROR, m)] w)"
  by (simp add: logger_error_def emit_def)

lemma client_call_ready: "ready w \<Longrightarrow> client_call c w = (Inr (), emit [c] [] w)"
  by (auto simp add: client_call_def ready_def never_raises_def emit_def)

lemma create_score_ready: "ready w \<Longrightarrow> create_score t n v c w = (Inr (), emit [CreateScore t n v c] [] w)"
  by (simp add: create_score_def client_call_ready)

lemma push_overall_ready:
  "ready w \<Longrightarrow> push_overall_scores tid er mn w = (Inr (), emit (overall_calls tid er mn) [] w)"
  by (simp add: push_overall_scores_def push_overall_scores_try_def try_except_def andthen_def
      create_score_ready ready_def[of w]
      overall_calls_def)

lemma push_case_plain:
  "ready w \<Longrightarrow> \<not> dict_contains result ''llm_judgment'' \<Longrightarrow>
   push_case tid i result tc w = (Inr (), emit (case_calls tid i [(result, tc)]) [] w)"
  by (simp add: push_case_def andthen_def create_score_ready ret_def)

lemma small_int_converts:
  assumes "\<bar>i\<bar> < 1024"
  shows "\<not> float_overflow i"
proof -
  have a: "(2::int) ^ 10 \<le> 2 ^ 970" by (rule power_increasing) simp_all
  have "(2::int) ^ 1024 = 2 ^ 970 * 2 ^ 54" by (simp add: power_add[symmetric])
  moreover have "(2::int) \<le> 2 ^ 54" by (rule self_le_power) simp_all
  ultimately have "(2::int) ^ 970 * 2 \<le> 2 ^ 1024" by simp
  then have "(2::int) ^ 970 \<le> 2 ^ 1024 - 2 ^ 970" by simp
  with a have "(2::int) ^ 10 \<le> 2 ^ 1024 - 2 ^ 970" by linarith
  with assms show ?thesis by (simp add: float_overflow_def)
qed

lemma to_float_ok:
  "isinstance_int_float v \<Longrightarrow> float_ok v \<Longrightarrow> to_float v = Some (Inr (number_value v))"
  by (cases v) simp_all

lemma to_float_overflow:
  "isinstance_int_float v \<Longrightarrow> \<not> float_ok v \<Longrightarrow>
   to_float v = Some (Inl (Exception ''int too large to convert to float''))"
  by (cases v) simp_all

lemma to_float_None: "\<not> isinstance_int_float v \<Longrightarrow> to_float v = None"
  by (cases v) simp_all

lemma div_10_ok:
  "isinstance_int_float v \<Longrightarrow> float_ok v \<Longrightarrow> div_10 v = Inr (number_value v / 10)"
  by (simp add: div_10_def to_float_ok)

lemma div_10_raises:
  "\<not> (isinstance_int_float v \<and> float_ok v) \<Longrightarrow> \<exists>m. div_10 v = Inl (Exception m)"
  by (cases "isinstance_int_float v") (auto simp add: div_10_def to_float_overflow to_float_None)

lemma numeric_judgment_get:
  "numeric_judgment v \<Longrightarrow> \<exists>q. judgment_get v = Inr q \<and> div_10 q = Inr (judge_quality v)"
  by (cases v) (simp_all add: judgment_get_def div_10_ok)

lemma not_numeric_judgment_get:
  "\<not> numeric_judgment v \<Longrightarrow>
   (\<exists>m. judgment_get v = Inl (Exception m)) \<or> (\<exists>q m. judgment_get v = Inr q \<and> div_10 q = Inl (Exception m))"
  using div_10_raises by (cases v) (simp_all add: judgment_get_def)

lemma push_case_judged:
  assumes "ready w" "dict_contains result ''llm_judgment''"
    "numeric_judgment (dict_get result ''llm_judgment'' PNone)"
  shows "push_case tid i result tc w = (Inr (), emit (case_calls tid i [(result, tc)]) [] w)"
proof -
  from numeric_judgment_get[OF assms(3)] obtain q where
    "judgment_get (dict_get result ''llm_judgment'' PNone) = Inr q"
    "div_10 q = Inr (judge_quality (dict_get result ''llm_judgment'' PNone))"
    by blast
  with assms(1,2) show ?thesis
    by (simp add: push_case_def andthen_def create_score_ready)
qed

lemma push_case_malformed:
  assumes "ready w" "dict_contains result ''llm_judgment''"
    "\<not> numeric_judgment (dict_get result ''llm_judgment'' PNone)"
  shows "\<exists>m. push_case tid i result tc w =
    (Inl (Exception m), emit [CreateScore tid (''case_'' @ str_of_nat (i + 1) @ ''_accuracy'')
       (if truthy (dict_get result ''overall_correct'' (PBool False)) then 1 else 0)
       (''Case '' @ str_of_nat (i + 1) @ '': '' @ title tc)] [] w)"
  using not_numeric_judgment_get[OF assms(3)] assms(1,2)
  by (auto simp add: push_case_def andthen_def create_score_ready raise_def)

lemma push_case_ready:
  assumes "ready w"
  shows "\<exists>cs r. push_case tid i result tc w = (r, emit cs [] w) \<and> list_all is_case_score cs
      \<and> (\<forall>m. r \<noteq> Inl (BaseException m))
      \<and> (wf_result result \<longrightarrow> r = Inr () \<and> cs = case_calls tid i [(result, tc)])"
proof (cases "dict_contains result ''llm_judgment''")
  case False
  from push_case_plain[OF assms False, of tid i tc] False show ?thesis
    by (intro exI[of _ "case_calls tid i [(result, tc)]"] exI[of _ "Inr ()"]) simp
next
  case True
  show ?thesis
  proof (cases "numeric_judgment (dict_get result ''llm_judgment'' PNone)")
    case n: True
    from push_case_judged[OF assms True n, of tid i tc] True show ?thesis
      by (intro exI[of _ "case_calls tid i [(result, tc)]"] exI[of _ "Inr ()"]) simp
  next
    case n: False
    from push_case_malformed[OF assms True n, of tid i tc] obtain m where
      "push_case tid i result tc w =
        (Inl (Exception m), emit [CreateScore tid (''case_'' @ str_of_nat (i + 1) @ ''_accuracy'')
       (if truthy (dict_get result ''overall_correct'' (PBool False)) then 1 else 0)
       (''Case '' @ str_of_nat (i + 1) @ '': '' @ title tc)] [] w)" by blast
    with True n show ?thesis
      by (intro exI[of _ "[CreateScore tid (''case_'' @ str_of_nat (i + 1) @ ''_accuracy'')
       (if truthy (dict_get result ''overall_correct'' (PBool False)) then 1 else 0)
       (''Case '' @ str_of_nat (i + 1) @ '': '' @ title tc)]"] exI[of _ "Inl (Exception m)"])
         (simp add: wf_result_def)
  qed
qed

lemma case_loop_ready:
  "ready w \<Longrightarrow> \<exists>cs r. case_loop tid i zs w = (r, emit cs [] w) \<and> list_all is_case_score cs
      \<and> (\<forall>m. r \<noteq> Inl (BaseException m))
      \<and> (list_all wf_result (map fst zs) \<longrightarrow> r = Inr () \<and> cs = case_calls tid i zs)"
proof (induction zs arbitrary: w i)
  case Nil
  then show ?case by (simp add: ret_def)
next
  case (Cons z zs)
  obtain result tc where z: "z = (result, tc)" by (cases z)
  from push_case_ready[OF Cons.prems, of tid i result tc]
  obtain cs r where 1: "push_case tid i result tc w = (r, emit cs [] w)" "list_all is_case_score cs"
     "\<forall>m. r \<noteq> Inl (BaseException m)" "wf_result result \<longrightarrow> r = Inr () \<and> cs = case_calls tid i [(result, tc)]"
    by blast
  show ?case
  proof (cases r)
    case (Inl e)
    with 1 z show ?thesis
      by (auto simp add: andthen_def)
  next
    case (Inr u)
    from Cons.prems have "ready (emit cs [] w)" by simp
    from Cons.IH[OF this, of "i + 1"]
    obtain cs' r' where 2: "case_loop tid (i + 1) zs (emit cs [] w) = (r', emit cs' [] (emit cs [] w))"
      "list_all is_case_score cs'" "\<forall>m. r' \<noteq> Inl (BaseException m)"
      "list_all wf_result (map fst zs) \<longrightarrow> r' = Inr () \<and> cs' = case_calls tid (i + 1) zs"
      by blast
    have "case_loop tid i (z # zs) w = (r', emit (cs @ cs') [] w)"
      using 1 2 z Inr by (simp add: andthen_def)
    moreover have "list_all is_case_score (cs @ cs')" using 1 2 by simp
    moreover have "list_all wf_result (map fst (z # zs)) \<longrightarrow> r' = Inr () \<and> cs @ cs' = case_calls tid i (z # zs)"
      using 1 2 z by auto
    ultimately show ?thesis using 2(3) by blast
  qed
qed

lemma wf_zip: "list_all wf_result xs \<Longrightarrow> list_all wf_result (map fst (zip xs ys))"
  by (auto simp: list_all_iff dest: set_zip_leftD)

lemma push_case_scores_ready:
  assumes "ready w"
  shows "\<exists>cs ls. push_case_scores tid er tcs w = (Inr (), emit cs ls w) \<and> list_all is_case_score cs
      \<and> (ls = [] \<or> (\<exists>msg. ls = [(ERROR, ''Failed to push case scores: '' @ msg)]))
      \<and> (list_all wf_result (detailed_results er) \<longrightarrow>
            cs = case_calls tid 0 (zip (detailed_results er) tcs) \<and> ls = [])"
proof -
  from case_loop_ready[OF assms, of tid 0 "zip (detailed_results er) tcs"]
  obtain cs r where 1: "case_loop tid 0 (zip (detailed_results er) tcs) w = (r, emit cs [] w)"
    "list_all is_case_score cs" "\<forall>m. r \<noteq> Inl (BaseException m)"
    "list_all wf_result (map fst (zip (detailed_results er) tcs)) \<longrightarrow>
       r = Inr () \<and> cs = case_calls tid 0 (zip (detailed_results er) tcs)"
    by blast
  have en: "enabled (self w)" using assms by (simp add: ready_def)
  show ?thesis
  proof (cases r)
    case (Inr u)
    with 1 en show ?thesis
      by (intro exI[of _ cs] exI[of _ "[]"]) (simp add: push_case_scores_def try_except_def wf_zip)
  next
    case (Inl e)
    with 1(3) obtain m where m: "e = Exception m" by (cases e) auto
    have "\<not> list_all wf_result (detailed_results er)"
      using 1(4) Inl wf_zip by blast
    with 1 en Inl m show ?thesis
      by (intro exI[of _ cs] exI[of _ "[(ERROR, ''Failed to push case scores: '' @ m)]"])
         (simp add: push_case_scores_def try_except_def logger_error_emit)
  qed
qed

lemma ragas_step_ready:
  assumes "ready w"
  shows "\<exists>rs r. (if isinstance_int_float v
              then (case to_float v of
                      Some (Inr x) \<Rightarrow>
                        create_score tid (''ragas_'' @ k) x (''RAGAS '' @ k @ '' score'')
                    | Some (Inl e) \<Rightarrow> raise e
                    | None \<Rightarrow> ret ())
              else ret ()) w = (r, emit rs [] w)
      \<and> list_all is_ragas_score rs \<and> (\<forall>m. r \<noteq> Inl (BaseException m))
      \<and> (float_ok v \<longrightarrow> r = Inr () \<and> rs = ragas_calls tid [(k, v)])"
proof (cases "isinstance_int_float v")
  case False
  then show ?thesis
    by (intro exI[of _ "[]"] exI[of _ "Inr ()"]) (simp add: ret_def ragas_calls_def)
next
  case True
  show ?thesis
  proof (cases "float_ok v")
    case ok: True
    with True assms show ?thesis
      by (intro exI[of _ "ragas_calls tid [(k, v)]"] exI[of _ "Inr ()"])
         (simp add: to_float_ok create_score_ready ragas_calls_def)
  next
    case no: False
    with True show ?thesis
      by (intro exI[of _ "[]"] exI[of _ "Inl (Exception ''int too large to convert to float'')"])
         (simp add: to_float_overflow raise_def)
  qed
qed

lemma ragas_calls_Cons:
  "ragas_calls tid (p # ps) = ragas_calls tid [p] @ ragas_calls tid ps"
  by (simp add: ragas_calls_def)

lemma ragas_loop_ready:
  "ready w \<Longrightarrow> \<exists>rs r. ragas_loop tid items w = (r, emit rs [] w) \<and> list_all is_ragas_score rs
      \<and> (\<forall>m. r \<noteq> Inl (BaseException m))
      \<and> (list_all float_ok (map snd items) \<longrightarrow> r = Inr () \<and> rs = ragas_calls tid items)"
proof (induction items arbitrary: w)
  case Nil
  then show ?case by (simp add: ret_def ragas_calls_def)
next
  case (Cons p ps)
  obtain k v where p: "p = (k, v)" by (cases p)
  from ragas_step_ready[OF Cons.prems, of v tid k]
  obtain rs r where 1: "(if isinstance_int_float v
              then (case to_float v of
                      Some (Inr x) \<Rightarrow>
                        create_score tid (''ragas_'' @ k) x (''RAGAS '' @ k @ '' score'')
                    | Some (Inl e) \<Rightarrow> raise e
                    | None \<Rightarrow> ret ())
              else ret ()) w = (r, emit rs [] w)"
     "list_all is_ragas_score rs" "\<forall>m. r \<noteq> Inl (BaseException m)"
     "float_ok v \<longrightarrow> r = Inr () \<and> rs = ragas_calls tid [(k, v)]"
    by blast
  show ?case
  proof (cases r)
    case (Inl e)
    with 1 p show ?thesis
      by (intro exI[of _ rs] exI[of _ r]) (auto simp add: andthen_def)
  next
    case (Inr u)
    from Cons.prems have "ready (emit rs [] w)" by simp
    from Cons.IH[OF this]
    obtain rs' r' where 2: "ragas_loop tid ps (emit rs [] w) = (r', emit rs' [] (emit rs [] w))"
      "list_all is_ragas_score rs'" "\<forall>m. r' \<noteq> Inl (BaseException m)"
      "list_all float_ok (map snd ps) \<longrightarrow> r' = Inr () \<and> rs' = ragas_calls tid ps"
      by blast
    have "ragas_loop tid (p # ps) w = (r', emit (rs @ rs') [] w)"
      using 1(1) 2(1) p Inr by (simp add: andthen_def)
    moreover have "list_all is_ragas_score (rs @ rs')" using 1 2 by simp
    moreover have "list_all float_ok (map snd (p # ps)) \<longrightarrow> r' = Inr () \<and> rs @ rs' = ragas_calls tid (p # ps)"
      using 1(4) 2(4) p ragas_calls_Cons[of tid p ps] by auto
    ultimately show ?thesis using 2(3) by blast
  qed
qed

lemma push_ragas_ready:
  assumes "ready w"
  shows "\<exists>rs ls. push_ragas_scores tid items w = (Inr (), emit rs ls w) \<and> list_all is_ragas_score rs
      \<and> (ls = [] \<or> (\<exists>msg. ls = [(ERROR, ''Failed to push RAGAS scores: '' @ msg)]))
      \<and> (list_all float_ok (map snd items) \<longrightarrow> rs = ragas_calls tid items \<and> ls = [])"
proof -
  from ragas_loop_ready[OF assms, of tid items]
  obtain rs r where 1: "ragas_loop tid items w = (r, emit rs [] w)"
    "list_all is_ragas_score rs" "\<forall>m. r \<noteq> Inl (BaseException m)"
    "list_all float_ok (map snd items) \<longrightarrow> r = Inr () \<and> rs = ragas_calls tid items"
    by blast
  have en: "enabled (self w)" using assms by (simp add: ready_def)
  show ?thesis
  proof (cases r)
    case (Inr u)
    with 1 en show ?thesis
      by (intro exI[of _ rs] exI[of _ "[]"]) (simp add: push_ragas_scores_def try_except_def)
  next
    case (Inl e)
    with 1(3) obtain m where m: "e = Exception m" by (cases e) auto
    have "\<not> list_all float_ok (map snd items)"
      using 1(4) Inl by blast
    with 1 en Inl m show ?thesis
      by (intro exI[of _ rs] exI[of _ "[(ERROR, ''Failed to push RAGAS scores: '' @ m)]"])
         (simp add: push_ragas_scores_def try_except_def logger_error_emit)
  qed
qed

lemma with_span_ready:
  "ready w \<Longrightarrow> body (emit [StartAsCurrentSpan name] [] w) = (Inr x, emit cs ls (emit [StartAsCurrentSpan name] [] w))
    \<Longrightarrow> with_span name body w = (Inr x, emit (StartAsCurrentSpan name # cs @ [SpanExit]) ls w)"
  by (simp add: with_span_def client_call_ready)

lemma create_trace_id_ready:
  "ready w \<Longrightarrow> client (self w) = Some cl \<Longrightarrow> create_trace_id w = (Inr (trace_ids cl (calls w)), emit [CreateTraceId] [] w)"
  by (simp add: create_trace_id_def client_call_ready)

lemma trace_evaluation_run_ready:
  assumes "ready w" "client (self w) = Some cl"
  shows "\<exists>cs rs ls ls'. trace_evaluation_run er mn mp tcs md w =
      (Inr (Some (trace_ids cl (calls w))),
       emit (run_calls (trace_ids cl (calls w)) er mn mp tcs md cs rs)
         (ls @ ls' @ [(INFO, ''Evaluation trace created with ID: '' @ trace_ids cl (calls w))]) w)
      \<and> list_all is_case_score cs \<and> list_all is_ragas_score rs
      \<and> (ls = [] \<or> (\<exists>msg. ls = [(ERROR, ''Failed to push case scores: '' @ msg)]))
      \<and> (ls' = [] \<or> (\<exists>msg. ls' = [(ERROR, ''Failed to push RAGAS scores: '' @ msg)]))
      \<and> (list_all wf_result (detailed_results er) \<longrightarrow>
            cs = case_calls (trace_ids cl (calls w)) 0 (zip (detailed_results er) tcs) \<and> ls = [])
      \<and> (list_all float_ok (map snd (or_empty (ragas_scores er))) \<longrightarrow>
            rs = ragas_calls (trace_ids cl (calls w)) (or_empty (ragas_scores er)) \<and> ls' = [])"
proof -
  let ?tid = "trace_ids cl (calls w)"
  let ?w3 = "emit ([CreateTraceId, StartAsCurrentSpan (''fraud_detection_evaluation_'' @ mn),
      UpdateCurrentTrace (''fraud_detection_evaluation_'' @ mn) (trace_metadata er mn mp tcs md)]
      @ overall_calls ?tid er mn) [] w"
  have r3: "ready ?w3" using assms by simp
  from push_case_scores_ready[OF r3, of ?tid er tcs]
  obtain cs ls where 1: "push_case_scores ?tid er tcs ?w3 = (Inr (), emit cs ls ?w3)"
    "list_all is_case_score cs"
    "ls = [] \<or> (\<exists>msg. ls = [(ERROR, ''Failed to push case scores: '' @ msg)])"
    "list_all wf_result (detailed_results er) \<longrightarrow>
            cs = case_calls ?tid 0 (zip (detailed_results er) tcs) \<and> ls = []"
    by blast
  have r4: "ready (emit cs ls ?w3)" using r3 by simp
  have "\<exists>rs ls'. (if truthy (PDict (or_empty (ragas_scores er)))
           then push_ragas_scores ?tid (or_empty (ragas_scores er)) else ret ()) (emit cs ls ?w3)
          = (Inr (), emit rs ls' (emit cs ls ?w3)) \<and> list_all is_ragas_score rs
      \<and> (ls' = [] \<or> (\<exists>msg. ls' = [(ERROR, ''Failed to push RAGAS scores: '' @ msg)]))
      \<and> (list_all float_ok (map snd (or_empty (ragas_scores er))) \<longrightarrow>
            rs = ragas_calls ?tid (or_empty (ragas_scores er)) \<and> ls' = [])"
  proof (cases "or_empty (ragas_scores er) = []")
    case True
    then show ?thesis
      by (intro exI[of _ "[]"]) (simp add: ret_def ragas_calls_def)
  next
    case False
    with push_ragas_ready[OF r4, of ?tid "or_empty (ragas_scores er)"] show ?thesis by simp
  qed
  then obtain rs ls' where 2: "(if truthy (PDict (or_empty (ragas_scores er)))
           then push_ragas_scores ?tid (or_empty (ragas_scores er)) else ret ()) (emit cs ls ?w3)
          = (Inr (), emit rs ls' (emit cs ls ?w3))" "list_all is_ragas_score rs"
      "ls' = [] \<or> (\<exists>msg. ls' = [(ERROR, ''Failed to push RAGAS scores: '' @ msg)])"
      "list_all float_ok (map snd (or_empty (ragas_scores er))) \<longrightarrow>
            rs = ragas_calls ?tid (or_empty (ragas_scores er)) \<and> ls' = []"
    by blast
  have en: "enabled (self w)" using assms by (simp add: ready_def)
  have "trace_evaluation_run er mn mp tcs md w =
      (Inr (Some ?tid), emit (run_calls ?tid er mn mp tcs md cs rs)
         (ls @ ls' @ [(INFO, ''Evaluation trace created with ID: '' @ ?tid)]) w)"
    using assms en 1(1) 2(1)
    by (simp add: trace_evaluation_run_def trace_evaluation_run_try_def try_except_def andthen_def
        create_trace_id_ready with_span_def client_call_ready push_overall_ready logger_info_emit
        ret_def run_calls_def del: truthy.simps)
  with 1 2 show ?thesis by blast
qed

section \<open>The scores in a list of calls\<close>


lemma scores_of_append: "scores_of (xs @ ys) = scores_of xs @ scores_of ys"
  by (induction xs rule: scores_of.induct) simp_all

lemma scores_of_overall:
  "scores_of (overall_calls tid er mn) =
    [(''fraud_detection_accuracy'', accuracy er), (''fraud_detection_precision'', precision er),
     (''fraud_detection_recall'', recall er), (''fraud_detection_f1'', f1_score er),
     (''fraud_detection_overall_quality'', (accuracy er + precision er + recall er + f1_score er) / 4)]"
  by (simp add: overall_calls_def)


lemma case_scores_names:
  "list_all is_case_score cs \<Longrightarrow> (n, v) \<in> set (scores_of cs) \<Longrightarrow> take 5 n = ''case_''"
  by (induction cs rule: scores_of.induct) auto

lemma filter_case_scores:
  assumes "list_all is_case_score cs" "\<And>n. take 5 n = ''case_'' \<Longrightarrow> \<not> P n"
  shows "filter (\<lambda>(n, v). P n) (scores_of cs) = []"
  using assms case_scores_names by (fastforce simp add: filter_empty_conv)

lemma is_case_accuracy_acc [simp]: "is_case_accuracy (CHR ''c'' # CHR ''a'' # CHR ''s'' # CHR ''e'' # CHR ''_'' # s @ ''_accuracy'')"
  by (simp add: is_case_accuracy_def)

lemma is_case_accuracy_judge [simp]: "\<not> is_case_accuracy (CHR ''c'' # CHR ''a'' # CHR ''s'' # CHR ''e'' # CHR ''_'' # s @ ''_llm_judge_quality'')"
  by (simp add: is_case_accuracy_def)

lemma is_judge_acc [simp]: "\<not> is_llm_judge_quality (CHR ''c'' # CHR ''a'' # CHR ''s'' # CHR ''e'' # CHR ''_'' # s @ ''_accuracy'')"
  by (simp add: is_llm_judge_quality_def)

lemma is_judge_judge [simp]: "is_llm_judge_quality (CHR ''c'' # CHR ''a'' # CHR ''s'' # CHR ''e'' # CHR ''_'' # s @ ''_llm_judge_quality'')"
  by (simp add: is_llm_judge_quality_def)


lemma ready_enabled_world: "ready enabled_world"
  by (simp add: ready_def enabled_world_def never_raises_def reliable_client_def)

lemma scores_of_run_calls:
  "scores_of (run_calls tid er mn mp tcs md cs rs) =
     scores_of (overall_calls tid er mn) @ scores_of cs @ scores_of rs"
  by (simp add: run_calls_def scores_of_append)

lemma ragas_scores_names:
  "list_all is_ragas_score rs \<Longrightarrow> (n, v) \<in> set (scores_of rs) \<Longrightarrow> take 6 n = ''ragas_''"
  by (induction rs rule: scores_of.induct) auto

lemma filter_ragas_scores:
  assumes "list_all is_ragas_score rs" "\<And>n. take 6 n = ''ragas_'' \<Longrightarrow> \<not> P n"
  shows "filter (\<lambda>(n, v). P n) (scores_of rs) = []"
  using assms ragas_scores_names by (fastforce simp add: filter_empty_conv)

lemma not_case_ragas: "take 6 n = ''ragas_'' \<Longrightarrow> take 5 n \<noteq> ''case_''"
proof
  assume a: "take 6 n = ''ragas_''" and "take 5 n = ''case_''"
  from a have "take 5 (take 6 n) = take 5 ''ragas_''" by simp
  then have "take 5 n = ''ragas''" by simp
  with \<open>take 5 n = ''case_''\<close> show False by simp
qed

section \<open>Full runs: the scores emitted\<close>

lemma logged_emit [simp]: "logged w (emit cs ls w) = ls"
  by (simp add: logged_def)

lemma str_of_nat_digit: "n < 10 \<Longrightarrow> str_of_nat n = [digit_char n]"
  by (simp add: str_of_nat.simps)

lemma wf_sample_result: "list_all wf_result (detailed_results sample_result)"
  by (simp add: sample_result_def wf_result_def dict_contains_def dict_get_def small_int_converts)

lemma run_emitted:
  assumes "ready w"
  shows "\<exists>cl cs rs ls ls'. client (self w) = Some cl \<and>
    trace_evaluation_run er mn mp tcs md w =
      (Inr (Some (trace_ids cl (calls w))),
       emit (run_calls (trace_ids cl (calls w)) er mn mp tcs md cs rs)
         (ls @ ls' @ [(INFO, ''Evaluation trace created with ID: '' @ trace_ids cl (calls w))]) w) \<and>
    list_all is_case_score cs \<and> list_all is_ragas_score rs \<and>
    (ls = [] \<or> (\<exists>msg. ls = [(ERROR, ''Failed to push case scores: '' @ msg)])) \<and>
    (ls' = [] \<or> (\<exists>msg. ls' = [(ERROR, ''Failed to push RAGAS scores: '' @ msg)])) \<and>
    (list_all wf_result (detailed_results er) \<longrightarrow>
       cs = case_calls (trace_ids cl (calls w)) 0 (zip (detailed_results er) tcs) \<and> ls = []) \<and>
    (list_all float_ok (map snd (or_empty (ragas_scores er))) \<longrightarrow>
       rs = ragas_calls (trace_ids cl (calls w)) (or_empty (ragas_scores er)) \<and> ls' = [])"
proof -
  from assms obtain cl where cl: "client (self w) = Some cl" by (auto simp add: ready_def)
  from trace_evaluation_run_ready[OF assms cl, of er mn mp tcs md] cl show ?thesis
    by blast
qed


lemma case_error_not_ragas:
  "''Failed to push case scores: '' @ m \<noteq> ''Failed to push RAGAS scores: '' @ m'"
  by simp

text \<open>
  C4. On an enabled tracer whose backend raises nothing, a full run emits exactly one score
  named \<^verbatim>\<open>fraud_detection_overall_quality\<close>, and its value is the unweighted mean
  \<open>(accuracy + precision + recall + f1_score) / 4\<close>. Floats are reals here.
\<close>

theorem overall_quality_is_mean:
  assumes "ready w"
  shows "map snd (filter (\<lambda>(n, v). n = ''fraud_detection_overall_quality'')
           (scores_of (emitted w (snd (trace_evaluation_run er mn mp tcs md w)))))
         = [(accuracy er + precision er + recall er + f1_score er) / 4]"
proof -
  from run_emitted[OF assms, of er mn mp tcs md]
  obtain cl :: langfuse_client and cs rs ls ls' where run: "trace_evaluation_run er mn mp tcs md w =
      (Inr (Some (trace_ids cl (calls w))),
       emit (run_calls (trace_ids cl (calls w)) er mn mp tcs md cs rs)
         (ls @ ls' @ [(INFO, ''Evaluation trace created with ID: '' @ trace_ids cl (calls w))]) w)"
    and cs: "list_all is_case_score cs" and rs: "list_all is_ragas_score rs"
    by blast
  have 1: "filter (\<lambda>(n, v). n = ''fraud_detection_overall_quality'') (scores_of cs) = []"
    using cs by (rule filter_case_scores) auto
  have 2: "filter (\<lambda>(n, v). n = ''fraud_detection_overall_quality'') (scores_of rs) = []"
    using rs by (rule filter_ragas_scores) auto
  show ?thesis
    by (simp add: run scores_of_run_calls 1 2 scores_of_overall)
qed

theorem overall_quality_is_mean_witness:
  "ready enabled_world \<and>
   map snd (filter (\<lambda>(n, v). n = ''fraud_detection_overall_quality'')
     (scores_of (emitted enabled_world
        (snd (trace_evaluation_run sample_result ''gpt-4o'' ''openai'' sample_cases None enabled_world)))))
   = [0.8175]"
  using overall_quality_is_mean[OF ready_enabled_world, of sample_result "''gpt-4o''" "''openai''" sample_cases None]
  by (simp add: ready_enabled_world sample_result_def)



lemma float_ok_sample_result: "list_all float_ok (map snd (or_empty (ragas_scores sample_result)))"
  by (simp add: sample_result_def or_empty_def)




lemma accuracy_calls_case_calls:
  "filter is_case_accuracy_call (case_calls tid i zs) =
     map (\<lambda>k. CreateScore tid (''case_'' @ str_of_nat (i + k + 1) @ ''_accuracy'')
               (if truthy (dict_get (fst (zs ! k)) ''overall_correct'' (PBool False)) then 1 else 0)
               (''Case '' @ str_of_nat (i + k + 1) @ '': '' @ title (snd (zs ! k))))
       [0..<length zs]"
proof (induction zs arbitrary: i)
  case Nil
  then show ?case by simp
next
  case (Cons z zs)
  obtain r tc where z: "z = (r, tc)" by (cases z)
  have "[0..<length (z # zs)] = 0 # map Suc [0..<length zs]"
    by (simp add: upt_conv_Cons map_Suc_upt del: upt_Suc)
  then show ?case
    by (simp add: z Cons.IH comp_def del: upt_Suc)
qed

lemma accuracy_calls_ragas:
  "list_all is_ragas_score rs \<Longrightarrow> filter is_case_accuracy_call rs = []"
proof (induction rs)
  case Nil
  then show ?case by simp
next
  case (Cons c rs)
  then show ?case
    using not_case_ragas by (cases c) (auto simp add: is_case_accuracy_def)
qed

lemma accuracy_calls_run_calls:
  "list_all is_ragas_score rs \<Longrightarrow>
   filter is_case_accuracy_call (run_calls tid er mn mp tcs md cs rs) = filter is_case_accuracy_call cs"
  by (simp add: run_calls_def overall_calls_def accuracy_calls_ragas is_case_accuracy_def)

text \<open>
  C5. On an enabled tracer whose backend raises nothing, and for detailed results whose
  \<^verbatim>\<open>llm_judgment\<close> entries are mappings with a numeric \<^verbatim>\<open>overall_quality\<close> in the
  range of a double, a full run returns a trace identifier and its
  \<^verbatim>\<open>case_{i}_accuracy\<close> calls are exactly one for each of the first \<open>min m n\<close>
  positions, whatever the two lengths are: the call of position \<open>k\<close> has the value 1.0 or
  0.0 of \<^verbatim>\<open>detailed_results[k]\<close> and the title of \<^verbatim>\<open>test_cases[k]\<close>. No error is
  raised: \<^verbatim>\<open>_push_case_scores\<close> logs none, and the run logs none at all when no auxiliary
  score is an int beyond the range of a double.
\<close>

theorem case_scores_pair_up_to_shorter:
  assumes "ready w" and "list_all wf_result (detailed_results er)"
  shows "\<exists>trace_id.
           fst (trace_evaluation_run er mn mp tcs md w) = Inr (Some trace_id)
         \<and> filter is_case_accuracy_call (emitted w (snd (trace_evaluation_run er mn mp tcs md w)))
           = map (\<lambda>k. CreateScore trace_id (''case_'' @ str_of_nat (k + 1) @ ''_accuracy'')
                        (if truthy (dict_get (detailed_results er ! k) ''overall_correct'' (PBool False))
                         then 1 else 0)
                        (''Case '' @ str_of_nat (k + 1) @ '': '' @ title (tcs ! k)))
               [0..<min (length (detailed_results er)) (length tcs)]
         \<and> (\<forall>msg. (ERROR, ''Failed to push case scores: '' @ msg)
                    \<notin> set (logged w (snd (trace_evaluation_run er mn mp tcs md w))))
         \<and> (list_all float_ok (map snd (or_empty (ragas_scores er))) \<longrightarrow>
              filter (\<lambda>(level, msg). level = ERROR)
                (logged w (snd (trace_evaluation_run er mn mp tcs md w))) = [])"
proof -
  from run_emitted[OF assms(1), of er mn mp tcs md]
  obtain cl :: langfuse_client and cs rs ls ls' where
    run: "trace_evaluation_run er mn mp tcs md w =
      (Inr (Some (trace_ids cl (calls w))),
       emit (run_calls (trace_ids cl (calls w)) er mn mp tcs md cs rs)
         (ls @ ls' @ [(INFO, ''Evaluation trace created with ID: '' @ trace_ids cl (calls w))]) w)"
    and rs: "list_all is_ragas_score rs"
    and ls': "ls' = [] \<or> (\<exists>msg. ls' = [(ERROR, ''Failed to push RAGAS scores: '' @ msg)])"
    and cs: "list_all wf_result (detailed_results er) \<longrightarrow>
       cs = case_calls (trace_ids cl (calls w)) 0 (zip (detailed_results er) tcs) \<and> ls = []"
    and ok: "list_all float_ok (map snd (or_empty (ragas_scores er))) \<longrightarrow>
       rs = ragas_calls (trace_ids cl (calls w)) (or_empty (ragas_scores er)) \<and> ls' = []"
    by blast
  let ?tid = "trace_ids cl (calls w)"
  from cs assms(2) have cs': "cs = case_calls ?tid 0 (zip (detailed_results er) tcs)"
    and ls: "ls = []" by simp_all
  have 3: "map (\<lambda>k. CreateScore ?tid (''case_'' @ str_of_nat (0 + k + 1) @ ''_accuracy'')
               (if truthy (dict_get (fst (zip (detailed_results er) tcs ! k)) ''overall_correct'' (PBool False))
                then 1 else 0)
               (''Case '' @ str_of_nat (0 + k + 1) @ '': '' @ title (snd (zip (detailed_results er) tcs ! k))))
       [0..<length (zip (detailed_results er) tcs)]
     = map (\<lambda>k. CreateScore ?tid (''case_'' @ str_of_nat (k + 1) @ ''_accuracy'')
                        (if truthy (dict_get (detailed_results er ! k) ''overall_correct'' (PBool False))
                         then 1 else 0)
                        (''Case '' @ str_of_nat (k + 1) @ '': '' @ title (tcs ! k)))
             [0..<min (length (detailed_results er)) (length tcs)]"
    by (rule map_cong) simp_all
  have "filter is_case_accuracy_call (emitted w (snd (trace_evaluation_run er mn mp tcs md w)))
       = filter is_case_accuracy_call cs"
    by (simp add: run accuracy_calls_run_calls[OF rs])
  also have "\<dots> = map (\<lambda>k. CreateScore ?tid (''case_'' @ str_of_nat (k + 1) @ ''_accuracy'')
                        (if truthy (dict_get (detailed_results er ! k) ''overall_correct'' (PBool False))
                         then 1 else 0)
                        (''Case '' @ str_of_nat (k + 1) @ '': '' @ title (tcs ! k)))
             [0..<min (length (detailed_results er)) (length tcs)]"
    unfolding cs' accuracy_calls_case_calls by (rule 3)
  finally have a: "filter is_case_accuracy_call (emitted w (snd (trace_evaluation_run er mn mp tcs md w)))
       = map (\<lambda>k. CreateScore ?tid (''case_'' @ str_of_nat (k + 1) @ ''_accuracy'')
                        (if truthy (dict_get (detailed_results er ! k) ''overall_correct'' (PBool False))
                         then 1 else 0)
                        (''Case '' @ str_of_nat (k + 1) @ '': '' @ title (tcs ! k)))
             [0..<min (length (detailed_results er)) (length tcs)]" .
  have b: "\<forall>msg. (ERROR, ''Failed to push case scores: '' @ msg)
                    \<notin> set (logged w (snd (trace_evaluation_run er mn mp tcs md w)))"
    using ls' by (auto simp add: run ls)
  have c: "list_all float_ok (map snd (or_empty (ragas_scores er))) \<longrightarrow>
              filter (\<lambda>(level, msg). level = ERROR)
                (logged w (snd (trace_evaluation_run er mn mp tcs md w))) = []"
    using ok by (simp add: run ls)
  from a b c show ?thesis
    by (intro exI[of _ ?tid]) (simp add: run)
qed

theorem case_scores_pair_up_to_shorter_witness:
  "ready enabled_world \<and> list_all wf_result (detailed_results sample_result) \<and>
   length (detailed_results sample_result) = 3 \<and> length sample_cases = 5 \<and>
   fst (trace_evaluation_run sample_result ''gpt-4o'' ''openai'' sample_cases None enabled_world)
     = Inr (Some ''trace-1'') \<and>
   filter is_case_accuracy_call
     (emitted enabled_world
        (snd (trace_evaluation_run sample_result ''gpt-4o'' ''openai'' sample_cases None enabled_world)))
   = [CreateScore ''trace-1'' ''case_1_accuracy'' 1 ''Case 1: A'',
      CreateScore ''trace-1'' ''case_2_accuracy'' 0 ''Case 2: B'',
      CreateScore ''trace-1'' ''case_3_accuracy'' 1 ''Case 3: C''] \<and>
   list_all float_ok (map snd (or_empty (ragas_scores sample_result))) \<and>
   filter (\<lambda>(level, msg). level = ERROR)
     (logged enabled_world
        (snd (trace_evaluation_run sample_result ''gpt-4o'' ''openai'' sample_cases None enabled_world))) = []"
proof -
  have len: "length (detailed_results sample_result) = 3" "length sample_cases = 5"
    by (simp_all add: sample_result_def sample_cases_def)
  have vals: "map (\<lambda>k. CreateScore tid (''case_'' @ str_of_nat (k + 1) @ ''_accuracy'')
                     (if truthy (dict_get (detailed_results sample_result ! k) ''overall_correct'' (PBool False))
                      then 1 else 0)
                     (''Case '' @ str_of_nat (k + 1) @ '': '' @ title (sample_cases ! k)))
             [0..<min (length (detailed_results sample_result)) (length sample_cases)]
     = [CreateScore tid ''case_1_accuracy'' 1 ''Case 1: A'',
        CreateScore tid ''case_2_accuracy'' 0 ''Case 2: B'',
        CreateScore tid ''case_3_accuracy'' 1 ''Case 3: C'']" for tid
    by (simp add: sample_result_def sample_cases_def upt_rec[of 0] upt_rec[of 1] upt_rec[of 2]
        upt_rec[of 3] str_of_nat_digit digit_char_def dict_get_def)
  have tid: "fst (trace_evaluation_run sample_result ''gpt-4o'' ''openai'' sample_cases None enabled_world)
     = Inr (Some ''trace-1'')"
    using trace_evaluation_run_ready[OF ready_enabled_world, of reliable_client sample_result
        "''gpt-4o''" "''openai''" sample_cases None]
    by (auto simp add: enabled_world_def reliable_client_def)
  from case_scores_pair_up_to_shorter[OF ready_enabled_world wf_sample_result,
      of "''gpt-4o''" "''openai''" sample_cases None]
  show ?thesis
    unfolding vals using len ready_enabled_world wf_sample_result float_ok_sample_result tid by auto
qed




section \<open>The disabled tracer, the metadata and the single-case report\<close>

lemma map_of_fold_update:
  "map_of (fold (\<lambda>(k, v). AList.update k v) items acc) = map_of acc ++ map_of (rev items)"
proof (induction items arbitrary: acc)
  case Nil
  then show ?case by simp
next
  case (Cons p ps)
  obtain k v where p: "p = (k, v)" by (cases p)
  show ?case
    by (auto simp add: p Cons.IH update_conv' fun_eq_iff map_add_def split: option.splits)
qed

lemma distinct_map_of_rev: "distinct (map fst xs) \<Longrightarrow> map_of (rev xs) = map_of xs"
proof (induction xs)
  case Nil
  then show ?case by simp
next
  case (Cons p ps)
  then have "fst p \<notin> dom (map_of ps)" by (simp add: dom_map_of_conv_image_fst)
  with Cons show ?case
    by (cases p) (auto simp add: fun_eq_iff map_add_def split: option.splits)
qed

lemma map_of_dict_display_append:
  "distinct (map fst xs) \<Longrightarrow> distinct (map fst ys) \<Longrightarrow>
   map_of (dict_display (xs @ ys)) = map_of xs ++ map_of ys"
  by (simp add: dict_display_def map_of_fold_update distinct_map_of_rev)


text \<open>
  C2. On a tracer with \<open>enabled = False\<close>, \<^verbatim>\<open>trace_evaluation_run\<close> and
  \<^verbatim>\<open>trace_single_case_evaluation\<close> return \<^verbatim>\<open>None\<close>, \<^verbatim>\<open>close\<close> returns, and none
  of them changes the state: no call reaches the backend and nothing is logged.
\<close>

theorem disabled_is_noop:
  assumes "\<not> enabled (self w)"
  shows "trace_evaluation_run er mn mp tcs md w = (Inr None, w)
       \<and> trace_single_case_evaluation tc prediction mn md w = (Inr None, w)
       \<and> close w = (Inr (), w)"
  using assms by (simp add: trace_evaluation_run_def trace_single_case_evaluation_def close_def)

theorem disabled_is_noop_witness:
  "\<not> enabled (self disabled_world)
   \<and> trace_evaluation_run sample_result ''gpt-4o'' ''openai'' sample_cases None disabled_world
       = (Inr None, disabled_world)
   \<and> trace_single_case_evaluation \<lparr>title = ''A'', expected_fraud_flag = True\<rparr>
        [(''fraud_flag'', PBool True)] ''gpt-4o'' None disabled_world = (Inr None, disabled_world)
   \<and> close disabled_world = (Inr (), disabled_world)"
proof -
  have d: "\<not> enabled (self disabled_world)" by (simp add: disabled_world_def)
  from disabled_is_noop[OF d] d show ?thesis by simp
qed

text \<open>
  C3. The metadata of the trace of a full run is the five fixed keys merged with the
  caller's mapping: a key of the caller's mapping has the caller's value, also when it is
  one of the fixed keys, and every other key has its fixed value. On an enabled tracer
  whose backend raises nothing, this is the metadata that \<^verbatim>\<open>update_current_trace\<close>
  receives. The caller's mapping is a dictionary: its keys are distinct.
\<close>

theorem caller_metadata_overrides:
  assumes "distinct (map fst (or_empty md))"
  shows "map_of (trace_metadata er mn mp tcs md) k =
           (case map_of (or_empty md) k of
              Some v \<Rightarrow> Some v
            | None \<Rightarrow> map_of [(''model_name'', PStr mn), (''model_provider'', PStr mp),
                               (''evaluation_timestamp'', timestamp er),
                               (''test_cases_count'', PInt (int (length tcs))),
                               (''evaluation_type'', PStr ''fraud_detection'')] k)
       \<and> (ready w \<longrightarrow>
            take 3 (emitted w (snd (trace_evaluation_run er mn mp tcs md w))) =
              [CreateTraceId, StartAsCurrentSpan (''fraud_detection_evaluation_'' @ mn),
               UpdateCurrentTrace (''fraud_detection_evaluation_'' @ mn) (trace_metadata er mn mp tcs md)])"
proof -
  have "map_of (trace_metadata er mn mp tcs md) =
          map_of [(''model_name'', PStr mn), (''model_provider'', PStr mp),
                  (''evaluation_timestamp'', timestamp er),
                  (''test_cases_count'', PInt (int (length tcs))),
                  (''evaluation_type'', PStr ''fraud_detection'')] ++ map_of (or_empty md)"
    unfolding trace_metadata_def using assms by (intro map_of_dict_display_append) simp_all
  then have 1: "map_of (trace_metadata er mn mp tcs md) k =
           (case map_of (or_empty md) k of
              Some v \<Rightarrow> Some v
            | None \<Rightarrow> map_of [(''model_name'', PStr mn), (''model_provider'', PStr mp),
                               (''evaluation_timestamp'', timestamp er),
                               (''test_cases_count'', PInt (int (length tcs))),
                               (''evaluation_type'', PStr ''fraud_detection'')] k)"
    by (simp add: map_add_def split: option.splits)
  have 2: "take 3 (emitted w (snd (trace_evaluation_run er mn mp tcs md w))) =
              [CreateTraceId, StartAsCurrentSpan (''fraud_detection_evaluation_'' @ mn),
               UpdateCurrentTrace (''fraud_detection_evaluation_'' @ mn) (trace_metadata er mn mp tcs md)]"
    if "ready w"
  proof -
    from run_emitted[OF that, of er mn mp tcs md]
    obtain cl :: langfuse_client and cs rs ls ls' where
      run: "trace_evaluation_run er mn mp tcs md w =
        (Inr (Some (trace_ids cl (calls w))),
         emit (run_calls (trace_ids cl (calls w)) er mn mp tcs md cs rs)
           (ls @ ls' @ [(INFO, ''Evaluation trace created with ID: '' @ trace_ids cl (calls w))]) w)"
      by blast
    show ?thesis by (simp add: run run_calls_def)
  qed
  from 1 2 show ?thesis by blast
qed

theorem caller_metadata_overrides_witness:
  "distinct (map fst (or_empty (Some [(''model_name'', PStr ''override''), (''run'', PInt 7)])))
   \<and> map_of (trace_metadata sample_result ''gpt-4o'' ''openai'' sample_cases
        (Some [(''model_name'', PStr ''override''), (''run'', PInt 7)])) ''model_name'' = Some (PStr ''override'')
   \<and> map_of (trace_metadata sample_result ''gpt-4o'' ''openai'' sample_cases
        (Some [(''model_name'', PStr ''override''), (''run'', PInt 7)])) ''model_provider'' = Some (PStr ''openai'')
   \<and> ready enabled_world
   \<and> take 3 (emitted enabled_world (snd (trace_evaluation_run sample_result ''gpt-4o'' ''openai'' sample_cases
        (Some [(''model_name'', PStr ''override''), (''run'', PInt 7)]) enabled_world))) =
        [CreateTraceId, StartAsCurrentSpan ''fraud_detection_evaluation_gpt-4o'',
         UpdateCurrentTrace ''fraud_detection_evaluation_gpt-4o''
           [(''model_name'', PStr ''override''), (''model_provider'', PStr ''openai''),
            (''evaluation_timestamp'', PStr ''2024-01-01T00:00:00''), (''test_cases_count'', PInt 5),
            (''evaluation_type'', PStr ''fraud_detection''), (''run'', PInt 7)]]"
proof -
  let ?md = "Some [(''model_name'', PStr ''override''), (''run'', PInt 7)]"
  have d: "distinct (map fst (or_empty ?md))" by (simp add: or_empty_def)
  have m: "trace_metadata sample_result ''gpt-4o'' ''openai'' sample_cases ?md =
          [(''model_name'', PStr ''override''), (''model_provider'', PStr ''openai''),
            (''evaluation_timestamp'', PStr ''2024-01-01T00:00:00''), (''test_cases_count'', PInt 5),
            (''evaluation_type'', PStr ''fraud_detection''), (''run'', PInt 7)]"
    by (simp add: trace_metadata_def dict_display_def or_empty_def sample_result_def sample_cases_def)
  from caller_metadata_overrides[OF d, of sample_result "''gpt-4o''" "''openai''" sample_cases "''model_name''" enabled_world]
       caller_metadata_overrides[OF d, of sample_result "''gpt-4o''" "''openai''" sample_cases "''model_provider''" enabled_world]
  show ?thesis
    using d ready_enabled_world by (simp add: or_empty_def m)
qed

lemma trace_single_case_ready:
  assumes "ready w" "client (self w) = Some cl"
  shows "trace_single_case_evaluation tc prediction mn md w =
    (Inr (Some (trace_ids cl (calls w))),
     emit [CreateTraceId,
           StartAsCurrentSpan (''single_case_evaluation_'' @ mn),
           UpdateCurrentTrace (''single_case_evaluation_'' @ mn)
             (dict_display
                ([(''model_name'', PStr mn),
                  (''test_case_title'', PStr (title tc)),
                  (''expected_fraud'', PBool (expected_fraud_flag tc)),
                  (''predicted_fraud'', dict_get prediction ''fraud_flag'' (PBool False))]
                 @ or_empty md)),
           CreateScore (trace_ids cl (calls w)) ''case_accuracy''
             (if py_eq_bool (dict_get prediction ''fraud_flag'' (PBool False)) (expected_fraud_flag tc)
              then 1 else 0)
             (''Case accuracy: '' @ title tc),
           SpanUpdate
             [(''correct'', PBool (py_eq_bool (dict_get prediction ''fraud_flag'' (PBool False))
                                     (expected_fraud_flag tc))),
              (''expected'', PBool (expected_fraud_flag tc)),
              (''predicted'', dict_get prediction ''fraud_flag'' (PBool False))],
           SpanExit, Flush] [] w)"
proof -
  have en: "enabled (self w)" using assms by (simp add: ready_def)
  show ?thesis
    using assms en
    by (simp add: trace_single_case_evaluation_def trace_single_case_evaluation_try_def try_except_def andthen_def create_trace_id_ready
        with_span_def client_call_ready create_score_ready ret_def Let_def)
qed

text \<open>
  C7. On an enabled tracer whose backend raises nothing, a single-case report emits one
  score, \<^verbatim>\<open>case_accuracy\<close>, which is 1.0 when
  \<^verbatim>\<open>prediction.get('fraud_flag', False) == test_case.expected_fraud_flag\<close> and 0.0
  otherwise; for a prediction whose \<^verbatim>\<open>fraud_flag\<close> is a boolean, that is the equality of
  the two booleans.
\<close>

theorem single_case_score_is_flag_equality:
  assumes "ready w"
  shows "scores_of (emitted w (snd (trace_single_case_evaluation tc prediction mn md w)))
           = [(''case_accuracy'',
               if py_eq_bool (dict_get prediction ''fraud_flag'' (PBool False)) (expected_fraud_flag tc)
               then 1 else 0)]
       \<and> (\<forall>predicted. map_of prediction ''fraud_flag'' = Some (PBool predicted) \<longrightarrow>
             scores_of (emitted w (snd (trace_single_case_evaluation tc prediction mn md w)))
               = [(''case_accuracy'', if predicted = expected_fraud_flag tc then 1 else 0)])"
proof -
  from assms obtain cl where cl: "client (self w) = Some cl" by (auto simp add: ready_def)
  have 1: "scores_of (emitted w (snd (trace_single_case_evaluation tc prediction mn md w)))
           = [(''case_accuracy'',
               if py_eq_bool (dict_get prediction ''fraud_flag'' (PBool False)) (expected_fraud_flag tc)
               then 1 else 0)]"
    by (simp add: trace_single_case_ready[OF assms cl])
  have "dict_get prediction ''fraud_flag'' (PBool False) = PBool predicted"
    if "map_of prediction ''fraud_flag'' = Some (PBool predicted)" for predicted
    using that by (simp add: dict_get_def)
  with 1 show ?thesis by simp
qed

theorem single_case_score_is_flag_equality_witness:
  "ready enabled_world
   \<and> map_of [(''fraud_flag'', PBool True)] ''fraud_flag'' = Some (PBool True)
   \<and> scores_of (emitted enabled_world (snd (trace_single_case_evaluation
        \<lparr>title = ''A'', expected_fraud_flag = True\<rparr> [(''fraud_flag'', PBool True)] ''gpt-4o'' None enabled_world)))
      = [(''case_accuracy'', 1)]
   \<and> scores_of (emitted enabled_world (snd (trace_single_case_evaluation
        \<lparr>title = ''B'', expected_fraud_flag = False\<rparr> [(''fraud_flag'', PBool True)] ''gpt-4o'' None enabled_world)))
      = [(''case_accuracy'', 0)]"
proof -
  have p: "map_of [(''fraud_flag'', PBool True)] ''fraud_flag'' = Some (PBool True)" by simp
  from single_case_score_is_flag_equality[OF ready_enabled_world,
         of "\<lparr>title = ''A'', expected_fraud_flag = True\<rparr>" "[(''fraud_flag'', PBool True)]" "''gpt-4o''" None,
         THEN conjunct2, rule_format, OF p]
       single_case_score_is_flag_equality[OF ready_enabled_world,
         of "\<lparr>title = ''B'', expected_fraud_flag = False\<rparr>" "[(''fraud_flag'', PBool True)]" "''gpt-4o''" None,
         THEN conjunct2, rule_format, OF p]
  show ?thesis using ready_enabled_world by simp
qed

text \<open>
  C10. A prediction without the key \<^verbatim>\<open>fraud_flag\<close> is reported exactly as the same
  prediction with \<^verbatim>\<open>fraud_flag = False\<close>, in every state. On an enabled tracer whose
  backend raises nothing and for a test case that expects \<^verbatim>\<open>False\<close>, the report records
  \<^verbatim>\<open>predicted_fraud = False\<close> in the metadata it builds, emits the score 1.0 and records
  \<^verbatim>\<open>predicted = False\<close> in the output of the span.
\<close>

theorem missing_fraud_flag_is_false:
  assumes "map_of prediction ''fraud_flag'' = None"
  shows "trace_single_case_evaluation tc prediction mn md w
           = trace_single_case_evaluation tc ((''fraud_flag'', PBool False) # prediction) mn md w
       \<and> (ready w \<and> \<not> expected_fraud_flag tc \<longrightarrow>
            (\<exists>trace_id.
               emitted w (snd (trace_single_case_evaluation tc prediction mn md w)) =
                 [CreateTraceId,
                  StartAsCurrentSpan (''single_case_evaluation_'' @ mn),
                  UpdateCurrentTrace (''single_case_evaluation_'' @ mn)
                    (dict_display
                       ([(''model_name'', PStr mn),
                         (''test_case_title'', PStr (title tc)),
                         (''expected_fraud'', PBool False),
                         (''predicted_fraud'', PBool False)]
                        @ or_empty md)),
                  CreateScore trace_id ''case_accuracy'' 1 (''Case accuracy: '' @ title tc),
                  SpanUpdate [(''correct'', PBool True), (''expected'', PBool False),
                              (''predicted'', PBool False)],
                  SpanExit, Flush]))"
proof -
  from assms have g: "dict_get prediction ''fraud_flag'' (PBool False) = PBool False"
    "dict_get ((''fraud_flag'', PBool False) # prediction) ''fraud_flag'' (PBool False) = PBool False"
    by (simp_all add: dict_get_def)
  have 1: "trace_single_case_evaluation tc prediction mn md w
           = trace_single_case_evaluation tc ((''fraud_flag'', PBool False) # prediction) mn md w"
    unfolding trace_single_case_evaluation_def trace_single_case_evaluation_try_def g by (rule refl)
  have 2: "\<exists>trace_id.
               emitted w (snd (trace_single_case_evaluation tc prediction mn md w)) =
                 [CreateTraceId,
                  StartAsCurrentSpan (''single_case_evaluation_'' @ mn),
                  UpdateCurrentTrace (''single_case_evaluation_'' @ mn)
                    (dict_display
                       ([(''model_name'', PStr mn),
                         (''test_case_title'', PStr (title tc)),
                         (''expected_fraud'', PBool False),
                         (''predicted_fraud'', PBool False)]
                        @ or_empty md)),
                  CreateScore trace_id ''case_accuracy'' 1 (''Case accuracy: '' @ title tc),
                  SpanUpdate [(''correct'', PBool True), (''expected'', PBool False),
                              (''predicted'', PBool False)],
                  SpanExit, Flush]"
    if r: "ready w" and e: "\<not> expected_fraud_flag tc"
  proof -
    from r obtain cl where cl: "client (self w) = Some cl" by (auto simp add: ready_def)
    show ?thesis
      using e by (simp add: trace_single_case_ready[OF r cl] g)
  qed
  from 1 2 show ?thesis by blast
qed

theorem missing_fraud_flag_is_false_witness:
  "map_of [(''confidence'', PFloat 0.4)] ''fraud_flag'' = None
   \<and> ready enabled_world \<and> \<not> expected_fraud_flag \<lparr>title = ''B'', expected_fraud_flag = False\<rparr>
   \<and> scores_of (emitted enabled_world (snd (trace_single_case_evaluation
        \<lparr>title = ''B'', expected_fraud_flag = False\<rparr> [(''confidence'', PFloat 0.4)] ''gpt-4o'' None enabled_world)))
      = [(''case_accuracy'', 1)]"
proof -
  have p: "map_of [(''confidence'', PFloat 0.4)] ''fraud_flag'' = None" by simp
  from missing_fraud_flag_is_false[OF p, of "\<lparr>title = ''B'', expected_fraud_flag = False\<rparr>" "''gpt-4o''" None enabled_world]
  show ?thesis using ready_enabled_world by auto
qed

section \<open>Runs on any backend: what becomes of an exception\<close>

lemma failures_append: "failures cl h (xs @ ys) = failures cl h xs @ failures cl (h @ xs) ys"
  by (induction xs arbitrary: h) simp_all

lemma propagated_append:
  "propagated P cl h (xs @ ys) = propagated P cl h xs @ propagated P cl (h @ xs) ys"
  by (simp add: propagated_def failures_append)

lemma propagated_Nil [simp]: "propagated P cl h [] = []"
  by (simp add: propagated_def)

lemma failures_calls: "(c, e) \<in> set (failures cl h cs) \<Longrightarrow> c \<in> set cs"
  by (induction cs arbitrary: h) (auto split: option.splits)

lemma failures_single:
  "failures cl h [c] = (case raises cl h c of None \<Rightarrow> [] | Some e \<Rightarrow> [(c, e)])"
  by simp

subsection \<open>Blocks without a handler\<close>

lemma strictI:
  assumes "\<And>w. \<exists>cs r. m w = (r, emit cs [] w) \<and> list_all A cs
        \<and> (\<forall>cl. client (self w) = Some cl \<longrightarrow>
              (case r of
                 Inr x \<Rightarrow> failures cl (calls w) cs = []
               | Inl e \<Rightarrow> failures cl (calls w) cs = [] \<and> \<not> is_base e
                          \<or> (\<exists>c. failures cl (calls w) cs = [(c, e)])))"
  shows "strict A m"
  using assms by (simp add: strict_def)

lemma strictE:
  assumes "strict A m"
  obtains cs r where "m w = (r, emit cs [] w)" "list_all A cs"
    "\<And>cl x. client (self w) = Some cl \<Longrightarrow> r = Inr x \<Longrightarrow> failures cl (calls w) cs = []"
    "\<And>cl e. client (self w) = Some cl \<Longrightarrow> r = Inl e \<Longrightarrow>
        failures cl (calls w) cs = [] \<and> \<not> is_base e \<or> (\<exists>c. failures cl (calls w) cs = [(c, e)])"
proof -
  from assms obtain cs r where 1: "m w = (r, emit cs [] w)" "list_all A cs"
    and 2: "\<forall>cl. client (self w) = Some cl \<longrightarrow>
              (case r of
                 Inr x \<Rightarrow> failures cl (calls w) cs = []
               | Inl e \<Rightarrow> failures cl (calls w) cs = [] \<and> \<not> is_base e
                          \<or> (\<exists>c. failures cl (calls w) cs = [(c, e)]))"
    unfolding strict_def by blast
  show thesis
  proof (rule that[OF 1])
    fix cl :: langfuse_client and x
    assume "client (self w) = Some cl" "r = Inr x"
    with 2 show "failures cl (calls w) cs = []" by simp
  next
    fix cl :: langfuse_client and e
    assume "client (self w) = Some cl" "r = Inl e"
    with 2 show "failures cl (calls w) cs = [] \<and> \<not> is_base e \<or> (\<exists>c. failures cl (calls w) cs = [(c, e)])"
      by simp
  qed
qed

lemma strict_ret: "strict A (ret x)"
  by (rule strictI, rule exI[of _ "[]"]) (simp add: ret_def)

lemma strict_raise: "\<not> is_base e \<Longrightarrow> strict A (raise e)"
  by (rule strictI, rule exI[of _ "[]"]) (simp add: raise_def)

lemma strict_create_score:
  assumes "A (CreateScore t n v c)"
  shows "strict A (create_score t n v c)"
proof (rule strictI)
  fix w
  let ?c = "CreateScore t n v c"
  show "\<exists>cs r. create_score t n v c w = (r, emit cs [] w) \<and> list_all A cs
        \<and> (\<forall>cl. client (self w) = Some cl \<longrightarrow>
              (case r of
                 Inr x \<Rightarrow> failures cl (calls w) cs = []
               | Inl e \<Rightarrow> failures cl (calls w) cs = [] \<and> \<not> is_base e
                          \<or> (\<exists>c. failures cl (calls w) cs = [(c, e)])))"
  proof (cases "client (self w)")
    case None
    then show ?thesis
      by (intro exI[of _ "[]"]) (simp add: create_score_def client_call_def)
  next
    case (Some cl)
    show ?thesis
    proof (cases "raises cl (calls w) ?c")
      case None
      with Some assms show ?thesis
        by (intro exI[of _ "[?c]"] exI[of _ "Inr ()"])
           (simp add: create_score_def client_call_def emit_def)
    next
      case e: (Some e)
      with Some assms show ?thesis
        by (intro exI[of _ "[?c]"] exI[of _ "Inl e"])
           (simp add: create_score_def client_call_def emit_def)
    qed
  qed
qed

lemma strict_andthen:
  assumes "strict A m" "\<And>x. strict A (f x)"
  shows "strict A (andthen m f)"
proof (rule strictI)
  fix w
  from assms(1) obtain cs r where m: "m w = (r, emit cs [] w)" "list_all A cs"
    "\<And>cl x. client (self w) = Some cl \<Longrightarrow> r = Inr x \<Longrightarrow> failures cl (calls w) cs = []"
    "\<And>cl e. client (self w) = Some cl \<Longrightarrow> r = Inl e \<Longrightarrow>
        failures cl (calls w) cs = [] \<and> \<not> is_base e \<or> (\<exists>c. failures cl (calls w) cs = [(c, e)])"
    by (rule strictE[where w = w]) blast
  show "\<exists>cs r. andthen m f w = (r, emit cs [] w) \<and> list_all A cs
        \<and> (\<forall>cl. client (self w) = Some cl \<longrightarrow>
              (case r of
                 Inr x \<Rightarrow> failures cl (calls w) cs = []
               | Inl e \<Rightarrow> failures cl (calls w) cs = [] \<and> \<not> is_base e
                          \<or> (\<exists>c. failures cl (calls w) cs = [(c, e)])))"
  proof (cases r)
    case (Inl e)
    with m show ?thesis
      by (intro exI[of _ cs] exI[of _ "Inl e"]) (simp add: andthen_def)
  next
    case (Inr x)
    from assms(2)[of x] obtain cs' r' where f: "f x (emit cs [] w) = (r', emit cs' [] (emit cs [] w))"
      "list_all A cs'"
      "\<And>cl y. client (self (emit cs [] w)) = Some cl \<Longrightarrow> r' = Inr y \<Longrightarrow>
          failures cl (calls (emit cs [] w)) cs' = []"
      "\<And>cl e. client (self (emit cs [] w)) = Some cl \<Longrightarrow> r' = Inl e \<Longrightarrow>
          failures cl (calls (emit cs [] w)) cs' = [] \<and> \<not> is_base e
          \<or> (\<exists>c. failures cl (calls (emit cs [] w)) cs' = [(c, e)])"
      by (rule strictE[where w = "emit cs [] w"]) blast
    have 1: "andthen m f w = (r', emit (cs @ cs') [] w)"
      using m(1) f(1) Inr by (simp add: andthen_def)
    have 2: "list_all A (cs @ cs')" using m(2) f(2) by simp
    have 3: "case r' of
                 Inr x \<Rightarrow> failures cl (calls w) (cs @ cs') = []
               | Inl e \<Rightarrow> failures cl (calls w) (cs @ cs') = [] \<and> \<not> is_base e
                          \<or> (\<exists>c. failures cl (calls w) (cs @ cs') = [(c, e)])"
      if cl: "client (self w) = Some cl" for cl
    proof -
      have a: "failures cl (calls w) (cs @ cs') = failures cl (calls w @ cs) cs'"
        using m(3)[OF cl Inr] by (simp add: failures_append)
      show ?thesis
      proof (cases r')
        case (Inr y)
        with f(3)[of cl y] cl a show ?thesis by simp
      next
        case (Inl e)
        with f(4)[of cl e] cl a show ?thesis by simp
      qed
    qed
    from 1 2 3 show ?thesis
      by (intro exI[of _ "cs @ cs'"] exI[of _ r']) simp
  qed
qed


subsection \<open>Blocks whose helpers catch what their scores raise\<close>

lemma flowI:
  assumes "\<And>w. \<exists>cs ls r. m w = (r, emit cs ls w) \<and> (\<forall>x. r = Inr x \<longrightarrow> Q x)
        \<and> (\<forall>cl. client (self w) = Some cl \<longrightarrow>
              (case r of
                 Inr x \<Rightarrow> propagated P cl (calls w) cs = []
               | Inl e \<Rightarrow> propagated P cl (calls w) cs \<noteq> []
                          \<and> snd (last (propagated P cl (calls w) cs)) = e)
              \<and> (\<forall>c msg. (c, Exception msg) \<in> set (failures cl (calls w) cs) \<and> \<not> P c
                    \<longrightarrow> (ERROR, handler_prefix c @ msg) \<in> set ls))"
  shows "flow P Q m"
  using assms by (simp add: flow_def)

lemma flowE:
  assumes "flow P Q m"
  obtains cs ls r where "m w = (r, emit cs ls w)" "\<And>x. r = Inr x \<Longrightarrow> Q x"
    "\<And>cl x. client (self w) = Some cl \<Longrightarrow> r = Inr x \<Longrightarrow> propagated P cl (calls w) cs = []"
    "\<And>cl e. client (self w) = Some cl \<Longrightarrow> r = Inl e \<Longrightarrow>
        propagated P cl (calls w) cs \<noteq> [] \<and> snd (last (propagated P cl (calls w) cs)) = e"
    "\<And>cl c msg. client (self w) = Some cl \<Longrightarrow> (c, Exception msg) \<in> set (failures cl (calls w) cs)
        \<Longrightarrow> \<not> P c \<Longrightarrow> (ERROR, handler_prefix c @ msg) \<in> set ls"
proof -
  from assms obtain cs ls r where 1: "m w = (r, emit cs ls w)" "\<And>x. r = Inr x \<Longrightarrow> Q x"
    and 2: "\<forall>cl. client (self w) = Some cl \<longrightarrow>
              (case r of
                 Inr x \<Rightarrow> propagated P cl (calls w) cs = []
               | Inl e \<Rightarrow> propagated P cl (calls w) cs \<noteq> []
                          \<and> snd (last (propagated P cl (calls w) cs)) = e)
              \<and> (\<forall>c msg. (c, Exception msg) \<in> set (failures cl (calls w) cs) \<and> \<not> P c
                    \<longrightarrow> (ERROR, handler_prefix c @ msg) \<in> set ls)"
    unfolding flow_def by blast
  show thesis
  proof (rule that[OF 1])
    fix cl :: langfuse_client and x
    assume "client (self w) = Some cl" "r = Inr x"
    with 2 show "propagated P cl (calls w) cs = []" by simp
  next
    fix cl :: langfuse_client and e
    assume "client (self w) = Some cl" "r = Inl e"
    with 2 show "propagated P cl (calls w) cs \<noteq> [] \<and> snd (last (propagated P cl (calls w) cs)) = e"
      by simp
  next
    fix cl :: langfuse_client and c msg
    assume "client (self w) = Some cl" "(c, Exception msg) \<in> set (failures cl (calls w) cs)" "\<not> P c"
    with 2 show "(ERROR, handler_prefix c @ msg) \<in> set ls" by blast
  qed
qed

lemma flow_ret: "Q x \<Longrightarrow> flow P Q (ret x)"
  by (rule flowI, rule exI[of _ "[]"], rule exI[of _ "[]"]) (simp add: ret_def)

lemma flow_logger_info: "flow P (\<lambda>_. True) (logger_info msg)"
  by (rule flowI, rule exI[of _ "[]"], rule exI[of _ "[(INFO, msg)]"]) (simp add: logger_info_emit)

lemma flow_client_call:
  assumes "P c"
  shows "flow P (\<lambda>_. True) (client_call c)"
proof (rule flowI)
  fix w
  show "\<exists>cs ls r. client_call c w = (r, emit cs ls w) \<and> (\<forall>x. r = Inr x \<longrightarrow> (\<lambda>_. True) x)
        \<and> (\<forall>cl. client (self w) = Some cl \<longrightarrow>
              (case r of
                 Inr x \<Rightarrow> propagated P cl (calls w) cs = []
               | Inl e \<Rightarrow> propagated P cl (calls w) cs \<noteq> []
                          \<and> snd (last (propagated P cl (calls w) cs)) = e)
              \<and> (\<forall>c msg. (c, Exception msg) \<in> set (failures cl (calls w) cs) \<and> \<not> P c
                    \<longrightarrow> (ERROR, handler_prefix c @ msg) \<in> set ls))"
  proof (cases "client (self w)")
    case None
    then show ?thesis
      by (intro exI[of _ "[]"]) (simp add: client_call_def)
  next
    case (Some cl)
    show ?thesis
    proof (cases "raises cl (calls w) c")
      case None
      with Some show ?thesis
        by (intro exI[of _ "[c]"] exI[of _ "[]"] exI[of _ "Inr ()"])
           (simp add: client_call_def emit_def propagated_def)
    next
      case e: (Some e)
      with Some assms show ?thesis
        by (intro exI[of _ "[c]"] exI[of _ "[]"] exI[of _ "Inl e"])
           (simp add: client_call_def emit_def propagated_def)
    qed
  qed
qed

lemma flow_andthen:
  assumes "flow P Q' m" "\<And>x. flow P Q (f x)"
  shows "flow P Q (andthen m f)"
proof (rule flowI)
  fix w
  from assms(1) obtain cs ls r where m: "m w = (r, emit cs ls w)"
    "\<And>cl x. client (self w) = Some cl \<Longrightarrow> r = Inr x \<Longrightarrow> propagated P cl (calls w) cs = []"
    "\<And>cl e. client (self w) = Some cl \<Longrightarrow> r = Inl e \<Longrightarrow>
        propagated P cl (calls w) cs \<noteq> [] \<and> snd (last (propagated P cl (calls w) cs)) = e"
    "\<And>cl c msg. client (self w) = Some cl \<Longrightarrow> (c, Exception msg) \<in> set (failures cl (calls w) cs)
        \<Longrightarrow> \<not> P c \<Longrightarrow> (ERROR, handler_prefix c @ msg) \<in> set ls"
    by (rule flowE[where w = w]) blast
  show "\<exists>cs ls r. andthen m f w = (r, emit cs ls w) \<and> (\<forall>x. r = Inr x \<longrightarrow> Q x)
        \<and> (\<forall>cl. client (self w) = Some cl \<longrightarrow>
              (case r of
                 Inr x \<Rightarrow> propagated P cl (calls w) cs = []
               | Inl e \<Rightarrow> propagated P cl (calls w) cs \<noteq> []
                          \<and> snd (last (propagated P cl (calls w) cs)) = e)
              \<and> (\<forall>c msg. (c, Exception msg) \<in> set (failures cl (calls w) cs) \<and> \<not> P c
                    \<longrightarrow> (ERROR, handler_prefix c @ msg) \<in> set ls))"
  proof (cases r)
    case (Inl e)
    have "case r of
                 Inr x \<Rightarrow> propagated P cl (calls w) cs = []
               | Inl e \<Rightarrow> propagated P cl (calls w) cs \<noteq> []
                          \<and> snd (last (propagated P cl (calls w) cs)) = e"
      if "client (self w) = Some cl" for cl
      using m(3)[OF that Inl] Inl by simp
    with Inl m(1,4) show ?thesis
      by (intro exI[of _ cs] exI[of _ ls] exI[of _ r]) (simp add: andthen_def)
  next
    case (Inr x)
    let ?w = "emit cs ls w"
    from assms(2)[of x] obtain cs' ls' r' where f: "f x ?w = (r', emit cs' ls' ?w)"
      "\<And>y. r' = Inr y \<Longrightarrow> Q y"
      "\<And>cl y. client (self ?w) = Some cl \<Longrightarrow> r' = Inr y \<Longrightarrow> propagated P cl (calls ?w) cs' = []"
      "\<And>cl e. client (self ?w) = Some cl \<Longrightarrow> r' = Inl e \<Longrightarrow>
        propagated P cl (calls ?w) cs' \<noteq> [] \<and> snd (last (propagated P cl (calls ?w) cs')) = e"
      "\<And>cl c msg. client (self ?w) = Some cl \<Longrightarrow> (c, Exception msg) \<in> set (failures cl (calls ?w) cs')
        \<Longrightarrow> \<not> P c \<Longrightarrow> (ERROR, handler_prefix c @ msg) \<in> set ls'"
      by (rule flowE[where w = ?w]) blast
    have 1: "andthen m f w = (r', emit (cs @ cs') (ls @ ls') w)"
      using m(1) f(1) Inr by (simp add: andthen_def)
    have 2: "(case r' of
                 Inr x \<Rightarrow> propagated P cl (calls w) (cs @ cs') = []
               | Inl e \<Rightarrow> propagated P cl (calls w) (cs @ cs') \<noteq> []
                          \<and> snd (last (propagated P cl (calls w) (cs @ cs'))) = e)
              \<and> (\<forall>c msg. (c, Exception msg) \<in> set (failures cl (calls w) (cs @ cs')) \<and> \<not> P c
                    \<longrightarrow> (ERROR, handler_prefix c @ msg) \<in> set (ls @ ls'))"
      if cl: "client (self w) = Some cl" for cl
    proof -
      have a: "propagated P cl (calls w) (cs @ cs') = propagated P cl (calls w @ cs) cs'"
        using m(2)[OF cl Inr] by (simp add: propagated_append)
      have b: "case r' of
                 Inr x \<Rightarrow> propagated P cl (calls w) (cs @ cs') = []
               | Inl e \<Rightarrow> propagated P cl (calls w) (cs @ cs') \<noteq> []
                          \<and> snd (last (propagated P cl (calls w) (cs @ cs'))) = e"
      proof (cases r')
        case (Inr y)
        with f(3)[of cl y] cl a show ?thesis by simp
      next
        case (Inl e)
        with f(4)[of cl e] cl a show ?thesis by simp
      qed
      have c: "(ERROR, handler_prefix c @ msg) \<in> set (ls @ ls')"
        if "(c, Exception msg) \<in> set (failures cl (calls w) (cs @ cs'))" "\<not> P c" for c msg
        using that m(4)[OF cl, of c msg] f(5)[of cl c msg] cl by (auto simp add: failures_append)
      from b c show ?thesis by blast
    qed
    from 1 2 f(2) show ?thesis
      by (intro exI[of _ "cs @ cs'"] exI[of _ "ls @ ls'"] exI[of _ r']) simp
  qed
qed


lemma flow_with_span:
  assumes "flow P Q body" "P (StartAsCurrentSpan name)" "P SpanExit"
  shows "flow P Q (with_span name body)"
proof -
  let ?leave = "\<lambda>w1. case body w1 of (r, w2) \<Rightarrow> andthen (client_call SpanExit) (\<lambda>_ w3. (r, w3)) w2"
  have eq: "with_span name body = andthen (client_call (StartAsCurrentSpan name)) (\<lambda>_. ?leave)"
    by (auto simp add: with_span_def andthen_def fun_eq_iff split: prod.splits sum.splits)
  have inner: "flow P Q ?leave"
  proof (rule flowI)
    fix w
    from assms(1) obtain cs ls r where b: "body w = (r, emit cs ls w)" "\<And>x. r = Inr x \<Longrightarrow> Q x"
      "\<And>cl x. client (self w) = Some cl \<Longrightarrow> r = Inr x \<Longrightarrow> propagated P cl (calls w) cs = []"
      "\<And>cl e. client (self w) = Some cl \<Longrightarrow> r = Inl e \<Longrightarrow>
          propagated P cl (calls w) cs \<noteq> [] \<and> snd (last (propagated P cl (calls w) cs)) = e"
      "\<And>cl c msg. client (self w) = Some cl \<Longrightarrow> (c, Exception msg) \<in> set (failures cl (calls w) cs)
          \<Longrightarrow> \<not> P c \<Longrightarrow> (ERROR, handler_prefix c @ msg) \<in> set ls"
      by (rule flowE[where w = w]) blast
    let ?w = "emit cs ls w"
    from flow_client_call[of P SpanExit, OF assms(3)]
    obtain cs' ls' r' where x: "client_call SpanExit ?w = (r', emit cs' ls' ?w)"
      "\<And>cl y. client (self ?w) = Some cl \<Longrightarrow> r' = Inr y \<Longrightarrow> propagated P cl (calls ?w) cs' = []"
      "\<And>cl e. client (self ?w) = Some cl \<Longrightarrow> r' = Inl e \<Longrightarrow>
          propagated P cl (calls ?w) cs' \<noteq> [] \<and> snd (last (propagated P cl (calls ?w) cs')) = e"
      "\<And>cl c msg. client (self ?w) = Some cl \<Longrightarrow> (c, Exception msg) \<in> set (failures cl (calls ?w) cs')
          \<Longrightarrow> \<not> P c \<Longrightarrow> (ERROR, handler_prefix c @ msg) \<in> set ls'"
      by (rule flowE[where w = ?w]) blast
    have logs: "(ERROR, handler_prefix c @ msg) \<in> set (ls @ ls')"
      if "client (self w) = Some cl" "(c, Exception msg) \<in> set (failures cl (calls w) (cs @ cs'))" "\<not> P c"
      for cl c msg
      using that b(5)[of cl c msg] x(4)[of cl c msg] by (auto simp add: failures_append)
    show "\<exists>cs ls r. ?leave w = (r, emit cs ls w) \<and> (\<forall>x. r = Inr x \<longrightarrow> Q x)
        \<and> (\<forall>cl. client (self w) = Some cl \<longrightarrow>
              (case r of
                 Inr x \<Rightarrow> propagated P cl (calls w) cs = []
               | Inl e \<Rightarrow> propagated P cl (calls w) cs \<noteq> []
                          \<and> snd (last (propagated P cl (calls w) cs)) = e)
              \<and> (\<forall>c msg. (c, Exception msg) \<in> set (failures cl (calls w) cs) \<and> \<not> P c
                    \<longrightarrow> (ERROR, handler_prefix c @ msg) \<in> set ls))"
    proof (cases r')
      case (Inl e)
      have 1: "?leave w = (Inl e, emit (cs @ cs') (ls @ ls') w)"
        using b(1) x(1) Inl by (simp add: andthen_def)
      have 2: "propagated P cl (calls w) (cs @ cs') \<noteq> []
               \<and> snd (last (propagated P cl (calls w) (cs @ cs'))) = e"
        if cl: "client (self w) = Some cl" for cl
        using x(3)[of cl e] cl Inl by (simp add: propagated_append)
      from 1 2 logs show ?thesis
        by (intro exI[of _ "cs @ cs'"] exI[of _ "ls @ ls'"] exI[of _ "Inl e"]) simp
    next
      case (Inr u)
      have 1: "?leave w = (r, emit (cs @ cs') (ls @ ls') w)"
        using b(1) x(1) Inr by (simp add: andthen_def)
      have 2: "case r of
                 Inr x \<Rightarrow> propagated P cl (calls w) (cs @ cs') = []
               | Inl e \<Rightarrow> propagated P cl (calls w) (cs @ cs') \<noteq> []
                          \<and> snd (last (propagated P cl (calls w) (cs @ cs'))) = e"
        if cl: "client (self w) = Some cl" for cl
      proof -
        have a: "propagated P cl (calls w) (cs @ cs') = propagated P cl (calls w) cs"
          using x(2)[of cl u] cl Inr by (simp add: propagated_append)
        show ?thesis
        proof (cases r)
          case r: (Inr y)
          with b(3)[OF cl r] a show ?thesis by simp
        next
          case r: (Inl e)
          with b(4)[OF cl r] a show ?thesis by simp
        qed
      qed
      from 1 2 logs b(2) show ?thesis
        by (intro exI[of _ "cs @ cs'"] exI[of _ "ls @ ls'"] exI[of _ r]) simp
    qed
  qed
  show ?thesis
    unfolding eq
    by (rule flow_andthen[OF flow_client_call[of P "StartAsCurrentSpan name", OF assms(2)]]) (rule inner)
qed

lemma flow_create_trace_id:
  assumes "P CreateTraceId"
  shows "flow P (\<lambda>_. True) create_trace_id"
proof -
  have eq: "create_trace_id =
      (\<lambda>w. andthen (client_call CreateTraceId)
         (\<lambda>_. ret (case client (self w) of None \<Rightarrow> [] | Some cl \<Rightarrow> trace_ids cl (calls w))) w)"
    by (auto simp add: create_trace_id_def andthen_def ret_def fun_eq_iff split: prod.splits sum.splits)
  have t: "flow P (\<lambda>_. True) (andthen (client_call CreateTraceId) (\<lambda>_. ret (x :: string)))" for x
    by (rule flow_andthen[OF flow_client_call[of P CreateTraceId, OF assms]]) (rule flow_ret, simp)
  show ?thesis
    unfolding eq using t by (simp add: flow_def)
qed

text \<open>
  A helper: its block makes calls of \<open>A\<close> only, which are not in \<open>P\<close>, and its handler logs
  with the prefix of these calls.
\<close>

lemma flow_helper:
  assumes "strict A inner" "\<And>c. A c \<Longrightarrow> \<not> P c \<and> handler_prefix c = prefix"
  shows "flow P (\<lambda>_. True)
           (\<lambda>w. if \<not> enabled (self w) then (Inr (), w)
                else try_except inner (\<lambda>e. logger_error (prefix @ e)) w)"
proof (rule flowI)
  fix w
  let ?h = "\<lambda>w. if \<not> enabled (self w) then (Inr (), w)
                else try_except inner (\<lambda>e. logger_error (prefix @ e)) w"
  from assms(1) obtain cs r where m: "inner w = (r, emit cs [] w)" "list_all A cs"
    "\<And>cl x. client (self w) = Some cl \<Longrightarrow> r = Inr x \<Longrightarrow> failures cl (calls w) cs = []"
    "\<And>cl e. client (self w) = Some cl \<Longrightarrow> r = Inl e \<Longrightarrow>
        failures cl (calls w) cs = [] \<and> \<not> is_base e \<or> (\<exists>c. failures cl (calls w) cs = [(c, e)])"
    by (rule strictE[where w = w]) blast
  have A: "A c" if "(c, e) \<in> set (failures cl (calls w) cs)" for c e cl
    using failures_calls[OF that] m(2) by (simp add: list_all_iff)
  show "\<exists>cs ls r. ?h w = (r, emit cs ls w) \<and> (\<forall>x. r = Inr x \<longrightarrow> (\<lambda>_. True) x)
        \<and> (\<forall>cl. client (self w) = Some cl \<longrightarrow>
              (case r of
                 Inr x \<Rightarrow> propagated P cl (calls w) cs = []
               | Inl e \<Rightarrow> propagated P cl (calls w) cs \<noteq> []
                          \<and> snd (last (propagated P cl (calls w) cs)) = e)
              \<and> (\<forall>c msg. (c, Exception msg) \<in> set (failures cl (calls w) cs) \<and> \<not> P c
                    \<longrightarrow> (ERROR, handler_prefix c @ msg) \<in> set ls))"
  proof (cases "enabled (self w)")
    case False
    then show ?thesis
      by (intro exI[of _ "[]"] exI[of _ "[]"] exI[of _ "Inr ()"]) simp
  next
    case True
    show ?thesis
    proof (cases r)
      case (Inr x)
      with m(1,3) True show ?thesis
        by (intro exI[of _ cs] exI[of _ "[]"] exI[of _ "Inr x"])
           (simp add: try_except_def propagated_def)
    next
      case (Inl e)
      show ?thesis
      proof (cases e)
        case (Exception msg)
        have 1: "?h w = (Inr (), emit cs [(ERROR, prefix @ msg)] w)"
          using True m(1) Inl Exception by (simp add: try_except_def logger_error_emit)
        have 2: "propagated P cl (calls w) cs = []
                 \<and> (\<forall>c msg'. (c, Exception msg') \<in> set (failures cl (calls w) cs) \<and> \<not> P c
                       \<longrightarrow> (ERROR, handler_prefix c @ msg') \<in> set [(ERROR, prefix @ msg)])"
          if cl: "client (self w) = Some cl" for cl
        proof -
          from m(4)[OF cl Inl] Exception
          consider "failures cl (calls w) cs = []" | c where "failures cl (calls w) cs = [(c, Exception msg)]"
            by auto
          then show ?thesis
          proof cases
            case 1
            then show ?thesis by (simp add: propagated_def)
          next
            case (2 c)
            then have "A c" using A[of c "Exception msg" cl] by simp
            with assms(2)[of c] 2 show ?thesis by (simp add: propagated_def)
          qed
        qed
        from 1 2 show ?thesis
          by (intro exI[of _ cs] exI[of _ "[(ERROR, prefix @ msg)]"] exI[of _ "Inr ()"]) simp
      next
        case (BaseException msg)
        have 1: "?h w = (Inl e, emit cs [] w)"
          using True m(1) Inl BaseException by (simp add: try_except_def)
        have 2: "propagated P cl (calls w) cs \<noteq> [] \<and> snd (last (propagated P cl (calls w) cs)) = e
                 \<and> (\<forall>c msg'. (c, Exception msg') \<in> set (failures cl (calls w) cs) \<and> \<not> P c
                       \<longrightarrow> (ERROR, handler_prefix c @ msg') \<in> set [])"
          if cl: "client (self w) = Some cl" for cl
          using m(4)[OF cl Inl] BaseException by (auto simp add: propagated_def)
        from 1 2 show ?thesis
          by (intro exI[of _ cs] exI[of _ "[]"] exI[of _ "Inl e"]) simp
      qed
    qed
  qed
qed

lemma flow_frame:
  assumes "flow P Q m"
  shows "\<exists>cs ls. snd (m w) = emit cs ls w"
proof -
  from assms obtain cs ls r where "m w = (r, emit cs ls w)"
    by (rule flowE[where w = w])
  then show ?thesis by (intro exI[of _ cs] exI[of _ ls]) simp
qed

subsection \<open>The three helpers\<close>

lemma judgment_get_Exception: "judgment_get v = Inl e \<Longrightarrow> \<not> is_base e"
  by (cases v) (auto simp add: judgment_get_def)

lemma to_float_Exception: "to_float v = Some (Inl e) \<Longrightarrow> \<not> is_base e"
  by (cases v) (auto split: if_splits)

lemma div_10_Exception: "div_10 v = Inl e \<Longrightarrow> \<not> is_base e"
  by (auto simp add: div_10_def to_float_Exception split: option.splits sum.splits)

lemma strict_push_overall_scores_try:
  "strict (\<lambda>c. is_score_call c \<and> handler_prefix c = ''Failed to push overall scores: '')
     (push_overall_scores_try tid er mn)"
  unfolding push_overall_scores_try_def Let_def
  by (intro strict_andthen strict_create_score) simp_all

lemma strict_push_case:
  "strict (\<lambda>c. is_score_call c \<and> handler_prefix c = ''Failed to push case scores: '')
     (push_case tid i result tc)"
proof -
  let ?A = "\<lambda>c. is_score_call c \<and> handler_prefix c = ''Failed to push case scores: ''"
  have judge: "strict ?A
     (case judgment_get j of
           Inl e \<Rightarrow> raise e
         | Inr q \<Rightarrow>
             (case div_10 q of
                Inl e \<Rightarrow> raise e
              | Inr v \<Rightarrow>
                  create_score tid (''case_'' @ str_of_nat (i + 1) @ ''_llm_judge_quality'') v
                    (''LLM judge quality for case '' @ str_of_nat (i + 1) @ '': '' @ title tc)))" for j
  proof (cases "judgment_get j")
    case (Inl e)
    then show ?thesis by (simp add: strict_raise judgment_get_Exception)
  next
    case (Inr q)
    show ?thesis
    proof (cases "div_10 q")
      case (Inl e)
      with Inr show ?thesis by (simp add: strict_raise div_10_Exception)
    next
      case v: (Inr v)
      with Inr show ?thesis by (simp add: strict_create_score)
    qed
  qed
  show ?thesis
    unfolding push_case_def Let_def
    by (rule strict_andthen, rule strict_create_score, simp)
       (simp add: judge strict_ret)
qed

lemma strict_case_loop:
  "strict (\<lambda>c. is_score_call c \<and> handler_prefix c = ''Failed to push case scores: '')
     (case_loop tid i zs)"
proof (induction zs arbitrary: i)
  case Nil
  show ?case by (simp add: strict_ret)
next
  case (Cons z zs)
  obtain result tc where z: "z = (result, tc)" by (cases z)
  show ?case
    unfolding z case_loop.simps
    by (rule strict_andthen, rule strict_push_case, rule Cons.IH)
qed

lemma strict_ragas_step:
  "strict (\<lambda>c. is_score_call c \<and> handler_prefix c = ''Failed to push RAGAS scores: '')
     (if isinstance_int_float v
              then (case to_float v of
                      Some (Inr x) \<Rightarrow>
                        create_score tid (''ragas_'' @ k) x (''RAGAS '' @ k @ '' score'')
                    | Some (Inl e) \<Rightarrow> raise e
                    | None \<Rightarrow> ret ())
              else ret ())"
proof (cases "to_float v")
  case None
  then show ?thesis by (simp add: strict_ret)
next
  case (Some r)
  show ?thesis
  proof (cases r)
    case (Inl e)
    with Some show ?thesis by (simp add: strict_ret strict_raise to_float_Exception)
  next
    case (Inr x)
    with Some show ?thesis by (simp add: strict_ret strict_create_score)
  qed
qed

lemma strict_ragas_loop:
  "strict (\<lambda>c. is_score_call c \<and> handler_prefix c = ''Failed to push RAGAS scores: '')
     (ragas_loop tid items)"
proof (induction items)
  case Nil
  show ?case by (simp add: strict_ret)
next
  case (Cons p ps)
  obtain k v where p: "p = (k, v)" by (cases p)
  show ?case
    unfolding p ragas_loop.simps
    by (rule strict_andthen, rule strict_ragas_step, rule Cons.IH)
qed

lemma flow_push_overall_scores:
  "flow (\<lambda>c. \<not> is_score_call c) (\<lambda>_. True) (push_overall_scores tid er mn)"
proof -
  have eq: "push_overall_scores tid er mn =
      (\<lambda>w. if \<not> enabled (self w) then (Inr (), w)
           else try_except (push_overall_scores_try tid er mn)
                  (\<lambda>e. logger_error (''Failed to push overall scores: '' @ e)) w)"
    by (simp add: fun_eq_iff push_overall_scores_def)
  show ?thesis
    unfolding eq by (rule flow_helper[OF strict_push_overall_scores_try]) simp
qed

lemma flow_push_case_scores:
  "flow (\<lambda>c. \<not> is_score_call c) (\<lambda>_. True) (push_case_scores tid er tcs)"
proof -
  have eq: "push_case_scores tid er tcs =
      (\<lambda>w. if \<not> enabled (self w) then (Inr (), w)
           else try_except (case_loop tid 0 (zip (detailed_results er) tcs))
                  (\<lambda>e. logger_error (''Failed to push case scores: '' @ e)) w)"
    by (simp add: fun_eq_iff push_case_scores_def)
  show ?thesis
    unfolding eq by (rule flow_helper[OF strict_case_loop]) simp
qed

lemma flow_push_ragas_scores:
  "flow (\<lambda>c. \<not> is_score_call c) (\<lambda>_. True) (push_ragas_scores tid items)"
proof -
  have eq: "push_ragas_scores tid items =
      (\<lambda>w. if \<not> enabled (self w) then (Inr (), w)
           else try_except (ragas_loop tid items)
                  (\<lambda>e. logger_error (''Failed to push RAGAS scores: '' @ e)) w)"
    by (simp add: fun_eq_iff push_ragas_scores_def)
  show ?thesis
    unfolding eq by (rule flow_helper[OF strict_ragas_loop]) simp
qed

subsection \<open>The two operations\<close>

lemma flow_trace_evaluation_run_try:
  "flow (\<lambda>c. \<not> is_score_call c) (\<lambda>_. True) (trace_evaluation_run_try er mn mp tcs md)"
proof -
  let ?P = "\<lambda>c. \<not> is_score_call c"
  have ragas: "flow ?P (\<lambda>_. True)
      (if truthy (PDict (or_empty (ragas_scores er)))
       then push_ragas_scores tid (or_empty (ragas_scores er)) else ret ())" for tid
    by (simp add: flow_push_ragas_scores flow_ret del: truthy.simps)
  have body: "flow ?P (\<lambda>_. True)
       (andthen (client_call (UpdateCurrentTrace (''fraud_detection_evaluation_'' @ mn)
                   (trace_metadata er mn mp tcs md))) (\<lambda>_.
        andthen (push_overall_scores tid er mn) (\<lambda>_.
        andthen (push_case_scores tid er tcs) (\<lambda>_.
        andthen (if truthy (PDict (or_empty (ragas_scores er)))
                 then push_ragas_scores tid (or_empty (ragas_scores er))
                 else ret ()) (\<lambda>_.
        client_call (SpanUpdate
          [(''accuracy'', PFloat (accuracy er)),
           (''precision'', PFloat (precision er)),
           (''recall'', PFloat (recall er)),
           (''f1_score'', PFloat (f1_score er)),
           (''total_cases'', PInt (int (length tcs)))]))))))" for tid
    by (rule flow_andthen[where Q' = "\<lambda>_. True"], rule flow_client_call, simp,
        rule flow_andthen[where Q' = "\<lambda>_. True"], rule flow_push_overall_scores,
        rule flow_andthen[where Q' = "\<lambda>_. True"], rule flow_push_case_scores,
        rule flow_andthen[where Q' = "\<lambda>_. True"], rule ragas,
        rule flow_client_call, simp)
  have rest: "flow ?P (\<lambda>_. True)
     (andthen (with_span (''fraud_detection_evaluation_'' @ mn)
       (andthen (client_call (UpdateCurrentTrace (''fraud_detection_evaluation_'' @ mn)
                   (trace_metadata er mn mp tcs md))) (\<lambda>_.
        andthen (push_overall_scores tid er mn) (\<lambda>_.
        andthen (push_case_scores tid er tcs) (\<lambda>_.
        andthen (if truthy (PDict (or_empty (ragas_scores er)))
                 then push_ragas_scores tid (or_empty (ragas_scores er))
                 else ret ()) (\<lambda>_.
        client_call (SpanUpdate
          [(''accuracy'', PFloat (accuracy er)),
           (''precision'', PFloat (precision er)),
           (''recall'', PFloat (recall er)),
           (''f1_score'', PFloat (f1_score er)),
           (''total_cases'', PInt (int (length tcs)))]))))))) (\<lambda>_.
     andthen (client_call Flush) (\<lambda>_.
     andthen (logger_info (''Evaluation trace created with ID: '' @ tid)) (\<lambda>_.
     ret (Some tid)))))" for tid
    by (rule flow_andthen[where Q' = "\<lambda>_. True"], rule flow_with_span, rule body, simp, simp,
        rule flow_andthen[where Q' = "\<lambda>_. True"], rule flow_client_call, simp,
        rule flow_andthen[where Q' = "\<lambda>_. True"], rule flow_logger_info,
        rule flow_ret, simp)
  show ?thesis
    unfolding trace_evaluation_run_try_def
    by (rule flow_andthen[where Q' = "\<lambda>_. True"], rule flow_create_trace_id, simp, rule rest)
qed

lemma flow_create_score_all: "flow (\<lambda>_. True) (\<lambda>_. True) (create_score t n v c)"
  unfolding create_score_def by (rule flow_client_call) simp

lemma flow_trace_single_case_evaluation_try:
  "flow (\<lambda>_. True) (\<lambda>_. True) (trace_single_case_evaluation_try tc prediction mn md)"
  unfolding trace_single_case_evaluation_try_def Let_def
  by (rule flow_andthen[where Q' = "\<lambda>_. True"], rule flow_create_trace_id, simp,
      rule flow_andthen[where Q' = "\<lambda>_. True"], rule flow_with_span,
      rule flow_andthen[where Q' = "\<lambda>_. True"], rule flow_client_call, simp,
      rule flow_andthen[where Q' = "\<lambda>_. True"], rule flow_create_score_all,
      rule flow_client_call, simp, simp, simp,
      rule flow_andthen[where Q' = "\<lambda>_. True"], rule flow_client_call, simp,
      rule flow_ret, simp)

text \<open>The trace identifier that a \<^verbatim>\<open>try\<close> block returns is the one the backend gave.\<close>

lemma andthen_Inr:
  assumes "andthen m f w = (Inr x, w')"
  obtains y w1 where "m w = (Inr y, w1)" "f y w1 = (Inr x, w')"
  using assms by (auto simp add: andthen_def split: prod.splits sum.splits)

lemma create_trace_id_Inr:
  assumes "create_trace_id w = (Inr tid, w1)" "client (self w) = Some cl"
  shows "tid = trace_ids cl (calls w)"
  using assms by (auto simp add: create_trace_id_def split: prod.splits sum.splits)

lemma trace_evaluation_run_try_value:
  assumes "trace_evaluation_run_try er mn mp tcs md w = (Inr x, w')" "client (self w) = Some cl"
  shows "x = Some (trace_ids cl (calls w))"
proof -
  from assms(1) obtain tid w1 where 1: "create_trace_id w = (Inr tid, w1)"
    and 2: "andthen (with_span (''fraud_detection_evaluation_'' @ mn)
       (andthen (client_call (UpdateCurrentTrace (''fraud_detection_evaluation_'' @ mn)
                   (trace_metadata er mn mp tcs md))) (\<lambda>_.
        andthen (push_overall_scores tid er mn) (\<lambda>_.
        andthen (push_case_scores tid er tcs) (\<lambda>_.
        andthen (if truthy (PDict (or_empty (ragas_scores er)))
                 then push_ragas_scores tid (or_empty (ragas_scores er))
                 else ret ()) (\<lambda>_.
        client_call (SpanUpdate
          [(''accuracy'', PFloat (accuracy er)),
           (''precision'', PFloat (precision er)),
           (''recall'', PFloat (recall er)),
           (''f1_score'', PFloat (f1_score er)),
           (''total_cases'', PInt (int (length tcs)))]))))))) (\<lambda>_.
     andthen (client_call Flush) (\<lambda>_.
     andthen (logger_info (''Evaluation trace created with ID: '' @ tid)) (\<lambda>_.
     ret (Some tid)))) w1 = (Inr x, w')"
    unfolding trace_evaluation_run_try_def by (rule andthen_Inr)
  from 2 obtain u2 :: unit and w2 where "andthen (client_call Flush) (\<lambda>_.
     andthen (logger_info (''Evaluation trace created with ID: '' @ tid)) (\<lambda>_.
     ret (Some tid))) w2 = (Inr x, w')" by (rule andthen_Inr)
  then obtain u3 :: unit and w3 where "andthen (logger_info (''Evaluation trace created with ID: '' @ tid)) (\<lambda>_.
     ret (Some tid)) w3 = (Inr x, w')" by (rule andthen_Inr)
  then obtain u4 :: unit and w4 where "ret (Some tid) w4 = (Inr x, w')" by (rule andthen_Inr)
  then have "x = Some tid" by (simp add: ret_def)
  with create_trace_id_Inr[OF 1 assms(2)] show ?thesis by simp
qed

lemma trace_single_case_evaluation_try_value:
  assumes "trace_single_case_evaluation_try tc prediction mn md w = (Inr x, w')" "client (self w) = Some cl"
  shows "x = Some (trace_ids cl (calls w))"
proof -
  from assms(1) obtain tid w1 where 1: "create_trace_id w = (Inr tid, w1)"
    and 2: "andthen (with_span (''single_case_evaluation_'' @ mn)
       (andthen (client_call (UpdateCurrentTrace (''single_case_evaluation_'' @ mn)
                   (dict_display
                      ([(''model_name'', PStr mn),
                        (''test_case_title'', PStr (title tc)),
                        (''expected_fraud'', PBool (expected_fraud_flag tc)),
                        (''predicted_fraud'', dict_get prediction ''fraud_flag'' (PBool False))]
                       @ or_empty md)))) (\<lambda>_.
        (let is_correct = py_eq_bool (dict_get prediction ''fraud_flag'' (PBool False))
                            (expected_fraud_flag tc) in
         andthen (create_score tid ''case_accuracy'' (if is_correct then 1 else 0)
                    (''Case accuracy: '' @ title tc)) (\<lambda>_.
         client_call (SpanUpdate
           [(''correct'', PBool is_correct),
            (''expected'', PBool (expected_fraud_flag tc)),
            (''predicted'', dict_get prediction ''fraud_flag'' (PBool False))])))))) (\<lambda>_.
     andthen (client_call Flush) (\<lambda>_.
     ret (Some tid))) w1 = (Inr x, w')"
    unfolding trace_single_case_evaluation_try_def by (rule andthen_Inr)
  from 2 obtain u2 :: unit and w2 where "andthen (client_call Flush) (\<lambda>_. ret (Some tid)) w2 = (Inr x, w')"
    by (rule andthen_Inr)
  then obtain u3 :: unit and w3 where "ret (Some tid) w3 = (Inr x, w')" by (rule andthen_Inr)
  then have "x = Some tid" by (simp add: ret_def)
  with create_trace_id_Inr[OF 1 assms(2)] show ?thesis by simp
qed

text \<open>
  The outcomes of a \<^verbatim>\<open>try\<close> block whose handler logs the exception and returns
  \<^verbatim>\<open>None\<close>.
\<close>

lemma try_outcome:
  fixes cl :: langfuse_client
  assumes "flow P (\<lambda>_. True) m" and "client (self w) = Some cl"
    and "\<And>x w'. m w = (Inr x, w') \<Longrightarrow> x = Some tid"
  shows "\<exists>cs ls. snd (try_except m (\<lambda>e. andthen (logger_error (prefix @ e)) (\<lambda>_. ret None)) w) = emit cs ls w
     \<and> (propagated P cl (calls w) cs = [] \<longrightarrow>
          fst (try_except m (\<lambda>e. andthen (logger_error (prefix @ e)) (\<lambda>_. ret None)) w) = Inr (Some tid))
     \<and> (\<forall>c msg. propagated P cl (calls w) cs \<noteq> [] \<and> last (propagated P cl (calls w) cs) = (c, Exception msg) \<longrightarrow>
          fst (try_except m (\<lambda>e. andthen (logger_error (prefix @ e)) (\<lambda>_. ret None)) w) = Inr None
          \<and> (\<exists>ls'. ls = ls' @ [(ERROR, prefix @ msg)]))
     \<and> (\<forall>c msg. propagated P cl (calls w) cs \<noteq> [] \<and> last (propagated P cl (calls w) cs) = (c, BaseException msg) \<longrightarrow>
          fst (try_except m (\<lambda>e. andthen (logger_error (prefix @ e)) (\<lambda>_. ret None)) w) = Inl (BaseException msg))
     \<and> (\<forall>c msg. (c, Exception msg) \<in> set (failures cl (calls w) cs) \<and> \<not> P c \<longrightarrow>
          (ERROR, handler_prefix c @ msg) \<in> set ls)
     \<and> (\<forall>msg. fst (try_except m (\<lambda>e. andthen (logger_error (prefix @ e)) (\<lambda>_. ret None)) w) \<noteq> Inl (Exception msg))"
proof -
  let ?op = "try_except m (\<lambda>e. andthen (logger_error (prefix @ e)) (\<lambda>_. ret None))"
  from assms(1) obtain cs ls r where m: "m w = (r, emit cs ls w)"
    "\<And>cl x. client (self w) = Some cl \<Longrightarrow> r = Inr x \<Longrightarrow> propagated P cl (calls w) cs = []"
    "\<And>cl e. client (self w) = Some cl \<Longrightarrow> r = Inl e \<Longrightarrow>
        propagated P cl (calls w) cs \<noteq> [] \<and> snd (last (propagated P cl (calls w) cs)) = e"
    "\<And>cl c msg. client (self w) = Some cl \<Longrightarrow> (c, Exception msg) \<in> set (failures cl (calls w) cs)
        \<Longrightarrow> \<not> P c \<Longrightarrow> (ERROR, handler_prefix c @ msg) \<in> set ls"
    by (rule flowE[where w = w]) blast
  show ?thesis
  proof (cases r)
    case (Inr x)
    from assms(3)[of x] m(1) Inr have x: "x = Some tid" by simp
    have 1: "?op w = (Inr (Some tid), emit cs ls w)"
      using m(1) Inr x by (simp add: try_except_def)
    from m(2)[OF assms(2) Inr] m(4)[OF assms(2)] show ?thesis
      unfolding 1 by (intro exI[of _ cs] exI[of _ ls]) simp
  next
    case (Inl e)
    note p = m(3)[OF assms(2) Inl]
    show ?thesis
    proof (cases e)
      case (Exception msg)
      have 1: "?op w = (Inr None, emit cs (ls @ [(ERROR, prefix @ msg)]) w)"
        using m(1) Inl Exception by (simp add: try_except_def andthen_def logger_error_emit ret_def)
      from p Exception m(4)[OF assms(2)] show ?thesis
        unfolding 1 by (intro exI[of _ cs] exI[of _ "ls @ [(ERROR, prefix @ msg)]"]) auto
    next
      case (BaseException msg)
      have 1: "?op w = (Inl (BaseException msg), emit cs ls w)"
        using m(1) Inl BaseException by (simp add: try_except_def)
      from p BaseException m(4)[OF assms(2)] show ?thesis
        unfolding 1 by (intro exI[of _ cs] exI[of _ ls]) auto
    qed
  qed
qed

subsection \<open>Errors of input access on a backend that never raises\<close>

lemma judgment_error_Exception: "judgment_error result = Some e \<Longrightarrow> \<not> is_base e"
  by (auto simp add: judgment_error_def judgment_get_Exception div_10_Exception
      split: if_splits sum.splits)

lemma first_judgment_error_Exception: "first_judgment_error rs = Some e \<Longrightarrow> \<not> is_base e"
  by (induction rs) (auto simp add: judgment_error_Exception split: option.splits)

lemma first_conversion_error_Exception: "first_conversion_error items = Some e \<Longrightarrow> \<not> is_base e"
  by (induction items rule: first_conversion_error.induct)
     (auto simp add: to_float_Exception split: option.splits sum.splits if_splits)

lemma push_case_result:
  assumes "ready w"
  shows "fst (push_case tid i result tc w) = (case judgment_error result of None \<Rightarrow> Inr () | Some e \<Rightarrow> Inl e)"
  using assms
  by (simp add: push_case_def andthen_def create_score_ready judgment_error_def ret_def raise_def
      split: sum.splits)

lemma case_loop_result:
  "ready w \<Longrightarrow> fst (case_loop tid i zs w)
     = (case first_judgment_error (map fst zs) of None \<Rightarrow> Inr () | Some e \<Rightarrow> Inl e)"
proof (induction zs arbitrary: w i)
  case Nil
  then show ?case by (simp add: ret_def)
next
  case (Cons z zs)
  obtain result tc where z: "z = (result, tc)" by (cases z)
  from push_case_ready[OF Cons.prems, of tid i result tc]
  obtain cs r where 1: "push_case tid i result tc w = (r, emit cs [] w)" by blast
  from push_case_result[OF Cons.prems, of tid i result tc] 1
  have r: "r = (case judgment_error result of None \<Rightarrow> Inr () | Some e \<Rightarrow> Inl e)" by simp
  show ?case
  proof (cases "judgment_error result")
    case None
    from Cons.prems have "ready (emit cs [] w)" by simp
    from Cons.IH[OF this, of "i + 1"] 1 r None z show ?thesis
      by (simp add: andthen_def)
  next
    case (Some e)
    with 1 r z show ?thesis by (simp add: andthen_def)
  qed
qed

lemma push_case_scores_log:
  assumes "ready w"
  shows "\<exists>cs. push_case_scores tid er tcs w =
     (Inr (), emit cs (helper_record ''Failed to push case scores: ''
                         (first_judgment_error (map fst (zip (detailed_results er) tcs)))) w)
     \<and> list_all is_case_score cs"
proof -
  let ?zs = "zip (detailed_results er) tcs"
  from case_loop_ready[OF assms, of tid 0 ?zs]
  obtain cs r where 1: "case_loop tid 0 ?zs w = (r, emit cs [] w)" "list_all is_case_score cs"
    by blast
  from case_loop_result[OF assms, of tid 0 ?zs] 1
  have r: "r = (case first_judgment_error (map fst ?zs) of None \<Rightarrow> Inr () | Some e \<Rightarrow> Inl e)" by simp
  have en: "enabled (self w)" using assms by (simp add: ready_def)
  show ?thesis
  proof (cases "first_judgment_error (map fst ?zs)")
    case None
    with 1 r en show ?thesis
      by (intro exI[of _ cs]) (simp add: push_case_scores_def try_except_def)
  next
    case (Some e)
    with first_judgment_error_Exception[OF Some] obtain msg where e: "e = Exception msg"
      by (cases e) auto
    with 1 r en Some show ?thesis
      by (intro exI[of _ cs]) (simp add: push_case_scores_def try_except_def logger_error_emit)
  qed
qed

lemma ragas_loop_result:
  "ready w \<Longrightarrow> fst (ragas_loop tid items w)
     = (case first_conversion_error items of None \<Rightarrow> Inr () | Some e \<Rightarrow> Inl e)"
proof (induction items arbitrary: w)
  case Nil
  then show ?case by (simp add: ret_def)
next
  case (Cons p ps)
  obtain k v where p: "p = (k, v)" by (cases p)
  from ragas_step_ready[OF Cons.prems, of v tid k]
  obtain rs r where 1: "(if isinstance_int_float v
              then (case to_float v of
                      Some (Inr x) \<Rightarrow>
                        create_score tid (''ragas_'' @ k) x (''RAGAS '' @ k @ '' score'')
                    | Some (Inl e) \<Rightarrow> raise e
                    | None \<Rightarrow> ret ())
              else ret ()) w = (r, emit rs [] w)"
    by blast
  have r: "r = (case (if isinstance_int_float v then to_float v else None) of
                  Some (Inl e) \<Rightarrow> Inl e | _ \<Rightarrow> Inr ())"
    using 1 Cons.prems
    by (auto simp add: create_score_ready raise_def ret_def split: if_splits option.splits sum.splits)
  show ?case
  proof (cases "r")
    case (Inl e)
    with r 1 p show ?thesis
      by (auto simp add: andthen_def split: if_splits option.splits sum.splits)
  next
    case (Inr u)
    from Cons.prems have "ready (emit rs [] w)" by simp
    from Cons.IH[OF this] 1 r Inr p show ?thesis
      by (auto simp add: andthen_def split: if_splits option.splits sum.splits)
  qed
qed

lemma push_ragas_log:
  assumes "ready w"
  shows "\<exists>rs. push_ragas_scores tid items w =
     (Inr (), emit rs (helper_record ''Failed to push RAGAS scores: '' (first_conversion_error items)) w)
     \<and> list_all is_ragas_score rs"
proof -
  from ragas_loop_ready[OF assms, of tid items]
  obtain rs r where 1: "ragas_loop tid items w = (r, emit rs [] w)" "list_all is_ragas_score rs"
    by blast
  from ragas_loop_result[OF assms, of tid items] 1
  have r: "r = (case first_conversion_error items of None \<Rightarrow> Inr () | Some e \<Rightarrow> Inl e)" by simp
  have en: "enabled (self w)" using assms by (simp add: ready_def)
  show ?thesis
  proof (cases "first_conversion_error items")
    case None
    with 1 r en show ?thesis
      by (intro exI[of _ rs]) (simp add: push_ragas_scores_def try_except_def)
  next
    case (Some e)
    with first_conversion_error_Exception[OF Some] obtain msg where e: "e = Exception msg"
      by (cases e) auto
    with 1 r en Some show ?thesis
      by (intro exI[of _ rs]) (simp add: push_ragas_scores_def try_except_def logger_error_emit)
  qed
qed

lemma trace_evaluation_run_log:
  assumes "ready w" "client (self w) = Some cl"
  shows "\<exists>cs rs. trace_evaluation_run er mn mp tcs md w =
      (Inr (Some (trace_ids cl (calls w))),
       emit (run_calls (trace_ids cl (calls w)) er mn mp tcs md cs rs)
         (helper_record ''Failed to push case scores: ''
            (first_judgment_error (map fst (zip (detailed_results er) tcs)))
          @ helper_record ''Failed to push RAGAS scores: ''
              (first_conversion_error (or_empty (ragas_scores er)))
          @ [(INFO, ''Evaluation trace created with ID: '' @ trace_ids cl (calls w))]) w)"
proof -
  let ?tid = "trace_ids cl (calls w)"
  let ?ls = "helper_record ''Failed to push case scores: ''
            (first_judgment_error (map fst (zip (detailed_results er) tcs)))"
  let ?ls' = "helper_record ''Failed to push RAGAS scores: ''
              (first_conversion_error (or_empty (ragas_scores er)))"
  let ?w3 = "emit ([CreateTraceId, StartAsCurrentSpan (''fraud_detection_evaluation_'' @ mn),
      UpdateCurrentTrace (''fraud_detection_evaluation_'' @ mn) (trace_metadata er mn mp tcs md)]
      @ overall_calls ?tid er mn) [] w"
  have r3: "ready ?w3" using assms by simp
  from push_case_scores_log[OF r3, of ?tid er tcs]
  obtain cs where 1: "push_case_scores ?tid er tcs ?w3 = (Inr (), emit cs ?ls ?w3)"
    by blast
  have r4: "ready (emit cs ?ls ?w3)" using r3 by simp
  have "\<exists>rs. (if truthy (PDict (or_empty (ragas_scores er)))
           then push_ragas_scores ?tid (or_empty (ragas_scores er)) else ret ()) (emit cs ?ls ?w3)
          = (Inr (), emit rs ?ls' (emit cs ?ls ?w3))"
  proof (cases "or_empty (ragas_scores er) = []")
    case True
    then show ?thesis
      by (intro exI[of _ "[]"]) (simp add: ret_def)
  next
    case False
    with push_ragas_log[OF r4, of ?tid "or_empty (ragas_scores er)"] show ?thesis by auto
  qed
  then obtain rs where 2: "(if truthy (PDict (or_empty (ragas_scores er)))
           then push_ragas_scores ?tid (or_empty (ragas_scores er)) else ret ()) (emit cs ?ls ?w3)
          = (Inr (), emit rs ?ls' (emit cs ?ls ?w3))"
    by blast
  have en: "enabled (self w)" using assms by (simp add: ready_def)
  have "trace_evaluation_run er mn mp tcs md w =
      (Inr (Some ?tid), emit (run_calls ?tid er mn mp tcs md cs rs)
         (?ls @ ?ls' @ [(INFO, ''Evaluation trace created with ID: '' @ ?tid)]) w)"
    using assms en 1 2
    by (simp add: trace_evaluation_run_def trace_evaluation_run_try_def try_except_def andthen_def
        create_trace_id_ready with_span_def client_call_ready push_overall_ready logger_info_emit
        ret_def run_calls_def del: truthy.simps)
  then show ?thesis by blast
qed

lemma filter_helper_record [simp]:
  "filter (\<lambda>(level, msg). level = ERROR) (helper_record prefix x) = helper_record prefix x"
  by (cases "(prefix, x)" rule: helper_record.cases) simp_all

lemma propagated_all: "propagated (\<lambda>_. True) cl h cs = failures cl h cs"
  by (simp add: propagated_def)

lemma trace_evaluation_run_outcome:
  fixes cl :: langfuse_client
  assumes "enabled (self w)" and "client (self w) = Some cl"
  shows "\<exists>cs ls. snd (trace_evaluation_run er mn mp tcs md w) = emit cs ls w
     \<and> (propagated (\<lambda>c. \<not> is_score_call c) cl (calls w) cs = [] \<longrightarrow>
          fst (trace_evaluation_run er mn mp tcs md w) = Inr (Some (trace_ids cl (calls w))))
     \<and> (\<forall>c msg. propagated (\<lambda>c. \<not> is_score_call c) cl (calls w) cs \<noteq> []
            \<and> last (propagated (\<lambda>c. \<not> is_score_call c) cl (calls w) cs) = (c, Exception msg) \<longrightarrow>
          fst (trace_evaluation_run er mn mp tcs md w) = Inr None
          \<and> (\<exists>ls'. ls = ls' @ [(ERROR, ''Failed to create evaluation trace: '' @ msg)]))
     \<and> (\<forall>c msg. propagated (\<lambda>c. \<not> is_score_call c) cl (calls w) cs \<noteq> []
            \<and> last (propagated (\<lambda>c. \<not> is_score_call c) cl (calls w) cs) = (c, BaseException msg) \<longrightarrow>
          fst (trace_evaluation_run er mn mp tcs md w) = Inl (BaseException msg))
     \<and> (\<forall>c msg. (c, Exception msg) \<in> set (failures cl (calls w) cs) \<and> \<not> \<not> is_score_call c \<longrightarrow>
          (ERROR, handler_prefix c @ msg) \<in> set ls)
     \<and> (\<forall>msg. fst (trace_evaluation_run er mn mp tcs md w) \<noteq> Inl (Exception msg))"
proof -
  have eq: "trace_evaluation_run er mn mp tcs md w =
      try_except (trace_evaluation_run_try er mn mp tcs md)
        (\<lambda>e. andthen (logger_error (''Failed to create evaluation trace: '' @ e)) (\<lambda>_. ret None)) w"
    using assms(1) by (simp add: trace_evaluation_run_def)
  show ?thesis
    unfolding eq
    by (rule try_outcome[OF flow_trace_evaluation_run_try assms(2)])
       (rule trace_evaluation_run_try_value[OF _ assms(2)])
qed

lemma trace_single_case_evaluation_outcome:
  fixes cl :: langfuse_client
  assumes "enabled (self w)" and "client (self w) = Some cl"
  shows "\<exists>cs ls. snd (trace_single_case_evaluation tc prediction mn md w) = emit cs ls w
     \<and> (propagated (\<lambda>_. True) cl (calls w) cs = [] \<longrightarrow>
          fst (trace_single_case_evaluation tc prediction mn md w) = Inr (Some (trace_ids cl (calls w))))
     \<and> (\<forall>c msg. propagated (\<lambda>_. True) cl (calls w) cs \<noteq> []
            \<and> last (propagated (\<lambda>_. True) cl (calls w) cs) = (c, Exception msg) \<longrightarrow>
          fst (trace_single_case_evaluation tc prediction mn md w) = Inr None
          \<and> (\<exists>ls'. ls = ls' @ [(ERROR, ''Failed to create single case trace: '' @ msg)]))
     \<and> (\<forall>c msg. propagated (\<lambda>_. True) cl (calls w) cs \<noteq> []
            \<and> last (propagated (\<lambda>_. True) cl (calls w) cs) = (c, BaseException msg) \<longrightarrow>
          fst (trace_single_case_evaluation tc prediction mn md w) = Inl (BaseException msg))
     \<and> (\<forall>c msg. (c, Exception msg) \<in> set (failures cl (calls w) cs) \<and> \<not> True \<longrightarrow>
          (ERROR, handler_prefix c @ msg) \<in> set ls)
     \<and> (\<forall>msg. fst (trace_single_case_evaluation tc prediction mn md w) \<noteq> Inl (Exception msg))"
proof -
  have eq: "trace_single_case_evaluation tc prediction mn md w =
      try_except (trace_single_case_evaluation_try tc prediction mn md)
        (\<lambda>e. andthen (logger_error (''Failed to create single case trace: '' @ e)) (\<lambda>_. ret None)) w"
    using assms(1) by (simp add: trace_single_case_evaluation_def)
  show ?thesis
    unfolding eq
    by (rule try_outcome[OF flow_trace_single_case_evaluation_try assms(2)])
       (rule trace_single_case_evaluation_try_value[OF _ assms(2)])
qed

lemma helper_handles:
  assumes "enabled (self w)"
  shows "push_overall_scores_try tid er mn w = (Inl (Exception msg), w1) \<Longrightarrow>
           push_overall_scores tid er mn w
           = (Inr (), emit [] [(ERROR, ''Failed to push overall scores: '' @ msg)] w1)"
    and "case_loop tid 0 (zip (detailed_results er) tcs) w = (Inl (Exception msg), w1) \<Longrightarrow>
           push_case_scores tid er tcs w
           = (Inr (), emit [] [(ERROR, ''Failed to push case scores: '' @ msg)] w1)"
    and "ragas_loop tid items w = (Inl (Exception msg), w1) \<Longrightarrow>
           push_ragas_scores tid items w
           = (Inr (), emit [] [(ERROR, ''Failed to push RAGAS scores: '' @ msg)] w1)"
  using assms
  by (simp_all add: push_overall_scores_def push_case_scores_def push_ragas_scores_def
      try_except_def logger_error_emit)

lemma trace_evaluation_run_errors:
  assumes "enabled (self w)" "client (self w) = Some cl" "never_raises cl"
  shows "fst (trace_evaluation_run er mn mp tcs md w) = Inr (Some (trace_ids cl (calls w)))
     \<and> filter (\<lambda>(level, msg). level = ERROR) (logged w (snd (trace_evaluation_run er mn mp tcs md w)))
       = helper_record ''Failed to push case scores: ''
            (first_judgment_error (map fst (zip (detailed_results er) tcs)))
         @ helper_record ''Failed to push RAGAS scores: ''
            (first_conversion_error (or_empty (ragas_scores er)))"
proof -
  have "ready w" using assms by (simp add: ready_def)
  from trace_evaluation_run_log[OF this assms(2), of er mn mp tcs md]
  show ?thesis by auto
qed

text \<open>The \<^verbatim>\<open>try\<close> block of the single-case report writes nothing to the log.\<close>

lemma client_call_logs: "logs (snd (client_call c w)) = logs w"
  by (simp add: client_call_def split: option.splits)

lemma andthen_logs:
  assumes "\<And>w. logs (snd (m w)) = logs w" "\<And>x w. logs (snd (f x w)) = logs w"
  shows "logs (snd (andthen m f w)) = logs w"
proof (cases "m w")
  case (Pair r w1)
  with assms(1)[of w] have 1: "logs w1 = logs w" by simp
  show ?thesis
  proof (cases r)
    case (Inl e)
    with Pair 1 show ?thesis by (simp add: andthen_def)
  next
    case (Inr x)
    with Pair 1 assms(2)[of x w1] show ?thesis by (simp add: andthen_def)
  qed
qed

lemma with_span_logs:
  assumes "\<And>w. logs (snd (body w)) = logs w"
  shows "logs (snd (with_span name body w)) = logs w"
proof -
  let ?leave = "\<lambda>w1. case body w1 of (r, w2) \<Rightarrow> andthen (client_call SpanExit) (\<lambda>_ w3. (r, w3)) w2"
  have eq: "with_span name body = andthen (client_call (StartAsCurrentSpan name)) (\<lambda>_. ?leave)"
    by (auto simp add: with_span_def andthen_def fun_eq_iff split: prod.splits sum.splits)
  have leave: "logs (snd (?leave w)) = logs w" for w
  proof (cases "body w")
    case (Pair r w2)
    with assms[of w] have "logs w2 = logs w" by simp
    with Pair andthen_logs[of "client_call SpanExit" "\<lambda>_ w3. (r, w3)" w2] show ?thesis
      by (simp add: client_call_logs)
  qed
  show ?thesis
    unfolding eq by (rule andthen_logs) (simp_all add: client_call_logs leave)
qed

lemma create_trace_id_logs: "logs (snd (create_trace_id w)) = logs w"
proof -
  have "logs (snd (create_trace_id w)) = logs (snd (client_call CreateTraceId w))"
    by (simp add: create_trace_id_def split: prod.splits sum.splits)
  then show ?thesis by (simp add: client_call_logs)
qed

lemma trace_single_case_evaluation_try_logs:
  "logs (snd (trace_single_case_evaluation_try tc prediction mn md w)) = logs w"
  unfolding trace_single_case_evaluation_try_def Let_def create_score_def
  by (intro andthen_logs with_span_logs create_trace_id_logs client_call_logs) (simp add: ret_def)

lemma trace_single_case_evaluation_logged:
  assumes "enabled (self w)"
  shows "length (logged w (snd (trace_single_case_evaluation tc prediction mn md w))) \<le> 1
     \<and> (fst (trace_single_case_evaluation tc prediction mn md w) \<noteq> Inr None \<longrightarrow>
          logged w (snd (trace_single_case_evaluation tc prediction mn md w)) = [])"
proof (cases "trace_single_case_evaluation_try tc prediction mn md w")
  case (Pair r w1)
  with trace_single_case_evaluation_try_logs[of tc prediction mn md w] have 1: "logs w1 = logs w"
    by simp
  show ?thesis
  proof (cases r)
    case (Inr x)
    with Pair 1 assms show ?thesis
      by (simp add: trace_single_case_evaluation_def try_except_def logged_def)
  next
    case (Inl e)
    with Pair 1 assms show ?thesis
      by (cases e)
         (simp_all add: trace_single_case_evaluation_def try_except_def logged_def andthen_def
            logger_error_def ret_def)
  qed
qed

text \<open>
  C1, as amended. On an enabled tracer with a client (the constructor enables a tracer
  only after it has set the client), what becomes of an exception depends on where it is
  raised.

  In \<^verbatim>\<open>trace_evaluation_run\<close>, the failures that leave the \<^verbatim>\<open>try\<close> block are those of
  the calls it makes itself (\<^verbatim>\<open>create_trace_id\<close>, entering and leaving the span,
  \<^verbatim>\<open>update_current_trace\<close>, \<^verbatim>\<open>span.update\<close>, \<^verbatim>\<open>flush\<close>) and every exception that is
  not an instance of \<^verbatim>\<open>Exception\<close>. If there is none, the run returns the trace
  identifier that the backend gave, whatever the scores raised. If the last of them is an
  \<^verbatim>\<open>Exception\<close>, the run returns \<^verbatim>\<open>None\<close> and the last record of the log is the error
  \<^verbatim>\<open>Failed to create evaluation trace:\<close> with the message of that exception. If it is
  not an instance of \<^verbatim>\<open>Exception\<close>, it reaches the caller. Every \<^verbatim>\<open>Exception\<close> that a
  \<^verbatim>\<open>create_score\<close> raised is in the log with its message, behind the prefix of the helper
  that caught it. When the backend raises nothing, the run returns the trace identifier
  and its error records are exactly: one for the first judgment that raises, if any, and
  one for the first auxiliary score whose conversion raises, if any.

  In \<^verbatim>\<open>trace_single_case_evaluation\<close> every failure leaves the \<^verbatim>\<open>try\<close> block. With no
  failure the trace identifier is returned and nothing is logged; if the last failure is
  an \<^verbatim>\<open>Exception\<close>, \<^verbatim>\<open>None\<close> is returned and the log is the one record
  \<^verbatim>\<open>Failed to create single case trace:\<close> with its message; otherwise it reaches the
  caller.

  Neither operation ever raises an instance of \<^verbatim>\<open>Exception\<close>. Each of the helpers
  \<^verbatim>\<open>_push_overall_scores\<close>, \<^verbatim>\<open>_push_case_scores\<close> and \<^verbatim>\<open>_push_ragas_scores\<close>, whatever
  \<^verbatim>\<open>Exception\<close> its \<^verbatim>\<open>try\<close> block raises (from \<^verbatim>\<open>create_score\<close> or from input
  access), logs one error record with the message of the exception and returns normally.
\<close>

theorem exceptions_are_contained:
  fixes cl :: langfuse_client
  assumes "enabled (self w)" and "client (self w) = Some cl"
  shows "(let run = trace_evaluation_run er mn mp tcs md w;
              fails = failures cl (calls w) (emitted w (snd run));
              left = propagated (\<lambda>c. \<not> is_score_call c) cl (calls w) (emitted w (snd run));
              log = logged w (snd run)
          in (left = [] \<longrightarrow> fst run = Inr (Some (trace_ids cl (calls w))))
           \<and> (\<forall>c msg. left \<noteq> [] \<and> last left = (c, Exception msg) \<longrightarrow>
                 fst run = Inr None
                 \<and> (\<exists>ls. log = ls @ [(ERROR, ''Failed to create evaluation trace: '' @ msg)]))
           \<and> (\<forall>c msg. left \<noteq> [] \<and> last left = (c, BaseException msg) \<longrightarrow>
                 fst run = Inl (BaseException msg))
           \<and> (\<forall>c msg. (c, Exception msg) \<in> set fails \<and> is_score_call c \<longrightarrow>
                 (ERROR, handler_prefix c @ msg) \<in> set log)
           \<and> (\<forall>msg. fst run \<noteq> Inl (Exception msg))
           \<and> (never_raises cl \<longrightarrow>
                 fst run = Inr (Some (trace_ids cl (calls w)))
                 \<and> filter (\<lambda>(level, msg). level = ERROR) log
                   = helper_record ''Failed to push case scores: ''
                       (first_judgment_error (map fst (zip (detailed_results er) tcs)))
                     @ helper_record ''Failed to push RAGAS scores: ''
                         (first_conversion_error (or_empty (ragas_scores er)))))
     \<and> (let single = trace_single_case_evaluation tc prediction mn' md' w;
              left = failures cl (calls w) (emitted w (snd single));
              log = logged w (snd single)
          in (left = [] \<longrightarrow> fst single = Inr (Some (trace_ids cl (calls w))) \<and> log = [])
           \<and> (\<forall>c msg. left \<noteq> [] \<and> last left = (c, Exception msg) \<longrightarrow>
                 fst single = Inr None
                 \<and> log = [(ERROR, ''Failed to create single case trace: '' @ msg)])
           \<and> (\<forall>c msg. left \<noteq> [] \<and> last left = (c, BaseException msg) \<longrightarrow>
                 fst single = Inl (BaseException msg) \<and> log = [])
           \<and> (\<forall>msg. fst single \<noteq> Inl (Exception msg)))
     \<and> (\<forall>tid msg w1. push_overall_scores_try tid er mn w = (Inl (Exception msg), w1) \<longrightarrow>
           push_overall_scores tid er mn w
           = (Inr (), emit [] [(ERROR, ''Failed to push overall scores: '' @ msg)] w1))
     \<and> (\<forall>tid msg w1. case_loop tid 0 (zip (detailed_results er) tcs) w = (Inl (Exception msg), w1) \<longrightarrow>
           push_case_scores tid er tcs w
           = (Inr (), emit [] [(ERROR, ''Failed to push case scores: '' @ msg)] w1))
     \<and> (\<forall>tid items msg w1. ragas_loop tid items w = (Inl (Exception msg), w1) \<longrightarrow>
           push_ragas_scores tid items w
           = (Inr (), emit [] [(ERROR, ''Failed to push RAGAS scores: '' @ msg)] w1))"
proof -
  from trace_evaluation_run_outcome[OF assms, of er mn mp tcs md]
  obtain cs ls where run: "snd (trace_evaluation_run er mn mp tcs md w) = emit cs ls w"
    and r1: "propagated (\<lambda>c. \<not> is_score_call c) cl (calls w) cs = [] \<longrightarrow>
          fst (trace_evaluation_run er mn mp tcs md w) = Inr (Some (trace_ids cl (calls w)))"
    and r2: "\<forall>c msg. propagated (\<lambda>c. \<not> is_score_call c) cl (calls w) cs \<noteq> []
            \<and> last (propagated (\<lambda>c. \<not> is_score_call c) cl (calls w) cs) = (c, Exception msg) \<longrightarrow>
          fst (trace_evaluation_run er mn mp tcs md w) = Inr None
          \<and> (\<exists>ls'. ls = ls' @ [(ERROR, ''Failed to create evaluation trace: '' @ msg)])"
    and r3: "\<forall>c msg. propagated (\<lambda>c. \<not> is_score_call c) cl (calls w) cs \<noteq> []
            \<and> last (propagated (\<lambda>c. \<not> is_score_call c) cl (calls w) cs) = (c, BaseException msg) \<longrightarrow>
          fst (trace_evaluation_run er mn mp tcs md w) = Inl (BaseException msg)"
    and r4: "\<forall>c msg. (c, Exception msg) \<in> set (failures cl (calls w) cs) \<and> \<not> \<not> is_score_call c \<longrightarrow>
          (ERROR, handler_prefix c @ msg) \<in> set ls"
    and r5: "\<forall>msg. fst (trace_evaluation_run er mn mp tcs md w) \<noteq> Inl (Exception msg)"
    by blast
  have r6: "never_raises cl \<longrightarrow>
       fst (trace_evaluation_run er mn mp tcs md w) = Inr (Some (trace_ids cl (calls w)))
       \<and> filter (\<lambda>(level, msg). level = ERROR) (logged w (snd (trace_evaluation_run er mn mp tcs md w)))
         = helper_record ''Failed to push case scores: ''
             (first_judgment_error (map fst (zip (detailed_results er) tcs)))
           @ helper_record ''Failed to push RAGAS scores: ''
               (first_conversion_error (or_empty (ragas_scores er)))"
    using trace_evaluation_run_errors[OF assms, of er mn mp tcs md] by blast
  have full: "let run = trace_evaluation_run er mn mp tcs md w;
              fails = failures cl (calls w) (emitted w (snd run));
              left = propagated (\<lambda>c. \<not> is_score_call c) cl (calls w) (emitted w (snd run));
              log = logged w (snd run)
          in (left = [] \<longrightarrow> fst run = Inr (Some (trace_ids cl (calls w))))
           \<and> (\<forall>c msg. left \<noteq> [] \<and> last left = (c, Exception msg) \<longrightarrow>
                 fst run = Inr None
                 \<and> (\<exists>ls. log = ls @ [(ERROR, ''Failed to create evaluation trace: '' @ msg)]))
           \<and> (\<forall>c msg. left \<noteq> [] \<and> last left = (c, BaseException msg) \<longrightarrow>
                 fst run = Inl (BaseException msg))
           \<and> (\<forall>c msg. (c, Exception msg) \<in> set fails \<and> is_score_call c \<longrightarrow>
                 (ERROR, handler_prefix c @ msg) \<in> set log)
           \<and> (\<forall>msg. fst run \<noteq> Inl (Exception msg))
           \<and> (never_raises cl \<longrightarrow>
                 fst run = Inr (Some (trace_ids cl (calls w)))
                 \<and> filter (\<lambda>(level, msg). level = ERROR) log
                   = helper_record ''Failed to push case scores: ''
                       (first_judgment_error (map fst (zip (detailed_results er) tcs)))
                     @ helper_record ''Failed to push RAGAS scores: ''
                         (first_conversion_error (or_empty (ragas_scores er))))"
    unfolding Let_def
  proof (intro conjI)
    show "propagated (\<lambda>c. \<not> is_score_call c) cl (calls w)
            (emitted w (snd (trace_evaluation_run er mn mp tcs md w))) = [] \<longrightarrow>
          fst (trace_evaluation_run er mn mp tcs md w) = Inr (Some (trace_ids cl (calls w)))"
      using r1 by (simp add: run)
    show "\<forall>c msg. propagated (\<lambda>c. \<not> is_score_call c) cl (calls w)
              (emitted w (snd (trace_evaluation_run er mn mp tcs md w))) \<noteq> []
            \<and> last (propagated (\<lambda>c. \<not> is_score_call c) cl (calls w)
                 (emitted w (snd (trace_evaluation_run er mn mp tcs md w)))) = (c, Exception msg) \<longrightarrow>
          fst (trace_evaluation_run er mn mp tcs md w) = Inr None
          \<and> (\<exists>ls. logged w (snd (trace_evaluation_run er mn mp tcs md w))
                = ls @ [(ERROR, ''Failed to create evaluation trace: '' @ msg)])"
      using r2 by (simp add: run)
    show "\<forall>c msg. propagated (\<lambda>c. \<not> is_score_call c) cl (calls w)
              (emitted w (snd (trace_evaluation_run er mn mp tcs md w))) \<noteq> []
            \<and> last (propagated (\<lambda>c. \<not> is_score_call c) cl (calls w)
                 (emitted w (snd (trace_evaluation_run er mn mp tcs md w)))) = (c, BaseException msg) \<longrightarrow>
          fst (trace_evaluation_run er mn mp tcs md w) = Inl (BaseException msg)"
      using r3 by (simp add: run)
    show "\<forall>c msg. (c, Exception msg) \<in> set (failures cl (calls w)
              (emitted w (snd (trace_evaluation_run er mn mp tcs md w)))) \<and> is_score_call c \<longrightarrow>
          (ERROR, handler_prefix c @ msg) \<in> set (logged w (snd (trace_evaluation_run er mn mp tcs md w)))"
      using r4 by (simp add: run)
    show "\<forall>msg. fst (trace_evaluation_run er mn mp tcs md w) \<noteq> Inl (Exception msg)"
      by (rule r5)
    show "never_raises cl \<longrightarrow>
       fst (trace_evaluation_run er mn mp tcs md w) = Inr (Some (trace_ids cl (calls w)))
       \<and> filter (\<lambda>(level, msg). level = ERROR) (logged w (snd (trace_evaluation_run er mn mp tcs md w)))
         = helper_record ''Failed to push case scores: ''
             (first_judgment_error (map fst (zip (detailed_results er) tcs)))
           @ helper_record ''Failed to push RAGAS scores: ''
               (first_conversion_error (or_empty (ragas_scores er)))"
      by (rule r6)
  qed
  from trace_single_case_evaluation_outcome[OF assms, of tc prediction mn' md']
  obtain cs' ls' where single: "snd (trace_single_case_evaluation tc prediction mn' md' w) = emit cs' ls' w"
    and s1: "failures cl (calls w) cs' = [] \<longrightarrow>
          fst (trace_single_case_evaluation tc prediction mn' md' w) = Inr (Some (trace_ids cl (calls w)))"
    and s2: "\<forall>c msg. failures cl (calls w) cs' \<noteq> []
            \<and> last (failures cl (calls w) cs') = (c, Exception msg) \<longrightarrow>
          fst (trace_single_case_evaluation tc prediction mn' md' w) = Inr None
          \<and> (\<exists>ls''. ls' = ls'' @ [(ERROR, ''Failed to create single case trace: '' @ msg)])"
    and s3: "\<forall>c msg. failures cl (calls w) cs' \<noteq> []
            \<and> last (failures cl (calls w) cs') = (c, BaseException msg) \<longrightarrow>
          fst (trace_single_case_evaluation tc prediction mn' md' w) = Inl (BaseException msg)"
    and s5: "\<forall>msg. fst (trace_single_case_evaluation tc prediction mn' md' w) \<noteq> Inl (Exception msg)"
    unfolding propagated_all by blast
  from trace_single_case_evaluation_logged[OF assms(1), of tc prediction mn' md']
  have l1: "length ls' \<le> 1"
    and l2: "fst (trace_single_case_evaluation tc prediction mn' md' w) \<noteq> Inr None \<longrightarrow> ls' = []"
    by (simp_all add: single)
  have s2': "\<forall>c msg. failures cl (calls w) cs' \<noteq> []
            \<and> last (failures cl (calls w) cs') = (c, Exception msg) \<longrightarrow>
          fst (trace_single_case_evaluation tc prediction mn' md' w) = Inr None
          \<and> ls' = [(ERROR, ''Failed to create single case trace: '' @ msg)]"
  proof (intro allI impI)
    fix c msg
    assume a: "failures cl (calls w) cs' \<noteq> [] \<and> last (failures cl (calls w) cs') = (c, Exception msg)"
    with s2 obtain ls'' where 1: "fst (trace_single_case_evaluation tc prediction mn' md' w) = Inr None"
      "ls' = ls'' @ [(ERROR, ''Failed to create single case trace: '' @ msg)]" by blast
    with l1 have "ls'' = []" by simp
    with 1 show "fst (trace_single_case_evaluation tc prediction mn' md' w) = Inr None
          \<and> ls' = [(ERROR, ''Failed to create single case trace: '' @ msg)]" by simp
  qed
  have one: "let single = trace_single_case_evaluation tc prediction mn' md' w;
              left = failures cl (calls w) (emitted w (snd single));
              log = logged w (snd single)
          in (left = [] \<longrightarrow> fst single = Inr (Some (trace_ids cl (calls w))) \<and> log = [])
           \<and> (\<forall>c msg. left \<noteq> [] \<and> last left = (c, Exception msg) \<longrightarrow>
                 fst single = Inr None
                 \<and> log = [(ERROR, ''Failed to create single case trace: '' @ msg)])
           \<and> (\<forall>c msg. left \<noteq> [] \<and> last left = (c, BaseException msg) \<longrightarrow>
                 fst single = Inl (BaseException msg) \<and> log = [])
           \<and> (\<forall>msg. fst single \<noteq> Inl (Exception msg))"
    unfolding Let_def
  proof (intro conjI)
    show "failures cl (calls w) (emitted w (snd (trace_single_case_evaluation tc prediction mn' md' w))) = [] \<longrightarrow>
        fst (trace_single_case_evaluation tc prediction mn' md' w) = Inr (Some (trace_ids cl (calls w)))
        \<and> logged w (snd (trace_single_case_evaluation tc prediction mn' md' w)) = []"
      using s1 l2 by (simp add: single)
    show "\<forall>c msg. failures cl (calls w) (emitted w (snd (trace_single_case_evaluation tc prediction mn' md' w))) \<noteq> []
          \<and> last (failures cl (calls w) (emitted w (snd (trace_single_case_evaluation tc prediction mn' md' w))))
              = (c, Exception msg) \<longrightarrow>
        fst (trace_single_case_evaluation tc prediction mn' md' w) = Inr None
        \<and> logged w (snd (trace_single_case_evaluation tc prediction mn' md' w))
            = [(ERROR, ''Failed to create single case trace: '' @ msg)]"
      using s2' by (simp add: single)
    show "\<forall>c msg. failures cl (calls w) (emitted w (snd (trace_single_case_evaluation tc prediction mn' md' w))) \<noteq> []
          \<and> last (failures cl (calls w) (emitted w (snd (trace_single_case_evaluation tc prediction mn' md' w))))
              = (c, BaseException msg) \<longrightarrow>
        fst (trace_single_case_evaluation tc prediction mn' md' w) = Inl (BaseException msg)
        \<and> logged w (snd (trace_single_case_evaluation tc prediction mn' md' w)) = []"
      using s3 l2 by (simp add: single)
    show "\<forall>msg. fst (trace_single_case_evaluation tc prediction mn' md' w) \<noteq> Inl (Exception msg)"
      by (rule s5)
  qed
  from full one helper_handles[OF assms(1)] show ?thesis by blast
qed

subsection \<open>Runs on the sample backends\<close>

lemmas run_defs = trace_evaluation_run_def trace_evaluation_run_try_def trace_single_case_evaluation_def
  trace_single_case_evaluation_try_def try_except_def andthen_def ret_def raise_def with_span_def
  client_call_def create_trace_id_def create_score_def push_overall_scores_def
  push_overall_scores_try_def push_case_scores_def
  push_ragas_scores_def push_case_def logger_info_def logger_error_def trace_metadata_def
  dict_display_def or_empty_def world_of_def small_result_def emitted_def

lemma run_flush_fails:
  "trace_evaluation_run small_result ''m'' ''p'' [] None (world_of flush_fails_client) =
    (Inr None,
     \<lparr>self = \<lparr>enabled = True, client = Some flush_fails_client\<rparr>,
      calls = [CreateTraceId, StartAsCurrentSpan ''fraud_detection_evaluation_m'',
               UpdateCurrentTrace ''fraud_detection_evaluation_m''
                 [(''model_name'', PStr ''m''), (''model_provider'', PStr ''p''),
                  (''evaluation_timestamp'', PStr ''2024-01-01T00:00:00''),
                  (''test_cases_count'', PInt 0), (''evaluation_type'', PStr ''fraud_detection'')],
               CreateScore ''trace-1'' ''fraud_detection_accuracy'' 0.8 ''Overall fraud detection accuracy for m'',
               CreateScore ''trace-1'' ''fraud_detection_precision'' 0.75 ''Fraud detection precision for m'',
               CreateScore ''trace-1'' ''fraud_detection_recall'' 0.9 ''Fraud detection recall for m'',
               CreateScore ''trace-1'' ''fraud_detection_f1'' 0.82 ''Fraud detection F1 score for m'',
               CreateScore ''trace-1'' ''fraud_detection_overall_quality'' 0.8175 ''Overall quality score for m'',
               SpanUpdate [(''accuracy'', PFloat 0.8), (''precision'', PFloat 0.75), (''recall'', PFloat 0.9),
                           (''f1_score'', PFloat 0.82), (''total_cases'', PInt 0)],
               SpanExit, Flush],
      logs = [(ERROR, ''Failed to create evaluation trace: timeout'')]\<rparr>)"
  by (simp add: run_defs flush_fails_client_def)

lemma single_flush_fails:
  "trace_single_case_evaluation \<lparr>title = ''A'', expected_fraud_flag = True\<rparr>
      [(''fraud_flag'', PBool True)] ''m'' None (world_of flush_fails_client) =
    (Inr None,
     \<lparr>self = \<lparr>enabled = True, client = Some flush_fails_client\<rparr>,
      calls = [CreateTraceId, StartAsCurrentSpan ''single_case_evaluation_m'',
               UpdateCurrentTrace ''single_case_evaluation_m''
                 [(''model_name'', PStr ''m''), (''test_case_title'', PStr ''A''),
                  (''expected_fraud'', PBool True), (''predicted_fraud'', PBool True)],
               CreateScore ''trace-1'' ''case_accuracy'' 1 ''Case accuracy: A'',
               SpanUpdate [(''correct'', PBool True), (''expected'', PBool True), (''predicted'', PBool True)],
               SpanExit, Flush],
      logs = [(ERROR, ''Failed to create single case trace: timeout'')]\<rparr>)"
  by (simp add: run_defs flush_fails_client_def dict_get_def)

lemma run_score_fails:
  "trace_evaluation_run small_result ''m'' ''p'' [] None (world_of score_fails_client) =
    (Inr (Some ''trace-1''),
     \<lparr>self = \<lparr>enabled = True, client = Some score_fails_client\<rparr>,
      calls = [CreateTraceId, StartAsCurrentSpan ''fraud_detection_evaluation_m'',
               UpdateCurrentTrace ''fraud_detection_evaluation_m''
                 [(''model_name'', PStr ''m''), (''model_provider'', PStr ''p''),
                  (''evaluation_timestamp'', PStr ''2024-01-01T00:00:00''),
                  (''test_cases_count'', PInt 0), (''evaluation_type'', PStr ''fraud_detection'')],
               CreateScore ''trace-1'' ''fraud_detection_accuracy'' 0.8 ''Overall fraud detection accuracy for m'',
               SpanUpdate [(''accuracy'', PFloat 0.8), (''precision'', PFloat 0.75), (''recall'', PFloat 0.9),
                           (''f1_score'', PFloat 0.82), (''total_cases'', PInt 0)],
               SpanExit, Flush],
      logs = [(ERROR, ''Failed to push overall scores: boom''),
              (INFO, ''Evaluation trace created with ID: trace-1'')]\<rparr>)"
  by (simp add: run_defs score_fails_client_def)

lemma run_interrupted:
  "trace_evaluation_run small_result ''m'' ''p'' [] None (world_of interrupted_client) =
    (Inl (BaseException ''KeyboardInterrupt''),
     \<lparr>self = \<lparr>enabled = True, client = Some interrupted_client\<rparr>,
      calls = [CreateTraceId, StartAsCurrentSpan ''fraud_detection_evaluation_m'',
               UpdateCurrentTrace ''fraud_detection_evaluation_m''
                 [(''model_name'', PStr ''m''), (''model_provider'', PStr ''p''),
                  (''evaluation_timestamp'', PStr ''2024-01-01T00:00:00''),
                  (''test_cases_count'', PInt 0), (''evaluation_type'', PStr ''fraud_detection'')],
               CreateScore ''trace-1'' ''fraud_detection_accuracy'' 0.8 ''Overall fraud detection accuracy for m'',
               CreateScore ''trace-1'' ''fraud_detection_precision'' 0.75 ''Fraud detection precision for m'',
               CreateScore ''trace-1'' ''fraud_detection_recall'' 0.9 ''Fraud detection recall for m'',
               CreateScore ''trace-1'' ''fraud_detection_f1'' 0.82 ''Fraud detection F1 score for m'',
               CreateScore ''trace-1'' ''fraud_detection_overall_quality'' 0.8175 ''Overall quality score for m'',
               SpanUpdate [(''accuracy'', PFloat 0.8), (''precision'', PFloat 0.75), (''recall'', PFloat 0.9),
                           (''f1_score'', PFloat 0.82), (''total_cases'', PInt 0)],
               SpanExit, Flush],
      logs = []\<rparr>)"
  by (simp add: run_defs interrupted_client_def)

lemma overall_try_score_fails:
  "push_overall_scores_try ''trace-1'' small_result ''m'' (world_of score_fails_client)
   = (Inl (Exception ''boom''),
      emit [CreateScore ''trace-1'' ''fraud_detection_accuracy'' 0.8 ''Overall fraud detection accuracy for m'']
        [] (world_of score_fails_client))"
  by (simp add: run_defs score_fails_client_def emit_def)

lemma first_judgment_error_overflowing:
  "first_judgment_error (map fst (zip (detailed_results overflowing_result) sample_cases))
   = Some (Exception ''int too large to convert to float'')"
  by (simp add: overflowing_result_def sample_cases_def judgment_error_def dict_contains_def
      dict_get_def judgment_get_def div_10_def float_overflow_def)

lemma first_conversion_error_overflowing:
  "first_conversion_error (or_empty (ragas_scores overflowing_result))
   = Some (Exception ''int too large to convert to float'')"
  by (simp add: overflowing_result_def or_empty_def float_overflow_def)

lemma case_loop_overflowing:
  "case_loop ''trace-1'' 0 (zip (detailed_results overflowing_result) sample_cases) enabled_world
   = (Inl (Exception ''int too large to convert to float''),
      emit [CreateScore ''trace-1'' ''case_1_accuracy'' 1 ''Case 1: A''] [] enabled_world)"
  by (simp add: overflowing_result_def sample_cases_def push_case_def andthen_def create_score_def
      client_call_def enabled_world_def reliable_client_def dict_contains_def dict_get_def
      judgment_get_def div_10_def float_overflow_def raise_def emit_def str_of_nat_digit digit_char_def)

lemma ragas_loop_overflowing:
  "ragas_loop ''trace-1'' (or_empty (ragas_scores overflowing_result)) enabled_world
   = (Inl (Exception ''int too large to convert to float''),
      emit [CreateScore ''trace-1'' ''ragas_ok'' 1 ''RAGAS ok score''] [] enabled_world)"
  by (simp add: overflowing_result_def or_empty_def andthen_def create_score_def
      client_call_def enabled_world_def reliable_client_def float_overflow_def
      raise_def emit_def)

theorem exceptions_are_contained_witness:
  "enabled (self (world_of flush_fails_client))
   \<and> client (self (world_of flush_fails_client)) = Some flush_fails_client
   \<and> propagated (\<lambda>c. \<not> is_score_call c) flush_fails_client (calls (world_of flush_fails_client))
        (emitted (world_of flush_fails_client)
          (snd (trace_evaluation_run small_result ''m'' ''p'' [] None (world_of flush_fails_client))))
       = [(Flush, Exception ''timeout'')]
   \<and> fst (trace_evaluation_run small_result ''m'' ''p'' [] None (world_of flush_fails_client)) = Inr None
   \<and> logged (world_of flush_fails_client)
        (snd (trace_evaluation_run small_result ''m'' ''p'' [] None (world_of flush_fails_client)))
       = [(ERROR, ''Failed to create evaluation trace: timeout'')]
   \<and> failures flush_fails_client (calls (world_of flush_fails_client))
        (emitted (world_of flush_fails_client)
          (snd (trace_single_case_evaluation \<lparr>title = ''A'', expected_fraud_flag = True\<rparr>
                 [(''fraud_flag'', PBool True)] ''m'' None (world_of flush_fails_client))))
       = [(Flush, Exception ''timeout'')]
   \<and> fst (trace_single_case_evaluation \<lparr>title = ''A'', expected_fraud_flag = True\<rparr>
            [(''fraud_flag'', PBool True)] ''m'' None (world_of flush_fails_client)) = Inr None
   \<and> logged (world_of flush_fails_client)
        (snd (trace_single_case_evaluation \<lparr>title = ''A'', expected_fraud_flag = True\<rparr>
            [(''fraud_flag'', PBool True)] ''m'' None (world_of flush_fails_client)))
       = [(ERROR, ''Failed to create single case trace: timeout'')]
   \<and> enabled (self (world_of score_fails_client))
   \<and> client (self (world_of score_fails_client)) = Some score_fails_client
   \<and> failures score_fails_client (calls (world_of score_fails_client))
        (emitted (world_of score_fails_client)
          (snd (trace_evaluation_run small_result ''m'' ''p'' [] None (world_of score_fails_client))))
       = [(CreateScore ''trace-1'' ''fraud_detection_accuracy'' 0.8 ''Overall fraud detection accuracy for m'',
           Exception ''boom'')]
   \<and> propagated (\<lambda>c. \<not> is_score_call c) score_fails_client (calls (world_of score_fails_client))
        (emitted (world_of score_fails_client)
          (snd (trace_evaluation_run small_result ''m'' ''p'' [] None (world_of score_fails_client)))) = []
   \<and> fst (trace_evaluation_run small_result ''m'' ''p'' [] None (world_of score_fails_client))
       = Inr (Some ''trace-1'')
   \<and> (ERROR, ''Failed to push overall scores: boom'')
       \<in> set (logged (world_of score_fails_client)
               (snd (trace_evaluation_run small_result ''m'' ''p'' [] None (world_of score_fails_client))))
   \<and> push_overall_scores ''trace-1'' small_result ''m'' (world_of score_fails_client)
       = (Inr (), emit [CreateScore ''trace-1'' ''fraud_detection_accuracy'' 0.8
                          ''Overall fraud detection accuracy for m'']
                    [(ERROR, ''Failed to push overall scores: boom'')] (world_of score_fails_client))
   \<and> enabled (self (world_of interrupted_client))
   \<and> client (self (world_of interrupted_client)) = Some interrupted_client
   \<and> propagated (\<lambda>c. \<not> is_score_call c) interrupted_client (calls (world_of interrupted_client))
        (emitted (world_of interrupted_client)
          (snd (trace_evaluation_run small_result ''m'' ''p'' [] None (world_of interrupted_client))))
       = [(Flush, BaseException ''KeyboardInterrupt'')]
   \<and> fst (trace_evaluation_run small_result ''m'' ''p'' [] None (world_of interrupted_client))
       = Inl (BaseException ''KeyboardInterrupt'')
   \<and> enabled (self enabled_world)
   \<and> client (self enabled_world) = Some reliable_client
   \<and> never_raises reliable_client
   \<and> fst (trace_evaluation_run overflowing_result ''m'' ''p'' sample_cases None enabled_world)
       = Inr (Some ''trace-1'')
   \<and> filter (\<lambda>(level, msg). level = ERROR)
        (logged enabled_world
          (snd (trace_evaluation_run overflowing_result ''m'' ''p'' sample_cases None enabled_world)))
       = [(ERROR, ''Failed to push case scores: int too large to convert to float''),
          (ERROR, ''Failed to push RAGAS scores: int too large to convert to float'')]
   \<and> push_case_scores ''trace-1'' overflowing_result sample_cases enabled_world
       = (Inr (), emit [CreateScore ''trace-1'' ''case_1_accuracy'' 1 ''Case 1: A'']
                    [(ERROR, ''Failed to push case scores: int too large to convert to float'')]
                    enabled_world)
   \<and> push_ragas_scores ''trace-1'' (or_empty (ragas_scores overflowing_result)) enabled_world
       = (Inr (), emit [CreateScore ''trace-1'' ''ragas_ok'' 1 ''RAGAS ok score'']
                    [(ERROR, ''Failed to push RAGAS scores: int too large to convert to float'')]
                    enabled_world)"
proof -
  let ?tc = "\<lparr>title = ''A'', expected_fraud_flag = True\<rparr>"
  let ?pr = "[(''fraud_flag'', PBool True)]"
  have eF: "enabled (self (world_of flush_fails_client))"
    and cF: "client (self (world_of flush_fails_client)) = Some flush_fails_client"
    and eS: "enabled (self (world_of score_fails_client))"
    and cS: "client (self (world_of score_fails_client)) = Some score_fails_client"
    and eI: "enabled (self (world_of interrupted_client))"
    and cI: "client (self (world_of interrupted_client)) = Some interrupted_client"
    and eE: "enabled (self enabled_world)"
    and cE: "client (self enabled_world) = Some reliable_client"
    by (simp_all add: world_of_def enabled_world_def)
  have nE: "never_raises reliable_client"
    by (simp add: never_raises_def reliable_client_def)
  note TF = exceptions_are_contained[where w = "world_of flush_fails_client" and cl = flush_fails_client
      and er = small_result and mn = "''m''" and mp = "''p''" and tcs = "[]" and md = None
      and tc = ?tc and prediction = ?pr and mn' = "''m''" and md' = None, OF eF cF, unfolded Let_def]
  note TS = exceptions_are_contained[where w = "world_of score_fails_client" and cl = score_fails_client
      and er = small_result and mn = "''m''" and mp = "''p''" and tcs = "[]" and md = None
      and tc = ?tc and prediction = ?pr and mn' = "''m''" and md' = None, OF eS cS, unfolded Let_def]
  note TI = exceptions_are_contained[where w = "world_of interrupted_client" and cl = interrupted_client
      and er = small_result and mn = "''m''" and mp = "''p''" and tcs = "[]" and md = None
      and tc = ?tc and prediction = ?pr and mn' = "''m''" and md' = None, OF eI cI, unfolded Let_def]
  note TE = exceptions_are_contained[where w = enabled_world and cl = reliable_client
      and er = overflowing_result and mn = "''m''" and mp = "''p''" and tcs = sample_cases and md = None
      and tc = ?tc and prediction = ?pr and mn' = "''m''" and md' = None, OF eE cE, unfolded Let_def]
  have leftF: "propagated (\<lambda>c. \<not> is_score_call c) flush_fails_client (calls (world_of flush_fails_client))
        (emitted (world_of flush_fails_client)
          (snd (trace_evaluation_run small_result ''m'' ''p'' [] None (world_of flush_fails_client))))
       = [(Flush, Exception ''timeout'')]"
    unfolding run_flush_fails
    by (simp add: propagated_def emitted_def world_of_def flush_fails_client_def)
  have logF: "logged (world_of flush_fails_client)
        (snd (trace_evaluation_run small_result ''m'' ''p'' [] None (world_of flush_fails_client)))
       = [(ERROR, ''Failed to create evaluation trace: timeout'')]"
    unfolding run_flush_fails by (simp add: logged_def world_of_def)
  have runF: "fst (trace_evaluation_run small_result ''m'' ''p'' [] None (world_of flush_fails_client)) = Inr None"
    using TF[THEN conjunct1, THEN conjunct2, THEN conjunct1, rule_format, of Flush "''timeout''"]
    by (simp add: leftF)
  have failsF: "failures flush_fails_client (calls (world_of flush_fails_client))
        (emitted (world_of flush_fails_client)
          (snd (trace_single_case_evaluation ?tc ?pr ''m'' None (world_of flush_fails_client))))
       = [(Flush, Exception ''timeout'')]"
    unfolding single_flush_fails
    by (simp add: emitted_def world_of_def flush_fails_client_def)
  have singleF: "fst (trace_single_case_evaluation ?tc ?pr ''m'' None (world_of flush_fails_client)) = Inr None
     \<and> logged (world_of flush_fails_client)
        (snd (trace_single_case_evaluation ?tc ?pr ''m'' None (world_of flush_fails_client)))
       = [(ERROR, ''Failed to create single case trace: timeout'')]"
    using TF[THEN conjunct2, THEN conjunct1, THEN conjunct2, THEN conjunct1, rule_format,
        of Flush "''timeout''"]
    by (simp add: failsF)
  have failsS: "failures score_fails_client (calls (world_of score_fails_client))
        (emitted (world_of score_fails_client)
          (snd (trace_evaluation_run small_result ''m'' ''p'' [] None (world_of score_fails_client))))
       = [(CreateScore ''trace-1'' ''fraud_detection_accuracy'' 0.8 ''Overall fraud detection accuracy for m'',
           Exception ''boom'')]"
    unfolding run_score_fails
    by (simp add: emitted_def world_of_def score_fails_client_def)
  have leftS: "propagated (\<lambda>c. \<not> is_score_call c) score_fails_client (calls (world_of score_fails_client))
        (emitted (world_of score_fails_client)
          (snd (trace_evaluation_run small_result ''m'' ''p'' [] None (world_of score_fails_client)))) = []"
    unfolding propagated_def failsS by simp
  have tidS: "trace_ids score_fails_client (calls (world_of score_fails_client)) = ''trace-1''"
    by (simp add: score_fails_client_def)
  have runS: "fst (trace_evaluation_run small_result ''m'' ''p'' [] None (world_of score_fails_client))
       = Inr (Some ''trace-1'')"
    using TS[THEN conjunct1, THEN conjunct1] by (simp add: leftS tidS)
  have logS: "(ERROR, ''Failed to push overall scores: boom'')
       \<in> set (logged (world_of score_fails_client)
               (snd (trace_evaluation_run small_result ''m'' ''p'' [] None (world_of score_fails_client))))"
    using TS[THEN conjunct1, THEN conjunct2, THEN conjunct2, THEN conjunct2, THEN conjunct1, rule_format,
        of "CreateScore ''trace-1'' ''fraud_detection_accuracy'' 0.8 ''Overall fraud detection accuracy for m''"
           "''boom''"]
    by (simp add: failsS)
  have helperS: "push_overall_scores ''trace-1'' small_result ''m'' (world_of score_fails_client)
       = (Inr (), emit [CreateScore ''trace-1'' ''fraud_detection_accuracy'' 0.8
                          ''Overall fraud detection accuracy for m'']
                    [(ERROR, ''Failed to push overall scores: boom'')] (world_of score_fails_client))"
    using TS[THEN conjunct2, THEN conjunct2, THEN conjunct1, rule_format, OF overall_try_score_fails]
    by simp
  have leftI: "propagated (\<lambda>c. \<not> is_score_call c) interrupted_client (calls (world_of interrupted_client))
        (emitted (world_of interrupted_client)
          (snd (trace_evaluation_run small_result ''m'' ''p'' [] None (world_of interrupted_client))))
       = [(Flush, BaseException ''KeyboardInterrupt'')]"
    unfolding run_interrupted
    by (simp add: propagated_def emitted_def world_of_def interrupted_client_def)
  have runI: "fst (trace_evaluation_run small_result ''m'' ''p'' [] None (world_of interrupted_client))
       = Inl (BaseException ''KeyboardInterrupt'')"
    using TI[THEN conjunct1, THEN conjunct2, THEN conjunct2, THEN conjunct1, rule_format,
        of Flush "''KeyboardInterrupt''"]
    by (simp add: leftI)
  have tidE: "trace_ids reliable_client (calls enabled_world) = ''trace-1''"
    by (simp add: reliable_client_def)
  have runE: "fst (trace_evaluation_run overflowing_result ''m'' ''p'' sample_cases None enabled_world)
       = Inr (Some ''trace-1'')
   \<and> filter (\<lambda>(level, msg). level = ERROR)
        (logged enabled_world
          (snd (trace_evaluation_run overflowing_result ''m'' ''p'' sample_cases None enabled_world)))
       = [(ERROR, ''Failed to push case scores: int too large to convert to float''),
          (ERROR, ''Failed to push RAGAS scores: int too large to convert to float'')]"
    using TE[THEN conjunct1, THEN conjunct2, THEN conjunct2, THEN conjunct2, THEN conjunct2,
        THEN conjunct2, rule_format, OF nE]
    by (simp add: tidE first_judgment_error_overflowing first_conversion_error_overflowing)
  have caseE: "push_case_scores ''trace-1'' overflowing_result sample_cases enabled_world
       = (Inr (), emit [CreateScore ''trace-1'' ''case_1_accuracy'' 1 ''Case 1: A'']
                    [(ERROR, ''Failed to push case scores: int too large to convert to float'')]
                    enabled_world)"
    using TE[THEN conjunct2, THEN conjunct2, THEN conjunct2, THEN conjunct1, rule_format,
        OF case_loop_overflowing]
    by simp
  have ragasE: "push_ragas_scores ''trace-1'' (or_empty (ragas_scores overflowing_result)) enabled_world
       = (Inr (), emit [CreateScore ''trace-1'' ''ragas_ok'' 1 ''RAGAS ok score'']
                    [(ERROR, ''Failed to push RAGAS scores: int too large to convert to float'')]
                    enabled_world)"
    using TE[THEN conjunct2, THEN conjunct2, THEN conjunct2, THEN conjunct2, rule_format,
        OF ragas_loop_overflowing]
    by simp
  show ?thesis
    by (intro conjI eF cF leftF runF logF failsF singleF[THEN conjunct1] singleF[THEN conjunct2]
        eS cS failsS leftS runS logS helperS eI cI leftI runI eE cE nE
        runE[THEN conjunct1] runE[THEN conjunct2] caseE ragasE)
qed

text \<open>
  C1, as stated, fails: when the first \<^verbatim>\<open>create_score\<close> of a full run raises, the run
  still returns the trace identifier; and a \<^verbatim>\<open>KeyboardInterrupt\<close> raised by
  \<^verbatim>\<open>flush\<close> reaches the caller.
\<close>

theorem exceptions_counterexample:
  "enabled (self (world_of score_fails_client))
   \<and> failures score_fails_client (calls (world_of score_fails_client))
        (emitted (world_of score_fails_client)
          (snd (trace_evaluation_run small_result ''m'' ''p'' [] None (world_of score_fails_client))))
       = [(CreateScore ''trace-1'' ''fraud_detection_accuracy'' 0.8 ''Overall fraud detection accuracy for m'',
           Exception ''boom'')]
   \<and> fst (trace_evaluation_run small_result ''m'' ''p'' [] None (world_of score_fails_client))
       = Inr (Some ''trace-1'')
   \<and> enabled (self (world_of interrupted_client))
   \<and> fst (trace_evaluation_run small_result ''m'' ''p'' [] None (world_of interrupted_client))
       = Inl (BaseException ''KeyboardInterrupt'')"
  by (simp add: run_defs score_fails_client_def interrupted_client_def)

section \<open>The enabled attribute\<close>

lemma flow_self:
  assumes "flow P Q m"
  shows "self (snd (m w)) = self w"
  using flow_frame[OF assms, of w] by auto

lemma try_self:
  assumes "flow P Q m"
  shows "self (snd (try_except m (\<lambda>e. andthen (logger_error (g e)) (\<lambda>_. ret None)) w)) = self w"
proof -
  from assms obtain cs ls r where m: "m w = (r, emit cs ls w)"
    by (rule flowE[where w = w])
  show ?thesis
  proof (cases r)
    case (Inr x)
    with m show ?thesis by (simp add: try_except_def)
  next
    case (Inl e)
    with m show ?thesis
      by (cases e) (simp_all add: try_except_def andthen_def logger_error_emit ret_def)
  qed
qed

lemma close_self: "self (snd (close w)) = self w"
  by (simp add: close_def try_except_def andthen_def client_call_def logger_info_def logger_error_def
      split: option.splits py_exn.splits)

lemma run_self: "self (snd (trace_evaluation_run er mn mp tcs md w)) = self w"
  by (simp add: trace_evaluation_run_def try_self[OF flow_trace_evaluation_run_try])

lemma single_self: "self (snd (trace_single_case_evaluation tc prediction mn md w)) = self w"
  by (simp add: trace_single_case_evaluation_def try_self[OF flow_trace_single_case_evaluation_try])

lemma perform_self: "self (perform op w) = self w"
  by (cases op)
     (simp_all add: run_self single_self close_self trace_evaluation_def
        flow_self[OF flow_push_overall_scores] flow_self[OF flow_push_case_scores]
        flow_self[OF flow_push_ragas_scores])

lemma perform_disabled: "\<not> enabled (self w) \<Longrightarrow> perform op w = w"
  by (cases op)
     (simp_all add: trace_evaluation_run_def trace_single_case_evaluation_def close_def
        push_overall_scores_def push_case_scores_def push_ragas_scores_def trace_evaluation_def)

lemma fold_perform_self: "self (fold perform ops w) = self w"
  by (induction ops arbitrary: w) (simp_all add: perform_self)

lemma fold_perform_disabled: "\<not> enabled (self w) \<Longrightarrow> fold perform ops w = w"
  by (induction ops arbitrary: w) (simp_all add: perform_disabled)

text \<open>
  C9. No sequence of operations on a tracer changes its \<open>enabled\<close> attribute: a disabled
  tracer stays disabled and an enabled one stays enabled. On a disabled tracer no
  operation makes any call on the backend, so no score is emitted.
\<close>

theorem enabled_state_is_permanent:
  "enabled (self (fold perform ops w)) = enabled (self w)
   \<and> (\<not> enabled (self w) \<longrightarrow> calls (fold perform ops w) = calls w)"
  by (simp add: fold_perform_self fold_perform_disabled)

theorem enabled_state_is_permanent_witness:
  "\<not> enabled (self disabled_world)
   \<and> \<not> enabled (self (fold perform
        [TraceEvaluationRun sample_result ''gpt-4o'' ''openai'' sample_cases None,
         PushOverallScores ''trace-1'' sample_result ''gpt-4o'',
         PushCaseScores ''trace-1'' sample_result sample_cases,
         PushRagasScores ''trace-1'' [(''faithfulness'', PFloat 0.9)],
         TraceSingleCaseEvaluation \<lparr>title = ''A'', expected_fraud_flag = True\<rparr>
           [(''fraud_flag'', PBool True)] ''gpt-4o'' None,
         TraceEvaluation sample_result ''gpt-4o'' ''openai'' sample_cases None,
         Close] disabled_world))
   \<and> calls (fold perform
        [TraceEvaluationRun sample_result ''gpt-4o'' ''openai'' sample_cases None,
         PushOverallScores ''trace-1'' sample_result ''gpt-4o'',
         PushCaseScores ''trace-1'' sample_result sample_cases,
         PushRagasScores ''trace-1'' [(''faithfulness'', PFloat 0.9)],
         TraceSingleCaseEvaluation \<lparr>title = ''A'', expected_fraud_flag = True\<rparr>
           [(''fraud_flag'', PBool True)] ''gpt-4o'' None,
         TraceEvaluation sample_result ''gpt-4o'' ''openai'' sample_cases None,
         Close] disabled_world) = []
   \<and> enabled (self (fold perform
        [TraceEvaluationRun small_result ''m'' ''p'' [] None, Close] (world_of flush_fails_client)))"
proof -
  have d: "\<not> enabled (self disabled_world)" "calls disabled_world = []"
    by (simp_all add: disabled_world_def)
  have e: "enabled (self (world_of flush_fails_client))" by (simp add: world_of_def)
  from enabled_state_is_permanent[of
        "[TraceEvaluationRun sample_result ''gpt-4o'' ''openai'' sample_cases None,
         PushOverallScores ''trace-1'' sample_result ''gpt-4o'',
         PushCaseScores ''trace-1'' sample_result sample_cases,
         PushRagasScores ''trace-1'' [(''faithfulness'', PFloat 0.9)],
         TraceSingleCaseEvaluation \<lparr>title = ''A'', expected_fraud_flag = True\<rparr>
           [(''fraud_flag'', PBool True)] ''gpt-4o'' None,
         TraceEvaluation sample_result ''gpt-4o'' ''openai'' sample_cases None,
         Close]" disabled_world]
     enabled_state_is_permanent[of "[TraceEvaluationRun small_result ''m'' ''p'' [] None, Close]"
        "world_of flush_fails_client"]
     d e
  show ?thesis by simp
qed

end
